(* ===== verification/Go_Prelude.thy ===== *)
theory Go_Prelude
  imports Main "HOL-Library.AList"
begin

text \<open>
  Shared vocabulary of the development: the parts of Go's language and standard
  library that every component of indihurd uses, and the proof collections.

  \<^item> A Go \<^verbatim>\<open>string\<close> or \<^verbatim>\<open>[]byte\<close> is a list of bytes (\<^typ>\<open>char list\<close>), so \<open>len\<close> is
    \<^const>\<open>length\<close> and counts bytes.
  \<^item> A Go \<^verbatim>\<open>map[string]T\<close> is an association list with distinct keys. The list order
    is the iteration order of one particular \<^verbatim>\<open>range\<close>, which Go leaves unspecified; the
    theorems hold for every order.
  \<^item> A call that returns \<^verbatim>\<open>(T, error)\<close> returns a sum, \<^const>\<open>Inl\<close> for the error.
  \<^item> The functions of package \<^verbatim>\<open>strings\<close> the sources use are defined on bytes.
\<close>

named_theorems wire_simps \<open>evaluation of the wire scanner on encoder output\<close>
named_theorems shrink \<open>a scanner returns a shorter rest of its input\<close>
named_theorems store_simps \<open>reading a snapshot after a store operation\<close>
named_theorems kit_simps \<open>unfolding the binding kit's reads and writes\<close>

subsection \<open>Bytes\<close>

abbreviation NL :: char where "NL \<equiv> CHR 0x0A"
abbreviation CR :: char where "CR \<equiv> CHR 0x0D"
abbreviation TAB :: char where "TAB \<equiv> CHR 0x09"
abbreviation NUL :: char where "NUL \<equiv> CHR 0x00"
abbreviation SQUOTE :: char where "SQUOTE \<equiv> CHR 0x27"
abbreviation DQUOTE :: char where "DQUOTE \<equiv> CHR 0x22"

definition byte_between :: "char \<Rightarrow> char \<Rightarrow> char \<Rightarrow> bool" where
  "byte_between lo hi c \<longleftrightarrow> of_char lo \<le> (of_char c :: nat) \<and> of_char c \<le> (of_char hi :: nat)"

definition is_digit :: "char \<Rightarrow> bool" where
  "is_digit = byte_between (CHR ''0'') (CHR ''9'')"

definition lower :: "char \<Rightarrow> char" where
  "lower c = (if byte_between (CHR ''A'') (CHR ''Z'') c then char_of (of_char c + 32 :: nat) else c)"

subsection \<open>Machine integers\<close>

text \<open>A Go \<^verbatim>\<open>int\<close>, \<^verbatim>\<open>int64\<close> or \<^verbatim>\<open>time.Duration\<close> is an integer of 64 bits in two's complement; arithmetic
  that leaves the range wraps.\<close>

definition wrap64 :: "int \<Rightarrow> int" where
  "wrap64 x = (x + 2 ^ 63) mod 2 ^ 64 - 2 ^ 63"

lemma wrap64_id: "- (2 ^ 63) \<le> x \<Longrightarrow> x < 2 ^ 63 \<Longrightarrow> wrap64 x = x"
  by (simp add: wrap64_def)

lemma wrap64_range: "- (2 ^ 63) \<le> wrap64 x" "wrap64 x < 2 ^ 63"
  by (simp_all add: wrap64_def)

subsection \<open>Package strings\<close>

definition HasPrefix :: "string \<Rightarrow> string \<Rightarrow> bool" where
  "HasPrefix s p \<longleftrightarrow> take (length p) s = p"

definition HasSuffix :: "string \<Rightarrow> string \<Rightarrow> bool" where
  "HasSuffix s p \<longleftrightarrow> drop (length s - length p) s = p"

text \<open>
  \<^verbatim>\<open>unicode.IsSpace\<close> in UTF-8: the six ASCII spaces, then U+0085, U+00A0, U+1680,
  U+2000 to U+200A, U+2028, U+2029, U+202F, U+205F and U+3000. A UTF-8 sequence is
  recognised from either end by its bytes, so trimming runes is trimming these strings.
\<close>

definition ascii_space :: "char \<Rightarrow> bool" where
  "ascii_space c \<longleftrightarrow> c \<in> {CHR '' '', TAB, NL, CHR 0x0B, CHR 0x0C, CR}"

definition space_seqs :: "string list" where
  "space_seqs = map (\<lambda>c. [c]) [CHR '' '', TAB, NL, CHR 0x0B, CHR 0x0C, CR] @
     [[CHR 0xC2, CHR 0x85], [CHR 0xC2, CHR 0xA0], [CHR 0xE1, CHR 0x9A, CHR 0x80]] @
     map (\<lambda>c. [CHR 0xE2, CHR 0x80, c])
       [CHR 0x80, CHR 0x81, CHR 0x82, CHR 0x83, CHR 0x84, CHR 0x85, CHR 0x86, CHR 0x87,
        CHR 0x88, CHR 0x89, CHR 0x8A, CHR 0xA8, CHR 0xA9, CHR 0xAF] @
     [[CHR 0xE2, CHR 0x81, CHR 0x9F], [CHR 0xE3, CHR 0x80, CHR 0x80]]"

text \<open>Remove members of \<open>ws\<close> from the front for as long as one of them is there.\<close>

function trim_front :: "string list \<Rightarrow> string \<Rightarrow> string" where
  "trim_front ws s =
     (case find (\<lambda>w. w \<noteq> [] \<and> HasPrefix s w) ws of
        None \<Rightarrow> s
      | Some w \<Rightarrow> trim_front ws (drop (length w) s))"
  by pat_completeness auto
termination
proof (relation "measure (\<lambda>(ws, s). length s)")
  fix ws s w
  assume "find (\<lambda>w. w \<noteq> [] \<and> HasPrefix s w) ws = Some w"
  then have "w \<noteq> []" "HasPrefix s w"
    by (auto simp: find_Some_iff)
  then show "((ws, drop (length w) s), (ws, s)) \<in> measure (\<lambda>(ws, s). length s)"
    by (cases s) (auto simp: HasPrefix_def)
qed simp

declare trim_front.simps [simp del]

definition TrimSpace :: "string \<Rightarrow> string" where
  "TrimSpace s = rev (trim_front (map rev space_seqs) (rev (trim_front space_seqs s)))"

definition TrimRight1 :: "string \<Rightarrow> char \<Rightarrow> string" where
  \<comment> \<open>\<^verbatim>\<open>strings.TrimRight\<close> with a one-byte cutset\<close>
  "TrimRight1 s c = rev (dropWhile (\<lambda>x. x = c) (rev s))"

text \<open>
  \<^verbatim>\<open>strings.ToLower\<close> for comparison with ASCII text: the runes whose lower case is ASCII are the
  capital letters, the Kelvin sign and the dotted capital I; every other rune stays outside ASCII
  and is left as it is.
\<close>

fun ToLower :: "string \<Rightarrow> string" where
  "ToLower [] = []"
| "ToLower (a # s) =
     (if a = CHR 0xE2 \<and> take 2 s = [CHR 0x84, CHR 0xAA] then CHR ''k'' # ToLower (drop 2 s)
      else if a = CHR 0xC4 \<and> take 1 s = [CHR 0xB0] then CHR ''i'' # ToLower (drop 1 s)
      else lower a # ToLower s)"

definition upper :: "char \<Rightarrow> char" where
  "upper c = (if byte_between (CHR ''a'') (CHR ''z'') c then char_of (of_char c - 32 :: nat) else c)"

text \<open>\<^verbatim>\<open>strings.ToUpper\<close> likewise: the dotless i and the long s have ASCII capitals.\<close>

fun ToUpper :: "string \<Rightarrow> string" where
  "ToUpper [] = []"
| "ToUpper (a # s) =
     (if a = CHR 0xC4 \<and> take 1 s = [CHR 0xB1] then CHR ''I'' # ToUpper (drop 1 s)
      else if a = CHR 0xC5 \<and> take 1 s = [CHR 0xBF] then CHR ''S'' # ToUpper (drop 1 s)
      else upper a # ToUpper s)"

fun Contains :: "string \<Rightarrow> string \<Rightarrow> bool" where
  "Contains [] p = (p = [])"
| "Contains (a # s) p = (HasPrefix (a # s) p \<or> Contains s p)"

fun fields_acc :: "(char \<Rightarrow> bool) \<Rightarrow> string \<Rightarrow> string \<Rightarrow> string list" where
  "fields_acc p acc [] = (if acc = [] then [] else [acc])"
| "fields_acc p acc (c # s) =
     (if p c then (if acc = [] then [] else [acc]) @ fields_acc p [] s
      else fields_acc p (acc @ [c]) s)"

definition FieldsFunc :: "string \<Rightarrow> (char \<Rightarrow> bool) \<Rightarrow> string list" where
  "FieldsFunc s p = fields_acc p [] s"

text \<open>\<^verbatim>\<open>strings.Cut\<close> with a one-byte separator: the text before and after its first
  occurrence, \<^const>\<open>None\<close> when it does not occur.\<close>

fun Cut1 :: "char \<Rightarrow> string \<Rightarrow> (string \<times> string) option" where
  "Cut1 c [] = None"
| "Cut1 c (x # xs) =
     (if x = c then Some ([], xs) else map_option (\<lambda>(a, b). (x # a, b)) (Cut1 c xs))"

lemma HasPrefix_append: "HasPrefix s p \<Longrightarrow> \<exists>r. s = p @ r"
  by (metis HasPrefix_def append_take_drop_id)

lemma HasPrefix_appendI [simp]: "HasPrefix (p @ r) p"
  by (simp add: HasPrefix_def)

lemma HasSuffix_append: "HasSuffix s p \<Longrightarrow> \<exists>r. s = r @ p"
  by (metis HasSuffix_def append_take_drop_id)

lemma HasSuffix_appendI [simp]: "HasSuffix (r @ p) p"
  by (simp add: HasSuffix_def)

lemma Cut1_Some: "Cut1 c s = Some (a, b) \<Longrightarrow> s = a @ c # b \<and> c \<notin> set a"
  by (induction s arbitrary: a b) (auto split: if_splits)

lemma Cut1_split: "c \<notin> set a \<Longrightarrow> Cut1 c (a @ c # b) = Some (a, b)"
  by (induction a) auto

lemma Cut1_None: "c \<notin> set s \<Longrightarrow> Cut1 c s = None"
  by (induction s) auto

text \<open>A byte that starts no space sequence stops the trimming.\<close>

definition solid :: "char \<Rightarrow> bool" where
  "solid c \<longleftrightarrow> \<not> ascii_space c \<and> (of_char c :: nat) < 128"

lemma hd_space_seqs: "w \<in> set space_seqs \<Longrightarrow> w \<noteq> [] \<and> \<not> solid (hd w)"
  by (auto simp: space_seqs_def solid_def ascii_space_def)

lemma last_space_seqs: "w \<in> set (map rev space_seqs) \<Longrightarrow> w \<noteq> [] \<and> \<not> solid (hd w)"
  by (auto simp: space_seqs_def solid_def ascii_space_def)

lemma trim_front_solid:
  assumes "\<And>w. w \<in> set ws \<Longrightarrow> w \<noteq> [] \<and> \<not> solid (hd w)" and "s = [] \<or> solid (hd s)"
  shows "trim_front ws s = s"
proof -
  have "find (\<lambda>w. w \<noteq> [] \<and> HasPrefix s w) ws = None"
    using assms by (fastforce simp: find_None_iff dest!: HasPrefix_append)
  then show ?thesis by (simp add: trim_front.simps)
qed

lemma TrimSpace_solid:
  assumes "s = [] \<or> solid (hd s) \<and> solid (last s)"
  shows "TrimSpace s = s"
proof -
  have "trim_front space_seqs s = s"
    using assms by (intro trim_front_solid hd_space_seqs) auto
  moreover have "trim_front (map rev space_seqs) (rev s) = rev s"
    using assms by (intro trim_front_solid last_space_seqs) (auto simp: hd_rev)
  ultimately show ?thesis by (simp add: TrimSpace_def)
qed

lemma length_trim_front: "length (trim_front ws s) \<le> length s"
proof (induction ws s rule: trim_front.induct)
  case (1 ws s)
  then show ?case
    by (subst trim_front.simps) (fastforce split: option.splits)
qed

lemma length_TrimSpace: "length (TrimSpace s) \<le> length s"
  unfolding TrimSpace_def
  by (metis length_rev length_trim_front order_trans)

subsection \<open>Maps\<close>

type_synonym 'v gomap = "(string \<times> 'v) list"

abbreviation gomap_ok :: "'v gomap \<Rightarrow> bool" where
  "gomap_ok m \<equiv> distinct (map fst m)"

lemma gomap_of_delete: "map_of (AList.delete k m) = (map_of m)(k := None)"
  by (rule ext) (simp add: AList.delete_conv)

lemma gomap_of_update: "map_of (AList.update k v m) = (map_of m)(k \<mapsto> v)"
  by (rule AList.update_conv')

lemma length_gomap_update:
  "length (AList.update k v m) = (if k \<in> set (map fst m) then length m else Suc (length m))"
  by (induction m) auto

lemmas gomap_simps [simp] =
  gomap_of_delete gomap_of_update AList.distinct_update AList.distinct_delete

end
