(* ===== verification/Indi_Queue.thy ===== *)
theory Indi_Queue
  imports Go_Prelude "HOL-Library.Multiset"
begin

text \<open>
  The outbound queue of a client of the INDI server (\<^verbatim>\<open>internal/indiserve/conn.go\<close>): a channel of
  encoded messages, a counter of the bytes that are queued or being written, and the flag that the
  connection is closed. \<open>enqueue\<close> is the whole call; \<open>q_step\<close> splits it, and the loop that writes to the
  socket, at their accesses to shared memory, for any number of goroutines that enqueue at once.

  The counter is an atomic \<^verbatim>\<open>int64\<close>; it counts bytes held in memory, so it is an integer here.
\<close>

definition queueMessages :: nat where "queueMessages = 256"
definition queueBytes :: int where "queueBytes = 64 * 2 ^ 20"

record queue =
  q_out :: "string list"
  q_pending :: int
  q_done :: bool

definition new_queue :: queue where
  "new_queue = \<lparr>q_out = [], q_pending = 0, q_done = False\<rparr>"

datatype enq_error = OverBytes | ErrClosed | OverMessages

definition pending_Add :: "int \<Rightarrow> queue \<Rightarrow> int \<times> queue" where
  "pending_Add n q = (q_pending q + n, q\<lparr>q_pending := q_pending q + n\<rparr>)"

definition over_bytes :: "int \<Rightarrow> string \<Rightarrow> bool" where
  "over_bytes p msg \<longleftrightarrow> queueBytes < p \<and> p \<noteq> int (length msg)"

definition release :: "string \<Rightarrow> queue \<Rightarrow> queue" where
  "release msg q = snd (pending_Add (- int (length msg)) q)"

definition conn_close :: "queue \<Rightarrow> queue" where
  "conn_close q = q\<lparr>q_done := True\<rparr>"

text \<open>A \<^verbatim>\<open>select\<close> with several ready cases takes any of them: \<open>pick\<close> is its choice between sending and
  the closed connection.\<close>

definition enqueue :: "bool \<Rightarrow> string \<Rightarrow> queue \<Rightarrow> enq_error option \<times> queue" where
  "enqueue pick msg q =
     (let (p, q1) = pending_Add (int (length msg)) q in
      if over_bytes p msg then (Some OverBytes, release msg q1)
      else if length (q_out q1) < queueMessages \<and> (q_done q1 \<longrightarrow> pick) then (None, q1\<lparr>q_out := q_out q1 @ [msg]\<rparr>)
      else if q_done q1 then (Some ErrClosed, release msg q1)
      else (Some OverMessages, release msg q1))"

lemma pending_Add_simps [simp]:
  "fst (pending_Add n q) = q_pending q + n" "q_pending (snd (pending_Add n q)) = q_pending q + n"
  "q_out (snd (pending_Add n q)) = q_out q" "q_done (snd (pending_Add n q)) = q_done q"
  by (simp_all add: pending_Add_def)

lemma release_simps [simp]:
  "q_pending (release m q) = q_pending q - int (length m)" "q_out (release m q) = q_out q" "q_done (release m q) = q_done q"
  by (simp_all add: release_def)

lemma release_Add [simp]: "release m (snd (pending_Add (int (length m)) q)) = q"
  by (simp add: release_def pending_Add_def)

text \<open>The outcomes of a call: the message is appended and counted, or nothing changes.\<close>

lemma enqueue_cases:
  "enqueue pick msg q = (None, q\<lparr>q_pending := q_pending q + int (length msg), q_out := q_out q @ [msg]\<rparr>) \<or>
   (\<exists>er. enqueue pick msg q = (Some er, q))"
  by (auto simp: enqueue_def pending_Add_def release_def Let_def)

lemma enqueue_room:
  assumes "\<not> q_done q" "length (q_out q) < queueMessages"
    "q_pending q + int (length msg) \<le> queueBytes \<or> q_pending q = 0"
  shows "enqueue pick msg q = (None, q\<lparr>q_pending := q_pending q + int (length msg), q_out := q_out q @ [msg]\<rparr>)"
  using assms by (auto simp: enqueue_def pending_Add_def over_bytes_def Let_def)

subsection \<open>The goroutines\<close>

text \<open>A goroutine inside \<open>enqueue\<close> holds its message and the sum it read; \<open>z_accepted\<close> and
  \<open>z_wire\<close> record what entered the channel and what was written completely.\<close>

record QSys =
  z_q :: queue
  z_callers :: "(string \<times> int) list"
  z_writing :: "string option"
  z_alive :: bool
  z_wire :: "string list"
  z_accepted :: "string list"

abbreviation without :: "nat \<Rightarrow> 'a list \<Rightarrow> 'a list" where
  "without i xs \<equiv> take i xs @ drop (Suc i) xs"

inductive q_step :: "QSys \<Rightarrow> QSys \<Rightarrow> bool" where
  add: "pending_Add (int (length msg)) (z_q z) = (p, q) \<Longrightarrow>
    q_step z (z\<lparr>z_q := q, z_callers := z_callers z @ [(msg, p)]\<rparr>)"
| over: "\<lbrakk>i < length (z_callers z); z_callers z ! i = (msg, p); over_bytes p msg\<rbrakk> \<Longrightarrow>
    q_step z (z\<lparr>z_q := release msg (z_q z), z_callers := without i (z_callers z)\<rparr>)"
| send: "\<lbrakk>i < length (z_callers z); z_callers z ! i = (msg, p); \<not> over_bytes p msg; length (q_out (z_q z)) < queueMessages\<rbrakk> \<Longrightarrow>
    q_step z (z\<lparr>z_q := (z_q z)\<lparr>q_out := q_out (z_q z) @ [msg]\<rparr>, z_callers := without i (z_callers z),
      z_accepted := z_accepted z @ [msg]\<rparr>)"
| closed: "\<lbrakk>i < length (z_callers z); z_callers z ! i = (msg, p); \<not> over_bytes p msg; q_done (z_q z)\<rbrakk> \<Longrightarrow>
    q_step z (z\<lparr>z_q := release msg (z_q z), z_callers := without i (z_callers z)\<rparr>)"
| full: "\<lbrakk>i < length (z_callers z); z_callers z ! i = (msg, p); \<not> over_bytes p msg; \<not> q_done (z_q z);
      queueMessages \<le> length (q_out (z_q z))\<rbrakk> \<Longrightarrow>
    q_step z (z\<lparr>z_q := release msg (z_q z), z_callers := without i (z_callers z)\<rparr>)"
| receive: "\<lbrakk>z_alive z; z_writing z = None; q_out (z_q z) = msg # msgs\<rbrakk> \<Longrightarrow>
    q_step z (z\<lparr>z_q := (z_q z)\<lparr>q_out := msgs\<rparr>, z_writing := Some msg\<rparr>)"
| written: "z_writing z = Some msg \<Longrightarrow>
    q_step z (z\<lparr>z_q := release msg (z_q z), z_writing := None, z_wire := z_wire z @ [msg]\<rparr>)"
| failed: "z_writing z = Some msg \<Longrightarrow>
    q_step z (z\<lparr>z_q := conn_close (release msg (z_q z)), z_writing := None, z_alive := False\<rparr>)"
| stop: "\<lbrakk>z_alive z; z_writing z = None; q_done (z_q z)\<rbrakk> \<Longrightarrow> q_step z (z\<lparr>z_alive := False\<rparr>)"
| close: "q_step z (z\<lparr>z_q := conn_close (z_q z)\<rparr>)"

definition q_init :: QSys where
  "q_init = \<lparr>z_q = new_queue, z_callers = [], z_writing = None, z_alive = True, z_wire = [], z_accepted = []\<rparr>"

inductive q_reach :: "QSys \<Rightarrow> bool" where
  init: "q_reach q_init"
| step: "\<lbrakk>q_reach z; q_step z z'\<rbrakk> \<Longrightarrow> q_reach z'"

inductive_cases q_stepE: "q_step z z'"


subsection \<open>The invariant\<close>

abbreviation bytes :: "string list \<Rightarrow> int" where
  "bytes msgs \<equiv> int (length (concat msgs))"

definition in_hand :: "QSys \<Rightarrow> string list" where
  "in_hand z = (case z_writing z of None \<Rightarrow> [] | Some m \<Rightarrow> [m]) @ q_out (z_q z)"

text \<open>The messages let in by the byte limit: those in hand and those about to be sent.\<close>

definition admitted :: "QSys \<Rightarrow> string list" where
  "admitted z = map fst (filter (\<lambda>(m, p). \<not> over_bytes p m) (z_callers z)) @ in_hand z"

definition fits :: "string list \<Rightarrow> bool" where
  "fits msgs \<longleftrightarrow> bytes msgs \<le> queueBytes \<or> length (filter (\<lambda>m. m \<noteq> []) msgs) \<le> 1"

definition q_ok :: "QSys \<Rightarrow> bool" where
  "q_ok z \<longleftrightarrow> q_pending (z_q z) = bytes (map fst (z_callers z)) + bytes (in_hand z) \<and>
     fits (admitted z) \<and> length (q_out (z_q z)) \<le> queueMessages \<and>
     (\<exists>lost. z_accepted z = z_wire z @ lost @ in_hand z \<and> length lost \<le> 1 \<and> (z_alive z \<longrightarrow> lost = [])) \<and>
     (\<not> z_alive z \<longrightarrow> z_writing z = None)"

lemma split_caller:
  assumes "i < length xs" "xs ! i = x" obtains a b where "xs = a @ x # b" "without i xs = a @ b"
  using assms id_take_nth_drop by blast

lemma fits_part: "fits (a @ m # b) \<Longrightarrow> fits (a @ b)"
  by (auto simp: fits_def split: if_splits)

lemma fits_perm: "fits xs \<Longrightarrow> mset xs = mset ys \<Longrightarrow> fits ys"
proof -
  assume f: "fits xs" and m: "mset xs = mset ys"
  have "length (concat xs) = length (concat ys)"
    using arg_cong [OF m, of "\<lambda>M. sum_mset (image_mset length M)"] by (simp add: length_concat flip: sum_mset_sum_list)
  moreover have "length (filter (\<lambda>m. m \<noteq> []) xs) = length (filter (\<lambda>m. m \<noteq> []) ys)"
    using arg_cong [OF m, of "\<lambda>M. size (filter_mset (\<lambda>m. m \<noteq> []) M)"] by (simp flip: mset_filter)
  ultimately show ?thesis using f by (simp add: fits_def)
qed

lemma no_bytes: "bytes msgs = 0 \<Longrightarrow> filter (\<lambda>m. m \<noteq> []) msgs = []"
  by (simp add: filter_empty_conv)

lemma fits_new:
  assumes "bytes (a @ b) + int (length msg) \<le> queueBytes \<or> bytes (a @ b) = 0" shows "fits (a @ msg # b)"
  using assms
proof
  assume "bytes (a @ b) = 0"
  then have "filter (\<lambda>m. m \<noteq> []) (a @ b) = []" by (rule no_bytes)
  then show ?thesis by (simp add: fits_def)
qed (simp add: fits_def)

lemma bytes_filter: "bytes (map fst (filter P xs)) \<le> bytes (map fst xs)"
  by (induction xs) auto

lemma q_ok_add:
  assumes "q_ok z" "pending_Add (int (length msg)) (z_q z) = (p, q)"
  shows "q_ok (z\<lparr>z_q := q, z_callers := z_callers z @ [(msg, p)]\<rparr>)"
proof -
  let ?as = "map fst (filter (\<lambda>(m, p). \<not> over_bytes p m) (z_callers z))"
  let ?z = "z\<lparr>z_q := q, z_callers := z_callers z @ [(msg, p)]\<rparr>"
  have q: "p = q_pending (z_q z) + int (length msg)" "q_pending q = p" "q_out q = q_out (z_q z)"
    using assms(2) by (auto simp: pending_Add_def)
  have hand: "in_hand ?z = in_hand z" by (simp add: in_hand_def q)
  have le: "bytes (?as @ in_hand z) \<le> q_pending (z_q z)"
    using assms(1) bytes_filter [of _ "z_callers z"] by (simp add: q_ok_def)
  have "fits (admitted ?z)"
  proof (cases "over_bytes p msg")
    case True
    then show ?thesis using assms(1) by (simp add: admitted_def hand q_ok_def)
  next
    case False
    then have "bytes (?as @ in_hand z) + int (length msg) \<le> queueBytes \<or> bytes (?as @ in_hand z) = 0"
      using le by (auto simp: over_bytes_def q(1))
    then show ?thesis using fits_new [of ?as "in_hand z" msg] False by (simp add: admitted_def hand)
  qed
  then show ?thesis using assms(1) by (simp add: q_ok_def in_hand_def q)
qed

text \<open>A caller that leaves without having sent gives its bytes back.\<close>

lemma q_ok_leave:
  assumes "q_ok z" "i < length (z_callers z)" "z_callers z ! i = (msg, p)"
  shows "q_ok (z\<lparr>z_q := release msg (z_q z), z_callers := without i (z_callers z)\<rparr>)"
proof -
  obtain a b where ab: "z_callers z = a @ (msg, p) # b" "without i (z_callers z) = a @ b"
    using split_caller [OF assms(2,3)] .
  let ?z = "z\<lparr>z_q := release msg (z_q z), z_callers := a @ b\<rparr>"
  have hand: "in_hand ?z = in_hand z" by (simp add: in_hand_def)
  have "fits (admitted ?z)"
    using assms(1) fits_part by (auto simp: q_ok_def admitted_def hand ab(1) split: if_splits)
  then show ?thesis using assms(1) unfolding ab(2) by (auto simp: q_ok_def hand ab(1))
qed

lemma q_ok_send:
  assumes "q_ok z" "i < length (z_callers z)" "z_callers z ! i = (msg, p)" "\<not> over_bytes p msg" "length (q_out (z_q z)) < queueMessages"
  shows "q_ok (z\<lparr>z_q := (z_q z)\<lparr>q_out := q_out (z_q z) @ [msg]\<rparr>, z_callers := without i (z_callers z), z_accepted := z_accepted z @ [msg]\<rparr>)"
proof -
  obtain a b where ab: "z_callers z = a @ (msg, p) # b" "without i (z_callers z) = a @ b"
    using split_caller [OF assms(2,3)] .
  let ?z = "z\<lparr>z_q := (z_q z)\<lparr>q_out := q_out (z_q z) @ [msg]\<rparr>, z_callers := a @ b, z_accepted := z_accepted z @ [msg]\<rparr>"
  have hand: "in_hand ?z = in_hand z @ [msg]" by (simp add: in_hand_def)
  have "fits (admitted z)" using assms(1) by (simp add: q_ok_def)
  then have "fits (admitted ?z)"
    by (rule fits_perm) (use assms(4) in \<open>simp add: admitted_def hand ab(1)\<close>)
  then show ?thesis using assms(1,5) unfolding ab(2) by (auto simp: q_ok_def hand ab(1))
qed

lemma q_ok_step: "q_step z z' \<Longrightarrow> q_ok z \<Longrightarrow> q_ok z'"
proof (induction rule: q_step.induct)
  case (receive z msg msgs)
  then show ?case by (auto simp: q_ok_def admitted_def in_hand_def)
next
  case (written z msg)
  then have "fits (map fst (filter (\<lambda>(m, p). \<not> over_bytes p m) (z_callers z)) @ q_out (z_q z))"
    by (auto simp: q_ok_def admitted_def in_hand_def dest: fits_part)
  then show ?case using written by (auto simp: q_ok_def admitted_def in_hand_def)
next
  case (failed z msg)
  then have "fits (map fst (filter (\<lambda>(m, p). \<not> over_bytes p m) (z_callers z)) @ q_out (z_q z))"
    by (auto simp: q_ok_def admitted_def in_hand_def dest: fits_part)
  then show ?case using failed by (auto simp: q_ok_def admitted_def in_hand_def conn_close_def intro!: exI [of _ "[msg]"])
next
  case (close z)
  then show ?case by (auto simp: q_ok_def admitted_def in_hand_def conn_close_def)
next
  case (stop z)
  then show ?case by (auto simp: q_ok_def admitted_def in_hand_def)
qed (use q_ok_add q_ok_leave q_ok_send in blast)+

lemma q_ok_reach: "q_reach z \<Longrightarrow> q_ok z"
proof (induction rule: q_reach.induct)
  case init
  show ?case by (simp add: q_ok_def q_init_def in_hand_def admitted_def fits_def new_queue_def queueBytes_def)
qed (use q_ok_step in blast)

text \<open>C8: The queue of a client stays within its limits however its users are interleaved: at most
  \<^verbatim>\<open>queueMessages\<close> messages wait, what waits and is being written is at most \<^verbatim>\<open>queueBytes\<close> bytes or
  else a single message, and the counter is exact whenever no goroutine is inside \<open>enqueue\<close>: no byte is
  leaked on any of its error paths.\<close>

theorem queue_bounded:
  assumes "q_reach z"
  shows "length (q_out (z_q z)) \<le> queueMessages \<and>
    (bytes (in_hand z) \<le> queueBytes \<or> length (filter (\<lambda>m. m \<noteq> []) (in_hand z)) = 1) \<and>
    q_pending (z_q z) \<ge> bytes (in_hand z) \<and>
    (z_callers z = [] \<longrightarrow> q_pending (z_q z) = bytes (in_hand z))"
proof -
  have ok: "q_ok z" using assms by (rule q_ok_reach)
  then have "fits (admitted z)" by (simp add: q_ok_def)
  then have few: "bytes (in_hand z) \<le> queueBytes \<or> length (filter (\<lambda>m. m \<noteq> []) (in_hand z)) \<le> 1"
    by (auto simp: fits_def admitted_def)
  have "bytes (in_hand z) \<le> queueBytes \<or> length (filter (\<lambda>m. m \<noteq> []) (in_hand z)) = 1"
  proof (cases "filter (\<lambda>m. m \<noteq> []) (in_hand z) = []")
    case True
    then have "concat (in_hand z) = []" by (simp add: filter_empty_conv)
    then have "bytes (in_hand z) = 0" by (simp only: list.size of_nat_0)
    moreover have "0 \<le> queueBytes" by (simp add: queueBytes_def)
    ultimately show ?thesis by (metis ord_eq_le_trans)
  next
    case False
    then show ?thesis using few by (cases "filter (\<lambda>m. m \<noteq> []) (in_hand z)") auto
  qed
  then show ?thesis using ok by (simp add: q_ok_def)
qed

text \<open>C12: What a client receives is what was accepted for it, in order: while its connection is alive
  the messages written, the one being written and those waiting are exactly the accepted ones; after a
  failed write the client has received all that was accepted before it.\<close>

theorem queue_fifo:
  assumes "q_reach z"
  shows "(z_alive z \<longrightarrow> z_accepted z = z_wire z @ in_hand z) \<and>
    (\<exists>lost. z_accepted z = z_wire z @ lost @ in_hand z \<and> length lost \<le> 1)"
  using q_ok_reach [OF assms] by (auto simp: q_ok_def)

text \<open>A run with a message on the wire, one waiting and a goroutine about to send a third.\<close>

definition q_demo :: QSys where
  "q_demo = \<lparr>z_q = \<lparr>q_out = [''b''], q_pending = 3, q_done = False\<rparr>, z_callers = [(''c'', 3)], z_writing = Some ''a'',
     z_alive = True, z_wire = [], z_accepted = [''a'', ''b'']\<rparr>"

lemma q_demo_reach: "q_reach q_demo"
proof -
  let ?z = "\<lambda>out n cs w acc. \<lparr>z_q = \<lparr>q_out = out, q_pending = n, q_done = False\<rparr>, z_callers = cs, z_writing = w,
    z_alive = True, z_wire = [], z_accepted = acc\<rparr>"
  have add: "q_reach (?z out n cs w acc) \<Longrightarrow> q_reach (?z out (n + int (length m)) (cs @ [(m, n + int (length m))]) w acc)" for out n cs w acc m
    using q_reach.step [OF _ q_step.add [of m "?z out n cs w acc"]] by (simp add: pending_Add_def)
  have send: "q_reach (?z out n ((m, p) # cs) w acc) \<Longrightarrow> p \<le> queueBytes \<Longrightarrow> length out < queueMessages \<Longrightarrow>
      q_reach (?z (out @ [m]) n cs w (acc @ [m]))" for out n cs w acc m p
    using q_reach.step [OF _ q_step.send [of 0 "?z out n ((m, p) # cs) w acc" m p]] by (simp add: over_bytes_def)
  have "q_reach (?z [] 0 [] None [])" using q_reach.init by (simp add: q_init_def new_queue_def)
  from add [OF this, of "''a''"] have "q_reach (?z [] 1 [(''a'', 1)] None [])" by simp
  from send [OF this] have "q_reach (?z [''a''] 1 [] None [''a''])" by (simp add: queueBytes_def queueMessages_def)
  then have "q_reach (?z [] 1 [] (Some ''a'') [''a''])"
    using q_reach.step [OF _ q_step.receive [of "?z [''a''] 1 [] None [''a'']"]] by simp
  from add [OF this, of "''b''"] have "q_reach (?z [] 2 [(''b'', 2)] (Some ''a'') [''a''])" by simp
  from send [OF this] have "q_reach (?z [''b''] 2 [] (Some ''a'') [''a'', ''b''])" by (simp add: queueBytes_def queueMessages_def)
  from add [OF this, of "''c''"] show ?thesis by (simp add: q_demo_def)
qed

theorem queue_bounded_witness: "bytes (in_hand q_demo) \<le> queueBytes \<or> length (filter (\<lambda>m. m \<noteq> []) (in_hand q_demo)) = 1"
  using queue_bounded [OF q_demo_reach] by blast

theorem queue_fifo_witness: "z_accepted q_demo = z_wire q_demo @ in_hand q_demo"
  using queue_fifo [OF q_demo_reach] by (simp add: q_demo_def)

text \<open>One call of \<open>enqueue\<close> on its own is a run of the system.\<close>

lemma enqueue_runs:
  assumes "z_callers z = []" "enqueue pick msg (z_q z) = (er, q)"
  shows "\<exists>z'. q_step\<^sup>*\<^sup>* z z' \<and> z_q z' = q \<and> z_callers z' = [] \<and> z_wire z' = z_wire z \<and> z_writing z' = z_writing z \<and>
    z_accepted z' = z_accepted z @ (if er = None then [msg] else [])"
proof -
  define p q1 where "p = q_pending (z_q z) + int (length msg)" and "q1 = snd (pending_Add (int (length msg)) (z_q z))"
  define z1 where "z1 = z\<lparr>z_q := q1, z_callers := [(msg, p)]\<rparr>"
  have Add: "pending_Add (int (length msg)) (z_q z) = (p, q1)" by (simp add: p_def q1_def prod_eq_iff)
  have 1: "q_step z z1" using q_step.add [OF Add] assms(1) by (simp add: z1_def)
  have at: "0 < length (z_callers z1)" "z_callers z1 ! 0 = (msg, p)" by (simp_all add: z1_def)
  consider (send) "er = None" "q = q1\<lparr>q_out := q_out q1 @ [msg]\<rparr>" "\<not> over_bytes p msg" "length (q_out q1) < queueMessages"
    | (leave) "er \<noteq> None" "q = release msg q1" "over_bytes p msg \<or> q_done q1 \<or> queueMessages \<le> length (q_out q1)"
    using assms(2) unfolding enqueue_def Add by (auto split: if_splits)
  then have "\<exists>z2. q_step z1 z2 \<and> z_q z2 = q \<and> z_callers z2 = [] \<and> z_wire z2 = z_wire z \<and> z_writing z2 = z_writing z \<and>
      z_accepted z2 = z_accepted z @ (if er = None then [msg] else [])"
  proof cases
    case send
    then show ?thesis using q_step.send [OF at] by (auto simp: z1_def)
  next
    case leave
    then have "q_step z1 (z1\<lparr>z_q := release msg (z_q z1), z_callers := without 0 (z_callers z1)\<rparr>)"
      using q_step.over [OF at] q_step.closed [OF at] q_step.full [OF at]
      by (cases "over_bytes p msg"; cases "q_done q1") (auto simp: z1_def)
    then show ?thesis using leave by (auto simp: z1_def)
  qed
  then obtain z2 where "q_step z1 z2" and z2: "z_q z2 = q" "z_callers z2 = []" "z_wire z2 = z_wire z" "z_writing z2 = z_writing z"
      "z_accepted z2 = z_accepted z @ (if er = None then [msg] else [])" by blast
  then have "q_step\<^sup>*\<^sup>* z z2" using 1 by (meson converse_rtranclp_into_rtranclp r_into_rtranclp)
  with z2 show ?thesis by blast
qed

end
