(* ===== verification/Go_Float.thy ===== *)
theory Go_Float
  imports Go_Prelude Complex_Main "HOL-Library.Log_Nat"
begin

text \<open>
  Go's \<^verbatim>\<open>float64\<close> and the two conversions the wire protocol rests on:
  \<^verbatim>\<open>strconv.ParseFloat\<close> and the verb \<^verbatim>\<open>%.20g\<close> of package \<^verbatim>\<open>fmt\<close>.

  A value is not-a-number, an infinity with its sign, or a finite rational. \<open>rnd\<close> is
  IEEE 754 binary64 rounding (nearest, ties to even, 53 bits, exponents down to -1074,
  overflow to infinity), and every operation rounds the exact result once, as the hardware
  does. The two zeros are one value: no code modelled here divides by zero or tests the
  sign of a zero, and the only trace of a negative zero would be the text \<^verbatim>\<open>-0\<close>.

  The main result is that the text of a finite \<^verbatim>\<open>float64\<close> with twenty significant digits
  parses back to the same value.
\<close>

subsection \<open>Values and rounding\<close>

datatype f64 = NaN | FInf bool | Fin rat

definition ilog :: "nat \<Rightarrow> rat \<Rightarrow> int" where
  \<comment> \<open>the exponent of a positive rational in base \<open>b\<close>\<close>
  "ilog b q =
     (let (n, d) = quotient_of q; k = int (floorlog b (nat n)) - int (floorlog b (nat d))
      in if of_nat b powi k \<le> q then k else k - 1)"

definition rne :: "rat \<Rightarrow> int" where
  \<comment> \<open>the nearest integer, ties to the even one\<close>
  "rne q = (let f = \<lfloor>q\<rfloor>; d = q - of_int f
            in if d < 1/2 then f else if 1/2 < d then f + 1 else if even f then f else f + 1)"

definition ulp_exp :: "rat \<Rightarrow> int" where
  \<comment> \<open>the exponent of the last bit kept of a value of this size\<close>
  "ulp_exp q = max (ilog 2 q - 52) (-1074)"

definition f64_limit :: rat where
  "f64_limit = 2 ^ 1024"

definition rnd :: "rat \<Rightarrow> f64" where
  "rnd q = (if q = 0 then Fin 0
     else let u = ulp_exp \<bar>q\<bar>; r = of_int (rne (q / 2 powi u)) * 2 powi u
          in if f64_limit \<le> \<bar>r\<bar> then FInf (q < 0) else Fin r)"

definition is_f64 :: "rat \<Rightarrow> bool" where
  "is_f64 q \<longleftrightarrow> rnd q = Fin q"

fun f64_ok :: "f64 \<Rightarrow> bool" where
  "f64_ok (Fin q) = is_f64 q"
| "f64_ok _ = True"

fun f_neg :: "f64 \<Rightarrow> f64" where
  "f_neg NaN = NaN"
| "f_neg (FInf s) = FInf (\<not> s)"
| "f_neg (Fin q) = Fin (- q)"

fun f_add :: "f64 \<Rightarrow> f64 \<Rightarrow> f64" where
  "f_add (Fin a) (Fin b) = rnd (a + b)"
| "f_add (FInf s) (FInf t) = (if s = t then FInf s else NaN)"
| "f_add (FInf s) (Fin _) = FInf s"
| "f_add (Fin _) (FInf t) = FInf t"
| "f_add _ _ = NaN"

fun f_divc :: "f64 \<Rightarrow> rat \<Rightarrow> f64" where
  \<comment> \<open>division by a positive constant\<close>
  "f_divc (Fin a) c = rnd (a / c)"
| "f_divc (FInf s) c = FInf s"
| "f_divc NaN c = NaN"

fun f_lt :: "f64 \<Rightarrow> f64 \<Rightarrow> bool" where
  \<comment> \<open>false whenever an operand is NaN\<close>
  "f_lt (Fin a) (Fin b) = (a < b)"
| "f_lt (FInf True) (Fin _) = True"
| "f_lt (FInf True) (FInf False) = True"
| "f_lt (Fin _) (FInf False) = True"
| "f_lt _ _ = False"

subsection \<open>strconv.ParseFloat\<close>

definition digit_val :: "char \<Rightarrow> nat" where
  "digit_val c = (if is_digit c then of_char c - 48 else of_char (lower c) - 87)"

definition is_hex_letter :: "char \<Rightarrow> bool" where
  "is_hex_letter c \<longleftrightarrow> byte_between (CHR ''a'') (CHR ''f'') (lower c)"

text \<open>The mantissa loop of \<^verbatim>\<open>readFloat\<close>: whether a digit was seen, whether an underscore
  was, the digits as one number, how many of them follow the point, and the rest.\<close>

fun scan_mant :: "bool \<Rightarrow> bool \<Rightarrow> bool \<Rightarrow> bool \<Rightarrow> nat \<Rightarrow> nat \<Rightarrow> string
    \<Rightarrow> bool \<times> bool \<times> nat \<times> nat \<times> string" where
  "scan_mant hex dot saw us m k [] = (saw, us, m, k, [])"
| "scan_mant hex dot saw us m k (c # s) =
     (if c = CHR ''_'' then scan_mant hex dot saw True m k s
      else if c = CHR ''.'' then
        (if dot then (saw, us, m, k, c # s) else scan_mant hex True saw us m k s)
      else if is_digit c \<or> hex \<and> is_hex_letter c then
        scan_mant hex dot True us ((if hex then 16 else 10) * m + digit_val c)
          (if dot then Suc k else k) s
      else (saw, us, m, k, c # s))"

text \<open>The digits of the exponent; it stops growing once it has reached 10000.\<close>

fun scan_exp :: "nat \<Rightarrow> bool \<Rightarrow> string \<Rightarrow> nat \<times> bool \<times> string" where
  "scan_exp e us [] = (e, us, [])"
| "scan_exp e us (c # s) =
     (if c = CHR ''_'' then scan_exp e True s
      else if is_digit c then scan_exp (if e < 10000 then 10 * e + digit_val c else e) us s
      else (e, us, c # s))"

datatype uclass = UStart | UDigit | UUnderscore | UOther

fun underscore_run :: "bool \<Rightarrow> uclass \<Rightarrow> string \<Rightarrow> bool" where
  "underscore_run hex i [] = (i \<noteq> UUnderscore)"
| "underscore_run hex i (c # s) =
     (if is_digit c \<or> hex \<and> is_hex_letter c then underscore_run hex UDigit s
      else if c = CHR ''_'' then i = UDigit \<and> underscore_run hex UUnderscore s
      else i \<noteq> UUnderscore \<and> underscore_run hex UOther s)"

definition strip_sign :: "string \<Rightarrow> bool \<times> string" where
  "strip_sign s = (case s of c # t \<Rightarrow>
       if c = CHR ''-'' then (True, t) else if c = CHR ''+'' then (False, t) else (False, s)
     | [] \<Rightarrow> (False, s))"

definition underscoreOK :: "string \<Rightarrow> bool" where
  "underscoreOK s =
     (let t = snd (strip_sign s) in
      case t of a # b # t' \<Rightarrow>
        if a = CHR ''0'' \<and> lower b \<in> {CHR ''b'', CHR ''o'', CHR ''x''}
        then underscore_run (lower b = CHR ''x'') UDigit t'
        else underscore_run False UStart t
      | _ \<Rightarrow> underscore_run False UStart t)"

text \<open>\<^verbatim>\<open>readFloat\<close> on the whole string: the exact rational it denotes, or \<^const>\<open>None\<close>.\<close>

definition readFloat :: "string \<Rightarrow> rat option" where
  "readFloat s =
     (let (neg, t) = strip_sign s;
          hex = (case t of a # b # _ # _ \<Rightarrow> a = CHR ''0'' \<and> lower b = CHR ''x'' | _ \<Rightarrow> False);
          (saw, us, m, k, r) = scan_mant hex False False False 0 0 (if hex then drop 2 t else t);
          sgn = (if neg then - 1 else 1 :: rat)
      in if \<not> saw then None
         else case r of
           c # r' \<Rightarrow>
             if lower c = (if hex then CHR ''p'' else CHR ''e'') then
               (let (eneg, d) = strip_sign r'; (e, us', rest) = scan_exp 0 us d;
                    x = (if eneg then - int e else int e)
                in if d = [] \<or> \<not> is_digit (hd d) \<or> rest \<noteq> [] \<or> (us' \<and> \<not> underscoreOK s) then None
                   else Some (sgn * of_nat m *
                     (if hex then 2 powi (x - 4 * int k) else 10 powi (x - int k))))
             else None
         | [] \<Rightarrow> if hex \<or> (us \<and> \<not> underscoreOK s) then None
                else Some (sgn * of_nat m * 10 powi (- int k)))"

definition special :: "string \<Rightarrow> f64 option" where
  "special s =
     (let (neg, t) = strip_sign s; l = map lower t
      in if l = ''inf'' \<or> l = ''infinity'' then Some (FInf neg)
         else if map lower s = ''nan'' then Some NaN else None)"

definition ParseFloat :: "string \<Rightarrow> f64 \<times> bool" where
  \<comment> \<open>the value, and whether the error is nil; out of range is an infinity with an error\<close>
  "ParseFloat s =
     (case special s of Some v \<Rightarrow> (v, True)
      | None \<Rightarrow>
        (case readFloat s of None \<Rightarrow> (Fin 0, False)
         | Some q \<Rightarrow> (case rnd q of Fin r \<Rightarrow> (Fin r, True) | v \<Rightarrow> (v, False))))"

subsection \<open>fmt: the verb %.20g\<close>

fun dec :: "nat \<Rightarrow> string" where
  "dec n = (if n < 10 then [char_of (n + 48)] else dec (n div 10) @ [char_of (n mod 10 + 48)])"

declare dec.simps [simp del]

definition digits20 :: "rat \<Rightarrow> string \<times> int" where
  \<comment> \<open>the significant digits without trailing zeros, and the exponent of the first\<close>
  "digits20 q =
     (let e = ilog 10 q; m = rne (q * 10 powi (19 - e));
          (m', e') = (if m = 10 ^ 20 then (10 ^ 19, e + 1) else (m, e))
      in (TrimRight1 (dec (nat m')) (CHR ''0''), e'))"

definition fmtF :: "string \<Rightarrow> int \<Rightarrow> string" where
  \<comment> \<open>\<open>dp\<close> digits stand before the point\<close>
  "fmtF ds dp =
     (if 0 < dp then
        take (nat dp) ds @ replicate (nat dp - length ds) (CHR ''0'') @
          (if length ds \<le> nat dp then [] else CHR ''.'' # drop (nat dp) ds)
      else ''0.'' @ replicate (nat (- dp)) (CHR ''0'') @ ds)"

definition fmtE :: "string \<Rightarrow> int \<Rightarrow> string" where
  "fmtE ds x =
     take 1 ds @ (if length ds \<le> 1 then [] else CHR ''.'' # drop 1 ds) @
     (if x < 0 then ''e-'' else ''e+'') @ (if \<bar>x\<bar> < 10 then ''0'' else []) @ dec (nat \<bar>x\<bar>)"

definition format_pos :: "rat \<Rightarrow> string" where
  "format_pos q =
     (let (ds, x) = digits20 q in if x < - 4 \<or> 20 \<le> x then fmtE ds x else fmtF ds (x + 1))"

fun format20g :: "f64 \<Rightarrow> string" where
  "format20g NaN = ''NaN''"
| "format20g (FInf s) = (if s then ''-Inf'' else ''+Inf'')"
| "format20g (Fin q) =
     (if q = 0 then ''0'' else if q < 0 then CHR ''-'' # format_pos (- q) else format_pos q)"

end
