(* ===== verification/Float_Roundtrip.thy ===== *)
theory Float_Roundtrip
  imports Go_Float
begin

text \<open>
  Rounding and printing: \<open>rnd\<close> is idempotent and odd, and \<^const>\<open>ParseFloat\<close> inverts
  \<^const>\<open>format20g\<close> on every finite binary64 value.
\<close>

subsection \<open>Exponents\<close>

lemma ilog_bounds:
  assumes q: "0 < q" and b: "1 < b"
  shows "of_nat b powi ilog b q \<le> q" "q < of_nat b powi (ilog b q + 1)"
proof -
  obtain n d where nd: "quotient_of q = (n, d)" by fastforce
  have d: "0 < d" using nd by (rule quotient_of_denom_pos)
  have qe: "q = of_int n / of_int d" using nd by (rule quotient_of_div)
  have n: "0 < n" using q d unfolding qe by (simp add: zero_less_divide_iff)
  define ln where "ln = floorlog b (nat n)"
  define ld where "ld = floorlog b (nat d)"
  have B: "(0 :: rat) < of_nat b" "(1 :: rat) \<le> of_nat b" using b by auto
  have ln: "b ^ (ln - 1) \<le> nat n \<and> nat n < b ^ ln" and ld: "b ^ (ld - 1) \<le> nat d \<and> nat d < b ^ ld"
    using floorlog_bounds n d b unfolding ln_def ld_def by auto
  have pos: "0 < ln" "0 < ld"
    using ln ld n d by (auto intro!: Nat.gr0I)
  have cast: "of_nat (b ^ k) = (of_nat b :: rat) powi int k" for k by simp
  have N: "of_nat b powi (int ln - 1) \<le> (of_int n :: rat)" "of_int n < (of_nat b :: rat) powi int ln"
  proof -
    have "of_nat (b ^ (ln - 1)) \<le> (of_nat (nat n) :: rat)" "of_nat (nat n) < (of_nat (b ^ ln) :: rat)"
      using ln by (auto simp only: of_nat_le_iff of_nat_less_iff)
    then show "of_nat b powi (int ln - 1) \<le> (of_int n :: rat)"
      "of_int n < (of_nat b :: rat) powi int ln"
      using n pos unfolding cast by (simp_all add: of_nat_diff)
  qed
  have D: "of_nat b powi (int ld - 1) \<le> (of_int d :: rat)" "of_int d < (of_nat b :: rat) powi int ld"
  proof -
    have "of_nat (b ^ (ld - 1)) \<le> (of_nat (nat d) :: rat)" "of_nat (nat d) < (of_nat (b ^ ld) :: rat)"
      using ld by (auto simp only: of_nat_le_iff of_nat_less_iff)
    then show "of_nat b powi (int ld - 1) \<le> (of_int d :: rat)"
      "of_int d < (of_nat b :: rat) powi int ld"
      using d pos unfolding cast by (simp_all add: of_nat_diff)
  qed
  define k where "k = int ln - int ld"
  have P: "0 < (of_nat b :: rat) powi x" for x using B by (simp add: zero_less_power_int)
  have lo: "of_nat b powi (k - 1) \<le> q"
  proof -
    have "of_nat b powi (k - 1) = of_nat b powi (int ln - 1) / (of_nat b :: rat) powi int ld"
      using B by (subst power_int_diff [symmetric]) (auto simp: k_def algebra_simps)
    also have "\<dots> \<le> of_int n / of_int d"
      using N(1) D(2) d n P by (intro frac_le) (auto intro: less_imp_le)
    finally show ?thesis by (simp add: qe)
  qed
  have hi: "q < of_nat b powi (k + 1)"
  proof -
    have "of_int n / of_int d < of_nat b powi int ln / (of_nat b :: rat) powi (int ld - 1)"
      using N D d n P by (intro frac_less) (auto intro: less_imp_le)
    also have "\<dots> = of_nat b powi (k + 1)"
      using B by (subst power_int_diff [symmetric]) (auto simp: k_def algebra_simps)
    finally show ?thesis by (simp add: qe)
  qed
  have "ilog b q = (if of_nat b powi k \<le> q then k else k - 1)"
    by (simp add: ilog_def nd k_def ln_def ld_def Let_def)
  then show "of_nat b powi ilog b q \<le> q" "q < of_nat b powi (ilog b q + 1)"
    using lo hi by (auto split: if_splits)
qed

lemma ilog_unique:
  assumes "0 < q" "1 < b" "of_nat b powi e \<le> q" "q < of_nat b powi (e + 1)"
  shows "ilog b q = e"
proof -
  have B: "(1 :: rat) < of_nat b" using assms(2) by simp
  note I = ilog_bounds [OF assms(1,2)]
  have "e < ilog b q + 1"
    using B order_le_less_trans [OF assms(3) I(2)] by (meson less_imp_le linorder_not_less power_int_increasing)
  moreover have "ilog b q < e + 1"
    using B order_le_less_trans [OF I(1) assms(4)] by (meson less_imp_le linorder_not_less power_int_increasing)
  ultimately show ?thesis by simp
qed

lemma pow2_pos [simp]: "0 < (2 :: rat) powi k"
  by (simp add: zero_less_power_int)

lemma pow10_pos [simp]: "0 < (10 :: rat) powi k"
  by (simp add: zero_less_power_int)

lemma pow2_split: "a \<le> b \<Longrightarrow> (2 :: rat) powi b = 2 ^ nat (b - a) * 2 powi a"
  by (simp add: power_int_nonneg_exp [symmetric] flip: power_int_add)

lemma ilog2_bounds:
  assumes "0 < q" shows "2 powi ilog 2 q \<le> q" "q < 2 powi (ilog 2 q + 1)"
  using ilog_bounds [OF assms, of 2] by simp_all

lemma ilog10_bounds:
  assumes "0 < q" shows "10 powi ilog 10 q \<le> q" "q < 10 powi (ilog 10 q + 1)"
  using ilog_bounds [OF assms, of 10] by simp_all

subsection \<open>Rounding to an integer\<close>

lemma rne_near: "\<bar>t - of_int m\<bar> < 1/2 \<Longrightarrow> rne t = m"
proof -
  assume a: "\<bar>t - of_int m\<bar> < 1/2"
  consider "of_int m \<le> t" "\<lfloor>t\<rfloor> = m" | "t < of_int m" "\<lfloor>t\<rfloor> = m - 1"
    using a by (cases "of_int m \<le> t") (auto simp: floor_eq_iff abs_less_iff)
  then show ?thesis
    by cases (use a in \<open>auto simp: rne_def Let_def abs_less_iff\<close>)
qed

lemma rne_close: "\<bar>t - of_int (rne t)\<bar> \<le> 1/2"
proof -
  have "of_int \<lfloor>t\<rfloor> \<le> t" "t < of_int \<lfloor>t\<rfloor> + 1" by linarith+
  then show ?thesis by (auto simp: rne_def Let_def abs_le_iff)
qed

lemma rne_of_int [simp]: "rne (of_int m) = m"
  by (rule rne_near) simp

lemma rne_minus: "rne (- t) = - rne t"
proof (cases "t - of_int \<lfloor>t\<rfloor> = 1/2")
  case True
  have t: "t = of_int \<lfloor>t\<rfloor> + 1/2" using True by simp
  have "\<lfloor>- t\<rfloor> = - \<lfloor>t\<rfloor> - 1"
    using True by (subst t) (simp add: floor_eq_iff)
  then show ?thesis using True by (auto simp: rne_def Let_def)
next
  case False
  have c: "\<bar>t - of_int (rne t)\<bar> < 1/2"
  proof -
    have "of_int \<lfloor>t\<rfloor> \<le> t" "t < of_int \<lfloor>t\<rfloor> + 1" by linarith+
    then show ?thesis using False by (auto simp: rne_def Let_def abs_less_iff)
  qed
  then show ?thesis by (intro rne_near) (simp add: abs_minus_commute)
qed

lemma rne_mono_int: "of_int a \<le> t \<Longrightarrow> a \<le> rne t"
proof -
  assume "of_int a \<le> t"
  then have "a \<le> \<lfloor>t\<rfloor>" by (simp add: le_floor_iff)
  then show ?thesis by (auto simp: rne_def Let_def)
qed

lemma rne_le_int: "t \<le> of_int a \<Longrightarrow> rne t \<le> a"
  using rne_mono_int [of "- a" "- t"] by (simp add: rne_minus)

subsection \<open>Rounding to binary64\<close>

lemma rnd_0 [simp]: "rnd 0 = Fin 0"
  by (simp add: rnd_def)

lemma rnd_minus: "rnd (- q) = f_neg (rnd q)"
  by (auto simp: rnd_def Let_def rne_minus)

lemma is_f64_minus [simp]: "is_f64 (- q) = is_f64 q"
  by (cases "rnd q") (auto simp: is_f64_def rnd_minus)

lemma is_f64_iff:
  assumes "0 < q"
  shows "is_f64 q \<longleftrightarrow> (\<exists>m. q = of_int m * 2 powi ulp_exp q) \<and> q < f64_limit"
proof
  define r where "r = of_int (rne (q / 2 powi ulp_exp q)) * (2 :: rat) powi ulp_exp q"
  assume "is_f64 q"
  moreover have "rnd q = (if f64_limit \<le> \<bar>r\<bar> then FInf (q < 0) else Fin r)"
    using assms by (simp add: rnd_def Let_def r_def)
  ultimately have "(if f64_limit \<le> \<bar>r\<bar> then FInf (q < 0) else Fin r) = Fin q"
    by (simp add: is_f64_def)
  then have "r = q" "\<not> f64_limit \<le> \<bar>q\<bar>" by (auto split: if_splits)
  then show "(\<exists>m. q = of_int m * 2 powi ulp_exp q) \<and> q < f64_limit"
    using assms unfolding r_def by (metis abs_of_pos not_le)
next
  assume a: "(\<exists>m. q = of_int m * 2 powi ulp_exp q) \<and> q < f64_limit"
  then obtain m where m: "q = of_int m * 2 powi ulp_exp q" by blast
  then have "q / 2 powi ulp_exp q = of_int m" by (simp add: field_simps)
  then have "rne (q / 2 powi ulp_exp q) = m" by simp
  with a assms m show "is_f64 q" by (auto simp: is_f64_def rnd_def Let_def)
qed

text \<open>A value close to a binary64 value rounds to it: closer than \<open>2 ^ -56\<close> of its size.\<close>

lemma rnd_near:
  assumes x: "0 < x" "is_f64 x" and y: "0 < y" and c: "\<bar>y - x\<bar> \<le> x * 2 powi (- 60)"
  shows "rnd y = Fin x"
proof -
  define e where "e = ilog 2 x"
  define u where "u = ulp_exp x"
  define v where "v = ulp_exp y"
  obtain m where m: "x = of_int m * 2 powi u" and big: "x < f64_limit"
    using x is_f64_iff unfolding u_def by blast
  have xe: "2 powi e \<le> x" "x < 2 powi (e + 1)" using ilog2_bounds x(1) unfolding e_def by auto
  have ye: "2 powi ilog 2 y \<le> y" "y < 2 powi (ilog 2 y + 1)" using ilog2_bounds y by auto
  have u: "u = max (e - 52) (-1074)" by (simp add: u_def ulp_exp_def e_def)
  have v: "v = max (ilog 2 y - 52) (-1074)" by (simp add: v_def ulp_exp_def)
  have d: "\<bar>y - x\<bar> < 2 powi (e - 59)"
  proof -
    have "x * 2 powi (- 60) < 2 powi (e + 1) * 2 powi (- 60)"
      using xe(2) by (intro mult_strict_right_mono) auto
    also have "\<dots> = 2 powi (e - 59)" by (subst power_int_add [symmetric]) simp_all
    finally show ?thesis using c by linarith
  qed
  have mono: "a \<le> b \<Longrightarrow> (2 :: rat) powi a \<le> 2 powi b" for a b
    by (simp add: power_int_increasing)
  have ue: "u \<le> e + 1"
  proof -
    have "0 < m" using zero_less_mult_pos2 [OF x(1) [unfolded m] pow2_pos] by simp
    then have "(1 :: rat) \<le> of_int m" by simp
    then have "1 * 2 powi u \<le> of_int m * (2 :: rat) powi u" by (intro mult_right_mono) auto
    then have "2 powi u < (2 :: rat) powi (e + 1)" using xe(2) unfolding m by linarith
    then show ?thesis using mono [of "e + 1" u] by linarith
  qed
  have not_above: "ilog 2 y \<le> e"
  proof (rule ccontr)
    assume "\<not> ilog 2 y \<le> e"
    then have "2 powi (e + 1) \<le> y" using ye(1) mono [of "e + 1" "ilog 2 y"] by linarith
    moreover have "x + 2 powi u \<le> 2 powi (e + 1)"
    proof -
      have "(2 :: rat) powi (e + 1) = of_int (2 ^ nat (e + 1 - u)) * 2 powi u"
        using pow2_split [OF ue] by simp
      moreover from this have "m < 2 ^ nat (e + 1 - u)"
        using xe(2) unfolding m by (metis mult_less_cancel_right_pos of_int_less_iff pow2_pos)
      then have "of_int (m + 1) \<le> (of_int (2 ^ nat (e + 1 - u)) :: rat)"
        unfolding of_int_le_iff by simp
      then have "of_int (m + 1) * 2 powi u \<le> of_int (2 ^ nat (e + 1 - u)) * (2 :: rat) powi u"
        by (intro mult_right_mono) (auto intro: less_imp_le)
      ultimately show ?thesis by (simp add: m algebra_simps)
    qed
    moreover have "(2 :: rat) powi (e - 59) \<le> 2 powi u" using u by (intro mono) simp
    ultimately show False using d by linarith
  qed
  have near_below: "e - 1 \<le> ilog 2 y"
  proof -
    have "(2 :: rat) powi (e - 59) \<le> 2 powi (e - 1)" by (intro mono) simp
    moreover have "(2 :: rat) powi e = 2 * 2 powi (e - 1)" by (simp add: power_int_diff)
    ultimately have "(2 :: rat) powi (e - 1) < 2 powi (ilog 2 y + 1)"
      using d xe(1) ye(2) by linarith
    then show ?thesis using mono [of "ilog 2 y + 1" "e - 1"] by linarith
  qed
  have uv: "v \<le> u" "e - 59 \<le> v - 6" using u v not_above near_below by auto
  have x2: "x / 2 powi v = of_int (m * 2 ^ nat (u - v))"
  proof -
    note pow2_split [OF uv(1)]
    then show ?thesis by (simp add: m field_simps)
  qed
  have "\<bar>y / 2 powi v - of_int (m * 2 ^ nat (u - v))\<bar> < 1/2"
  proof -
    have "\<bar>y / 2 powi v - x / 2 powi v\<bar> = \<bar>y - x\<bar> / 2 powi v"
      by (simp add: diff_divide_distrib [symmetric] abs_divide)
    also have "\<dots> < 2 powi (e - 59) / 2 powi v"
      using d by (intro divide_strict_right_mono) auto
    also have "\<dots> = 2 powi (e - 59 - v)" by (simp add: power_int_diff)
    also have "\<dots> \<le> 2 powi (- 6)" using uv(2) by (intro mono) simp
    also have "\<dots> < 1/2" by simp
    finally show ?thesis unfolding x2 .
  qed
  then have "rne (y / 2 powi v) = m * 2 ^ nat (u - v)" by (rule rne_near)
  then have r: "of_int (rne (y / 2 powi v)) * 2 powi v = x"
    using x2 by (simp add: field_simps)
  show ?thesis
    using y big x(1) r by (simp add: rnd_def Let_def flip: v_def)
qed

lemma rnd_result_ok_pos:
  assumes q: "0 < q" and r: "rnd q = Fin r"
  shows "is_f64 r"
proof -
  define e where "e = ilog 2 q"
  define u where "u = ulp_exp q"
  define m where "m = rne (q / 2 powi u)"
  have rm: "r = of_int m * 2 powi u" and lim: "\<bar>r\<bar> < f64_limit"
    using q r by (auto simp: rnd_def Let_def u_def m_def split: if_splits)
  have e: "q < 2 powi (e + 1)" using ilog2_bounds q unfolding e_def by auto
  have u: "u = max (e - 52) (-1074)" by (simp add: u_def ulp_exp_def e_def)
  have m0: "0 \<le> m" unfolding m_def using q by (intro rne_mono_int) simp
  show ?thesis
  proof (cases "m = 0")
    case True
    then show ?thesis by (simp add: rm is_f64_def)
  next
    case False
    have ue: "u \<le> e + 1"
    proof (rule ccontr)
      assume "\<not> u \<le> e + 1"
      then have "2 powi (e + 1) \<le> (2 :: rat) powi (u - 1)" by (intro power_int_increasing) auto
      with e have "q / 2 powi u < 1/2" by (simp add: power_int_diff field_simps)
      then have "rne (q / 2 powi u) = 0" using q by (intro rne_near) simp
      with False show False by (simp add: m_def)
    qed
    define n where "n = nat (e + 1 - u)"
    have top: "(2 :: rat) powi (e + 1) = of_int (2 ^ n) * 2 powi u"
      using pow2_split [OF ue] by (simp add: n_def)
    have "q / 2 powi u \<le> of_int (2 ^ n)" using e unfolding top by (simp add: field_simps)
    then have mn: "m \<le> 2 ^ n" unfolding m_def by (rule rne_le_int)
    have r0: "0 < r" using False m0 by (simp add: rm)
    have "(\<exists>k. r = of_int k * 2 powi ulp_exp r)"
    proof (cases "m = 2 ^ n")
      case True
      then have re: "r = 2 powi (e + 1)" using rm top by simp
      have "ilog 2 r = e + 1" unfolding re
        by (rule ilog_unique) (simp_all add: power_int_strict_increasing)
      then have "ulp_exp r \<le> e + 1" using ue u by (simp add: ulp_exp_def)
      then have "r = of_int (2 ^ nat (e + 1 - ulp_exp r)) * 2 powi ulp_exp r"
        using pow2_split [of "ulp_exp r" "e + 1"] re by simp
      then show ?thesis by blast
    next
      case False
      with mn have "m < 2 ^ n" by simp
      then have "(of_int m :: rat) < of_int (2 ^ n)" by (simp only: of_int_less_iff)
      then have "r < 2 powi (e + 1)" unfolding rm top by (intro mult_strict_right_mono) auto
      then have "2 powi ilog 2 r < (2 :: rat) powi (e + 1)"
        using ilog2_bounds(1) [OF r0] by linarith
      then have "ilog 2 r < e + 1" using power_int_increasing [of "e + 1" "ilog 2 r" "2 :: rat"] by force
      then have "ulp_exp r \<le> u" by (simp add: ulp_exp_def u)
      then have "r = of_int (m * 2 ^ nat (u - ulp_exp r)) * 2 powi ulp_exp r"
        using pow2_split [of "ulp_exp r" u] by (subst rm) simp
      then show ?thesis by blast
    qed
    then show ?thesis using is_f64_iff [OF r0] lim by auto
  qed
qed

text \<open>Rounding always gives a binary64 value.\<close>

lemma f64_ok_rnd: "f64_ok (rnd q)"
proof (cases "rnd q")
  case (Fin r)
  consider "q = 0" | "0 < q" | "q < 0" by linarith
  then have "is_f64 r"
  proof cases
    case 1
    then show ?thesis using Fin by (simp add: is_f64_def)
  next
    case 2
    then show ?thesis using Fin by (rule rnd_result_ok_pos)
  next
    case 3
    then have "is_f64 (- r)" using Fin by (intro rnd_result_ok_pos [of "- q"]) (simp_all add: rnd_minus)
    then show ?thesis by simp
  qed
  then show ?thesis by (simp add: Fin)
qed simp_all

lemma f64_ok_ops [simp]:
  "f64_ok (Fin 0)" "f64_ok v \<Longrightarrow> f64_ok (f_neg v)" "f64_ok (f_add v w)" "f64_ok v \<Longrightarrow> f64_ok (f_divc v c)"
proof -
  show "f64_ok (Fin 0)" by (simp add: is_f64_def)
  show "f64_ok v \<Longrightarrow> f64_ok (f_neg v)" by (cases v) auto
  show "f64_ok (f_add v w)" by (cases "(v, w)" rule: f_add.cases) (auto simp: f64_ok_rnd)
  show "f64_ok v \<Longrightarrow> f64_ok (f_divc v c)" by (cases v) (auto simp: f64_ok_rnd)
qed

lemma f64_ok_ParseFloat: "f64_ok (fst (ParseFloat s))"
proof -
  have "special s = Some v \<Longrightarrow> f64_ok v" for v
    by (auto simp: special_def Let_def split: prod.splits if_splits)
  moreover have "rnd q = Fin r \<Longrightarrow> is_f64 r" for q r using f64_ok_rnd [of q] by simp
  moreover have "is_f64 0" by (simp add: is_f64_def)
  ultimately show ?thesis
    by (auto simp: ParseFloat_def split: option.splits f64.splits)
qed

subsection \<open>Digit strings\<close>

definition val10 :: "string \<Rightarrow> nat" where
  "val10 s = foldl (\<lambda>a c. 10 * a + digit_val c) 0 s"

abbreviation digits :: "string \<Rightarrow> bool" where
  "digits s \<equiv> list_all is_digit s"

lemma foldl_val10: "foldl (\<lambda>a c. 10 * a + digit_val c) a s = a * 10 ^ length s + val10 s"
proof (induction s arbitrary: a)
  case (Cons c s)
  have "val10 (c # s) = digit_val c * 10 ^ length s + val10 s"
    unfolding val10_def [of "c # s"] using Cons.IH [of "digit_val c"] by simp
  then show ?case using Cons.IH [of "10 * a + digit_val c"] by (simp add: distrib_right)
qed (simp add: val10_def)

lemma val10_append: "val10 (s @ t) = val10 s * 10 ^ length t + val10 t"
proof -
  have "val10 (s @ t) = foldl (\<lambda>a c. 10 * a + digit_val c) (val10 s) t"
    by (simp add: val10_def)
  then show ?thesis by (simp only: foldl_val10)
qed

lemma val10_Cons: "val10 (c # s) = digit_val c * 10 ^ length s + val10 s"
  using val10_append [of "[c]" s] by (simp add: val10_def)

lemma val10_Nil [simp]: "val10 [] = 0"
  by (simp add: val10_def)

lemma val10_zeros [simp]: "val10 (replicate n (CHR ''0'')) = 0"
  by (induction n) (auto simp: val10_Cons digit_val_def is_digit_def byte_between_def)

lemma digits_zeros [simp]: "digits (replicate n (CHR ''0''))"
  by (induction n) (auto simp: is_digit_def byte_between_def)

lemma of_char_digit: "n < 10 \<Longrightarrow> (of_char (char_of (n + 48 :: nat)) :: nat) = n + 48"
  by (simp add: of_char_of)

lemma digit_char: "n < 10 \<Longrightarrow> is_digit (char_of (n + 48 :: nat)) \<and> digit_val (char_of (n + 48 :: nat)) = n"
  by (simp add: is_digit_def byte_between_def digit_val_def of_char_digit)

lemma dec_digits: "digits (dec n) \<and> dec n \<noteq> []"
proof (induction n rule: dec.induct)
  case (1 n)
  then show ?case
    by (subst dec.simps, subst (2) dec.simps) (auto simp: digit_char)
qed

lemma val10_dec [simp]: "val10 (dec n) = n"
proof (induction n rule: dec.induct)
  case (1 n)
  then show ?case
    by (subst dec.simps) (auto simp: digit_char val10_append val10_Cons)
qed

lemma length_dec: "10 ^ k \<le> n \<Longrightarrow> n < 10 ^ Suc k \<Longrightarrow> length (dec n) = Suc k"
proof (induction k arbitrary: n)
  case 0
  then show ?case by (subst dec.simps) simp
next
  case (Suc k)
  have "10 * 1 \<le> 10 * (10 :: nat) ^ k" by (intro mult_left_mono) auto
  then have "\<not> n < 10" using Suc.prems(1) by (simp only: power_Suc)
  moreover have "length (dec (n div 10)) = Suc k"
  proof (rule Suc.IH)
    show "10 ^ k \<le> n div 10" using div_le_mono [OF Suc.prems(1), of 10] by simp
    show "n div 10 < 10 ^ Suc k" using Suc.prems(2) by (intro less_mult_imp_div_less) simp
  qed
  ultimately show ?case by (subst dec.simps) simp
qed

lemma TrimRight1_split: "\<exists>k. s = TrimRight1 s c @ replicate k c"
proof -
  have "rev s = takeWhile (\<lambda>x. x = c) (rev s) @ dropWhile (\<lambda>x. x = c) (rev s)" by simp
  moreover have "takeWhile (\<lambda>x. x = c) (rev s) = replicate (length (takeWhile (\<lambda>x. x = c) (rev s))) c"
    by (rule replicate_eqI [symmetric, THEN sym]) (auto dest: set_takeWhileD)
  ultimately have "s = rev (dropWhile (\<lambda>x. x = c) (rev s)) @ replicate (length (takeWhile (\<lambda>x. x = c) (rev s))) c"
    by (metis rev_append rev_replicate rev_rev_ident)
  then show ?thesis unfolding TrimRight1_def by blast
qed

subsection \<open>Reading what was printed\<close>

lemma digit_not_special:
  "is_digit c \<Longrightarrow> c \<noteq> CHR ''_'' \<and> c \<noteq> CHR ''.'' \<and> c \<noteq> CHR ''-'' \<and> c \<noteq> CHR ''+'' \<and>
     lower c = c \<and> c \<noteq> CHR ''e'' \<and> c \<noteq> CHR ''i'' \<and> c \<noteq> CHR ''n'' \<and> c \<noteq> CHR ''x''"
  by (auto simp: is_digit_def byte_between_def lower_def)

lemma scan_mant_digits:
  assumes "digits ds"
  shows "scan_mant False dot saw us m k (ds @ r) =
    scan_mant False dot (saw \<or> ds \<noteq> []) us (m * 10 ^ length ds + val10 ds)
      (if dot then k + length ds else k) r"
  using assms
proof (induction ds arbitrary: saw m k)
  case (Cons c ds)
  then show ?case
    using digit_not_special [of c] by (simp add: val10_Cons algebra_simps)
qed simp

definition mant_text :: "string \<Rightarrow> string \<Rightarrow> string" where
  "mant_text I F = I @ (if F = [] then [] else CHR ''.'' # F)"

lemma scan_mant_text:
  assumes "digits I" "I \<noteq> []" "digits F" "r = [] \<or> hd r = CHR ''e''"
  shows "scan_mant False False False False 0 0 (mant_text I F @ r) =
    (True, False, val10 (I @ F), length F, r)"
proof -
  have stop: "scan_mant False dot True False m k r = (True, False, m, k, r)" for dot m k
    using assms(4) by (cases r) (auto simp: is_digit_def byte_between_def)
  show ?thesis
    using assms by (auto simp: mant_text_def scan_mant_digits val10_append stop)
qed

lemma scan_exp_digits:
  assumes "digits ds" "e * 10 ^ length ds + val10 ds < 100000"
  shows "scan_exp e us ds = (e * 10 ^ length ds + val10 ds, us, [])"
  using assms
proof (induction ds arbitrary: e)
  case (Cons c ds)
  have "e * 10 \<le> e * 10 ^ length (c # ds)" by simp
  then have "e < 10000" using Cons.prems(2) by linarith
  then show ?case
    using Cons digit_not_special [of c] by (simp add: val10_Cons algebra_simps)
qed simp

text \<open>A printed number has a digit first and no letter but the exponent's.\<close>

definition plain_number :: "string \<Rightarrow> bool" where
  "plain_number t \<longleftrightarrow> t \<noteq> [] \<and> is_digit (hd t) \<and> CHR ''x'' \<notin> set (map lower t)"

lemma readFloat_plain:
  assumes "s = (if neg then CHR ''-'' # t else t)" "plain_number t"
    "scan_mant False False False False 0 0 t = (True, False, m, k, r)"
    "r = [] \<and> x = 0 \<or> (\<exists>d. r = CHR ''e'' # (if x < 0 then CHR ''-'' else CHR ''+'') # d \<and>
        digits d \<and> d \<noteq> [] \<and> val10 d = nat \<bar>x\<bar> \<and> nat \<bar>x\<bar> < 100000)"
  shows "readFloat s = Some ((if neg then - 1 else 1) * of_nat m * 10 powi (x - int k))"
proof -
  have sgn: "strip_sign s = (neg, t)"
    using assms(1,2) digit_not_special [of "hd t"]
    by (cases t) (auto simp: strip_sign_def plain_number_def)
  have hex: "(case t of a # b # _ # _ \<Rightarrow> a = CHR ''0'' \<and> lower b = CHR ''x'' | _ \<Rightarrow> False) = False"
    using assms(2) by (auto simp: plain_number_def split: list.splits)
  have le: "lower (CHR ''e'') = CHR ''e''" by (simp add: lower_def byte_between_def)
  show ?thesis
    using assms(4)
  proof
    assume "r = [] \<and> x = 0"
    then show ?thesis by (simp add: readFloat_def sgn hex assms(3))
  next
    assume "\<exists>d. r = CHR ''e'' # (if x < 0 then CHR ''-'' else CHR ''+'') # d \<and>
        digits d \<and> d \<noteq> [] \<and> val10 d = nat \<bar>x\<bar> \<and> nat \<bar>x\<bar> < 100000"
    then obtain d where r: "r = CHR ''e'' # (if x < 0 then CHR ''-'' else CHR ''+'') # d"
      and d: "digits d" "d \<noteq> []" "val10 d = nat \<bar>x\<bar>" "nat \<bar>x\<bar> < 100000" by blast
    have "is_digit (hd d)" using d by (cases d) auto
    moreover have "scan_exp 0 False d = (nat \<bar>x\<bar>, False, [])"
      using d by (subst scan_exp_digits) auto
    moreover have "strip_sign ((if x < 0 then CHR ''-'' else CHR ''+'') # d) = (x < 0, d)"
      by (simp add: strip_sign_def)
    ultimately show ?thesis
      using d(2) by (simp add: readFloat_def sgn hex assms(3) r le)
  qed
qed

lemma lower_number_chars [simp]:
  "lower (CHR ''.'') = CHR ''.''" "lower (CHR ''e'') = CHR ''e''" "lower (CHR ''+'') = CHR ''+''"
  "lower (CHR ''-'') = CHR ''-''"
  by (simp_all add: lower_def byte_between_def)

lemma zero_digit [simp]: "is_digit (CHR ''0'')" "digit_val (CHR ''0'') = 0"
  by (simp_all add: digit_val_def is_digit_def byte_between_def)

lemma digits_no_x: "digits ds \<Longrightarrow> CHR ''x'' \<notin> lower ` set ds"
proof
  assume "digits ds" "CHR ''x'' \<in> lower ` set ds"
  then obtain c where "is_digit c" "lower c = CHR ''x''" by (auto simp: list_all_iff)
  then show False using digit_not_special [of c] by simp
qed

lemma digits_parts: "digits ds \<Longrightarrow> digits (take n ds) \<and> digits (drop n ds)"
  by (auto simp: list_all_iff dest: in_set_takeD in_set_dropD)

lemma fmtF_text:
  assumes "digits ds" "ds \<noteq> []"
  obtains I F where "fmtF ds dp = mant_text I F" "digits I" "I \<noteq> []" "digits F"
    "of_nat (val10 (I @ F)) * 10 powi (- int (length F)) =
       (of_nat (val10 ds) * 10 powi (dp - int (length ds)) :: rat)"
proof (cases "0 < dp")
  case False
  show ?thesis
  proof (rule that [of "''0''" "replicate (nat (- dp)) (CHR ''0'') @ ds"])
    show "fmtF ds dp = mant_text ''0'' (replicate (nat (- dp)) (CHR ''0'') @ ds)"
      using False assms(2) by (simp add: fmtF_def mant_text_def)
  qed (use False assms in \<open>simp_all add: val10_append val10_Cons\<close>)
next
  case dp: True
  define I where "I = take (nat dp) ds @ replicate (nat dp - length ds) (CHR ''0'')"
  have I: "digits I" "I \<noteq> []" using assms dp digits_parts by (auto simp: I_def)
  have F: "fmtF ds dp = mant_text I (drop (nat dp) ds)" "digits (drop (nat dp) ds)"
    using assms dp digits_parts by (auto simp: fmtF_def mant_text_def I_def)
  show ?thesis
  proof (rule that [OF F(1) I F(2)])
    show "of_nat (val10 (I @ drop (nat dp) ds)) * 10 powi (- int (length (drop (nat dp) ds))) =
       (of_nat (val10 ds) * 10 powi (dp - int (length ds)) :: rat)"
    proof (cases "length ds \<le> nat dp")
      case True
      then have "nat (dp - int (length ds)) = nat dp - length ds" "0 \<le> dp - int (length ds)"
        using dp by linarith+
      with True show ?thesis by (simp add: I_def val10_append power_int_nonneg_exp)
    next
      case False
      then show ?thesis
        using dp by (simp add: I_def of_nat_diff)
    qed
  qed
qed

lemma plain_mant_text:
  assumes "digits I" "I \<noteq> []" "digits F" "CHR ''x'' \<notin> lower ` set r"
  shows "plain_number (mant_text I F @ r)"
proof -
  have "is_digit (hd I)" using assms(1,2) by (cases I) auto
  then show ?thesis
    using assms digits_no_x [of I] digits_no_x [of F]
    by (auto simp: plain_number_def mant_text_def hd_append)
qed

lemma readFloat_fmtF:
  assumes "digits ds" "ds \<noteq> []"
  shows "plain_number (fmtF ds dp) \<and>
    readFloat (if neg then CHR ''-'' # fmtF ds dp else fmtF ds dp) =
      Some ((if neg then - 1 else 1) * (of_nat (val10 ds) * 10 powi (dp - int (length ds))))"
proof -
  obtain I F where f: "fmtF ds dp = mant_text I F" and IF: "digits I" "I \<noteq> []" "digits F"
    and v: "of_nat (val10 (I @ F)) * 10 powi (- int (length F)) =
       (of_nat (val10 ds) * 10 powi (dp - int (length ds)) :: rat)"
    using fmtF_text [OF assms] by blast
  have p: "plain_number (fmtF ds dp)" using plain_mant_text [OF IF, of "[]"] f by simp
  have "readFloat (if neg then CHR ''-'' # fmtF ds dp else fmtF ds dp) =
      Some ((if neg then - 1 else 1) * of_nat (val10 (I @ F)) * 10 powi (0 - int (length F)))"
    using scan_mant_text [OF IF, of "[]"] f
    by (intro readFloat_plain [OF refl p, where r = "[]"]) simp_all
  with p v show ?thesis by (simp add: mult.assoc)
qed

lemma readFloat_fmtE:
  assumes "digits ds" "ds \<noteq> []" "\<bar>x\<bar> < 100000"
  shows "plain_number (fmtE ds x) \<and>
    readFloat (if neg then CHR ''-'' # fmtE ds x else fmtE ds x) =
      Some ((if neg then - 1 else 1) * (of_nat (val10 ds) * 10 powi (x + 1 - int (length ds))))"
proof -
  define d where "d = (if \<bar>x\<bar> < 10 then ''0'' else []) @ dec (nat \<bar>x\<bar>)"
  define r where "r = CHR ''e'' # (if x < 0 then CHR ''-'' else CHR ''+'') # d"
  have I: "digits (take 1 ds)" "take 1 ds \<noteq> []" "digits (drop 1 ds)"
    using assms digits_parts by auto
  have d: "digits d" "d \<noteq> []" "val10 d = nat \<bar>x\<bar>"
    using dec_digits by (auto simp: d_def val10_append val10_Cons)
  have f: "fmtE ds x = mant_text (take 1 ds) (drop 1 ds) @ r"
    by (simp add: fmtE_def mant_text_def r_def d_def)
  have "CHR ''x'' \<notin> lower ` set r"
    using digits_no_x [OF d(1)] by (auto simp: r_def)
  then have p: "plain_number (fmtE ds x)" unfolding f by (rule plain_mant_text [OF I])
  have "readFloat (if neg then CHR ''-'' # fmtE ds x else fmtE ds x) =
      Some ((if neg then - 1 else 1) * of_nat (val10 (take 1 ds @ drop 1 ds)) *
        10 powi (x - int (length (drop 1 ds))))"
  proof (rule readFloat_plain [OF refl p])
    show "scan_mant False False False False 0 0 (fmtE ds x) =
        (True, False, val10 (take 1 ds @ drop 1 ds), length (drop 1 ds), r)"
      unfolding f by (rule scan_mant_text [OF I]) (simp add: r_def)
  qed (use d assms(3) in \<open>auto simp: r_def\<close>)
  moreover have "int (length (drop 1 ds)) = int (length ds) - 1"
    using assms(2) by (cases ds) auto
  ultimately show ?thesis using p by (simp add: mult.assoc algebra_simps)
qed

subsection \<open>Twenty digits are enough\<close>

lemma is_f64_range:
  assumes "0 < q" "is_f64 q"
  shows "10 powi (- 400) < q" "q < 10 powi 400"
proof -
  define u where "u = ulp_exp q"
  obtain m where m: "q = of_int m * 2 powi u" and big: "q < f64_limit"
    using assms is_f64_iff unfolding u_def by blast
  have "0 < m" using zero_less_mult_pos2 [OF assms(1) [unfolded m] pow2_pos] by simp
  then have "1 * 2 powi u \<le> of_int m * (2 :: rat) powi u" by (intro mult_right_mono) auto
  then have "2 powi u \<le> q" unfolding m by simp
  moreover have "(2 :: rat) powi (- 1074) \<le> 2 powi u"
    by (rule power_int_increasing) (auto simp: u_def ulp_exp_def)
  moreover have "(10 :: rat) powi (- 400) < 2 powi (- 1074)" by simp
  ultimately show "10 powi (- 400) < q" by (blast intro: less_le_trans)
  have "f64_limit < 10 powi 400" by (simp add: f64_limit_def)
  with big show "q < 10 powi 400" by (rule less_trans)
qed

lemma digits20_spec:
  assumes "0 < q" "digits20 q = (ds, x)"
  shows "digits ds" "ds \<noteq> []"
    "\<bar>of_nat (val10 ds) * 10 powi (x + 1 - int (length ds)) - q\<bar> \<le> q * 2 powi (- 60)"
    "ilog 10 q \<le> x" "x \<le> ilog 10 q + 1" "length ds \<le> 20"
proof -
  define e where "e = ilog 10 q"
  define t where "t = q * 10 powi (19 - e)"
  define M where "M = rne t"
  define m where "m = (if M = 10 ^ 20 then 10 ^ 19 else M)"
  have e: "10 powi e \<le> q" "q < 10 powi (e + 1)" using ilog10_bounds assms(1) unfolding e_def by auto
  have "10 powi e * 10 powi (19 - e) \<le> t" "t < 10 powi (e + 1) * 10 powi (19 - e)"
    unfolding t_def using e by (auto intro!: mult_right_mono mult_strict_right_mono)
  then have "10 ^ 19 \<le> t" "t < 10 ^ 20" by (simp_all flip: power_int_add)
  then have M: "10 ^ 19 \<le> M" "M \<le> 10 ^ 20"
    using rne_mono_int [of "10 ^ 19" t] rne_le_int [of t "10 ^ 20"] by (auto simp: M_def)
  then have m: "10 ^ 19 \<le> m" "m < 10 ^ 20" by (auto simp: m_def)
  have dsx: "ds = TrimRight1 (dec (nat m)) (CHR ''0'')" "x = (if M = 10 ^ 20 then e + 1 else e)"
    using assms(2) by (auto simp: digits20_def Let_def m_def M_def t_def e_def split: if_splits)
  then show "ilog 10 q \<le> x" "x \<le> ilog 10 q + 1" by (auto simp: e_def)
  obtain k where k: "dec (nat m) = ds @ replicate k (CHR ''0'')"
    using TrimRight1_split [of "dec (nat m)" "CHR ''0''"] dsx(1) by auto
  have len: "length (dec (nat m)) = Suc 19" using m by (intro length_dec) auto
  show "digits ds" using dec_digits [of "nat m"] unfolding k by simp
  have val: "nat m = val10 ds * 10 ^ k"
    using val10_dec [of "nat m"] unfolding k by (simp add: val10_append)
  then show "ds \<noteq> []" using m by auto
  have lk: "int (length ds) = 20 - int k" using len unfolding k by simp
  then show "length ds \<le> 20" by simp
  have "of_int m = (of_nat (nat m) :: rat)" using m by simp
  then have mv: "of_int m = of_nat (val10 ds) * (10 :: rat) powi int k"
    by (simp add: val)
  have "of_nat (val10 ds) * 10 powi (x + 1 - int (length ds)) = of_int m * (10 :: rat) powi (x - 19)"
  proof -
    have e: "x + 1 - (20 - int k) = int k + (x - 19)" by simp
    show ?thesis unfolding lk mv mult.assoc e by (subst power_int_add) simp_all
  qed
  also have "\<dots> = of_int M * 10 powi (e - 19)"
  proof -
    have "(10 :: rat) powi (e - 18) = 10 * 10 powi (e - 19)"
      using power_int_add_1' [of "10 :: rat" "e - 19"] by simp
    then show ?thesis unfolding m_def dsx(2) by simp
  qed
  finally have y: "of_nat (val10 ds) * 10 powi (x + 1 - int (length ds)) =
      of_int M * (10 :: rat) powi (e - 19)" .
  have tq: "t * 10 powi (e - 19) = q"
    unfolding t_def by (simp add: mult.assoc flip: power_int_add)
  have "\<bar>of_int M * 10 powi (e - 19) - q\<bar> = \<bar>t - of_int M\<bar> * 10 powi (e - 19)"
    unfolding tq [symmetric]
    by (simp add: abs_mult abs_minus_commute [of t] flip: left_diff_distrib)
  also have "\<dots> \<le> 1/2 * 10 powi (e - 19)"
    using rne_close [of t] by (intro mult_right_mono) (auto simp: M_def)
  also have "\<dots> = 10 powi e * (1/2 * 10 powi (- 19))"
    by (subst power_int_diff) simp_all
  also have "\<dots> \<le> q * (1/2 * 10 powi (- 19))" using e(1) by (intro mult_right_mono) auto
  also have "\<dots> \<le> q * 2 powi (- 60)" using assms(1) by (intro mult_left_mono) auto
  finally show "\<bar>of_nat (val10 ds) * 10 powi (x + 1 - int (length ds)) - q\<bar> \<le> q * 2 powi (- 60)"
    unfolding y .
qed

lemma digits20_exponent:
  assumes "0 < q" "is_f64 q" "digits20 q = (ds, x)" shows "\<bar>x\<bar> < 1000"
proof -
  note r = is_f64_range [OF assms(1,2)] and e = ilog10_bounds [OF assms(1)]
  have mono: "a \<le> b \<Longrightarrow> (10 :: rat) powi a \<le> 10 powi b" for a b by (simp add: power_int_increasing)
  have "\<not> 400 \<le> ilog 10 q" using mono [of 400 "ilog 10 q"] r(2) e(1) by (meson leD order_trans)
  moreover have "\<not> ilog 10 q + 1 \<le> - 400"
    using mono [of "ilog 10 q + 1" "- 400"] r(1) e(2) by (meson less_le_trans less_asym)
  ultimately show ?thesis using digits20_spec(4,5) [OF assms(1,3)] by linarith
qed

lemma readFloat_format_pos:
  assumes q: "0 < q" "is_f64 q"
  obtains y where "plain_number (format_pos q)" "0 < y" "rnd y = Fin q"
    "readFloat (format_pos q) = Some y" "readFloat (CHR ''-'' # format_pos q) = Some (- y)"
proof -
  obtain ds x where dx: "digits20 q = (ds, x)" by fastforce
  note D = digits20_spec [OF q(1) dx]
  define y where "y = of_nat (val10 ds) * (10 :: rat) powi (x + 1 - int (length ds))"
  have near: "\<bar>y - q\<bar> \<le> q * 2 powi (- 60)" using D(3) by (simp add: y_def)
  moreover have "q * 2 powi (- 60) < q" using q(1) by simp
  ultimately have pos: "0 < y" by linarith
  have x: "\<bar>x\<bar> < 100000" using digits20_exponent [OF q dx] by linarith
  have f: "format_pos q = (if x < - 4 \<or> 20 \<le> x then fmtE ds x else fmtF ds (x + 1))"
    by (simp add: format_pos_def dx)
  show ?thesis
  proof (rule that [OF _ pos])
    show "rnd y = Fin q" by (rule rnd_near [OF q pos near])
    show "plain_number (format_pos q)"
      using readFloat_fmtE [OF D(1,2) x] readFloat_fmtF [OF D(1,2)] by (simp add: f)
    show "readFloat (format_pos q) = Some y" "readFloat (CHR ''-'' # format_pos q) = Some (- y)"
      using readFloat_fmtE [OF D(1,2) x, of False] readFloat_fmtE [OF D(1,2) x, of True]
        readFloat_fmtF [OF D(1,2), of "x + 1" False] readFloat_fmtF [OF D(1,2), of "x + 1" True]
      by (simp_all add: f y_def)
  qed
qed

lemma special_plain: "plain_number t \<Longrightarrow> special t = None \<and> special (CHR ''-'' # t) = None"
proof -
  assume "plain_number t"
  then obtain c u where t: "t = c # u" and c: "is_digit c" by (cases t) (auto simp: plain_number_def)
  show ?thesis
    using digit_not_special [OF c] by (auto simp: special_def strip_sign_def t)
qed

lemma ParseFloat_0: "ParseFloat ''0'' = (Fin 0, True)"
  by code_simp

text \<open>Every \<^verbatim>\<open>float64\<close>, infinities and NaN included, survives printing and parsing.\<close>

lemma ParseFloat_format20g:
  assumes "f64_ok v" shows "ParseFloat (format20g v) = (v, True)"
proof (cases v)
  case NaN
  then show ?thesis by simp code_simp
next
  case (FInf s)
  have "ParseFloat ''-Inf'' = (FInf True, True)" "ParseFloat ''+Inf'' = (FInf False, True)"
    by code_simp+
  then show ?thesis using FInf by (cases s) simp_all
next
  case (Fin q)
  then have ok: "is_f64 q" using assms by simp
  consider "q = 0" | "0 < q" | "q < 0" by linarith
  then show ?thesis
  proof cases
    case 1
    then show ?thesis by (simp add: Fin ParseFloat_0)
  next
    case 2
    obtain y where "plain_number (format_pos q)" "rnd y = Fin q" "readFloat (format_pos q) = Some y"
      using readFloat_format_pos [OF 2 ok] by blast
    then show ?thesis using 2 by (simp add: Fin ParseFloat_def special_plain)
  next
    case 3
    then have n: "0 < - q" "is_f64 (- q)" using ok by auto
    obtain y where "plain_number (format_pos (- q))" "rnd y = Fin (- q)"
      "readFloat (CHR ''-'' # format_pos (- q)) = Some (- y)"
      using readFloat_format_pos [OF n] by blast
    then show ?thesis using 3 by (simp add: Fin ParseFloat_def special_plain rnd_minus)
  qed
qed

subsection \<open>The printed text\<close>

text \<open>A printed number is short and made of a few bytes that need no escape and no trimming.\<close>

definition number_char :: "char \<Rightarrow> bool" where
  "number_char c \<longleftrightarrow> is_digit c \<or> c \<in> set ''.-+eInfNa''"

lemma digits_number_char: "digits s \<Longrightarrow> list_all number_char s"
  by (auto simp: list_all_iff number_char_def)

lemma list_all_parts: "list_all P s \<Longrightarrow> list_all P (take n s) \<and> list_all P (drop n s)"
  by (auto simp: list_all_iff dest: in_set_takeD in_set_dropD)

lemma fmt_number_char:
  assumes "digits ds" shows "list_all number_char (fmtF ds dp)" "list_all number_char (fmtE ds x)"
proof -
  note d = digits_number_char [OF assms]
  have z: "list_all number_char (replicate n (CHR ''0''))" for n
    by (rule digits_number_char) simp
  show "list_all number_char (fmtF ds dp)"
    using list_all_parts [OF d] d z by (auto simp: fmtF_def number_char_def)
  show "list_all number_char (fmtE ds x)"
    using list_all_parts [OF d] digits_number_char dec_digits [of "nat \<bar>x\<bar>"]
    by (auto simp: fmtE_def number_char_def)
qed

lemma length_dec_le: "n < 10 ^ Suc k \<Longrightarrow> length (dec n) \<le> Suc k"
proof (induction k arbitrary: n)
  case 0
  then show ?case by (subst dec.simps) simp
next
  case (Suc k)
  show ?case
  proof (cases "n < 10 ^ Suc k")
    case True
    then show ?thesis using Suc.IH [of n] by simp
  next
    case False
    then show ?thesis using length_dec [of "Suc k" n] Suc.prems by simp
  qed
qed

lemma length_format_pos:
  assumes "0 < q" "is_f64 q" shows "length (format_pos q) \<le> 60"
proof -
  obtain ds x where dx: "digits20 q = (ds, x)" by fastforce
  note n = digits20_spec(6) [OF assms(1) dx]
  have "nat \<bar>x\<bar> < 10 ^ Suc 2" using digits20_exponent [OF assms dx] by simp
  then have "length (dec (nat \<bar>x\<bar>)) \<le> 3" using length_dec_le [of "nat \<bar>x\<bar>" 2] by simp
  then have "length (fmtE ds x) \<le> 60" using n by (auto simp: fmtE_def)
  moreover have "\<not> (x < - 4 \<or> 20 \<le> x) \<Longrightarrow> length (fmtF ds (x + 1)) \<le> 60" using n by (auto simp: fmtF_def)
  ultimately show ?thesis by (auto simp: format_pos_def dx)
qed

lemma format20g_text:
  assumes "f64_ok v"
  shows "list_all number_char (format20g v)" "length (format20g v) \<le> 61" "format20g v \<noteq> []"
proof -
  have pos: "list_all number_char (format_pos q) \<and> length (format_pos q) \<le> 60 \<and> format_pos q \<noteq> []"
    if "0 < q" "is_f64 q" for q
  proof -
    obtain ds x where dx: "digits20 q = (ds, x)" by fastforce
    have "list_all number_char (format_pos q)"
      using fmt_number_char [OF digits20_spec(1) [OF that(1) dx]] by (simp add: format_pos_def dx)
    moreover have "format_pos q \<noteq> []"
      using readFloat_format_pos [OF that] by (metis plain_number_def)
    ultimately show ?thesis using length_format_pos [OF that] by blast
  qed
  have "list_all number_char (format20g v) \<and> length (format20g v) \<le> 61 \<and> format20g v \<noteq> []"
  proof (cases v)
    case (Fin q)
    then show ?thesis
      using assms pos [of q] pos [of "- q"] by (cases "0 < q") (auto simp: number_char_def)
  qed (auto simp: number_char_def)
  then show "list_all number_char (format20g v)" "length (format20g v) \<le> 61" "format20g v \<noteq> []"
    by blast+
qed

end
