(* ===== verification/Wire_Types.thy ===== *)
theory Wire_Types
  imports Float_Roundtrip
begin

text \<open>
  The INDI vocabulary of \<^verbatim>\<open>internal/indiwire/types.go\<close>: states, permissions, switch rules,
  vector types and element kinds with their wire spellings, and the \<open>Member\<close> and \<open>Element\<close>
  structures the parser fills and the encoder reads. Go's zero value of each structure is
  \<open>zero_member\<close> and \<open>zero_element\<close>.
\<close>

datatype State = Idle | Ok | Busy | Alert

fun State_String :: "State \<Rightarrow> string" where
  "State_String Idle = ''Idle''"
| "State_String Ok = ''Ok''"
| "State_String Busy = ''Busy''"
| "State_String Alert = ''Alert''"

definition ParseState :: "string \<Rightarrow> State \<times> bool" where
  "ParseState s =
     (if s = ''Idle'' then (Idle, True) else if s = ''Ok'' then (Ok, True)
      else if s = ''Busy'' then (Busy, True) else if s = ''Alert'' then (Alert, True)
      else (Idle, False))"

datatype Perm = ReadOnly | WriteOnly | ReadWrite

fun Perm_String :: "Perm \<Rightarrow> string" where
  "Perm_String ReadOnly = ''ro''"
| "Perm_String WriteOnly = ''wo''"
| "Perm_String ReadWrite = ''rw''"

definition ParsePerm :: "string \<Rightarrow> Perm \<times> bool" where
  "ParsePerm s =
     (if s = ''ro'' then (ReadOnly, True) else if s = ''wo'' then (WriteOnly, True)
      else if s = ''rw'' then (ReadWrite, True) else (ReadOnly, False))"

datatype Rule = OneOfMany | AtMostOne | AnyOfMany

fun Rule_String :: "Rule \<Rightarrow> string" where
  "Rule_String OneOfMany = ''OneOfMany''"
| "Rule_String AtMostOne = ''AtMostOne''"
| "Rule_String AnyOfMany = ''AnyOfMany''"

definition ParseRule :: "string \<Rightarrow> Rule \<times> bool" where
  "ParseRule s =
     (if s = ''OneOfMany'' then (OneOfMany, True) else if s = ''AtMostOne'' then (AtMostOne, True)
      else if s = ''AnyOfMany'' then (AnyOfMany, True) else (OneOfMany, False))"

datatype VType = Number | Switch | Text | Light | BLOB

fun VType_String :: "VType \<Rightarrow> string" where
  "VType_String Number = ''Number''"
| "VType_String Switch = ''Switch''"
| "VType_String Text = ''Text''"
| "VType_String Light = ''Light''"
| "VType_String BLOB = ''BLOB''"

datatype Kind = KindInvalid | KindDef | KindSet | KindNew | KindMessage | KindDel
  | KindGetProps | KindPing | KindEnableBLOB | KindPingReply

record Member =
  m_Name :: string
  m_Label :: string
  m_Value :: f64
  m_Min :: f64
  m_Max :: f64
  m_Step :: f64
  m_HasRange :: bool
  m_Format :: string
  m_Text :: string
  m_On :: bool
  m_LightState :: State
  m_BlobFormat :: string
  m_Size :: int
  m_Attached :: bool
  m_Data :: "string option" \<comment> \<open>\<^const>\<open>None\<close> is the nil slice\<close>

record Element =
  e_Kind :: Kind
  e_Type :: VType
  e_Rule :: Rule
  e_Perm :: Perm
  e_State :: State
  e_Device :: string
  e_Name :: string
  e_Label :: string
  e_Group :: string
  e_Timestamp :: string
  e_Message :: string
  e_Members :: "Member list"

definition zero_member :: Member where
  "zero_member = \<lparr>m_Name = [], m_Label = [], m_Value = Fin 0, m_Min = Fin 0, m_Max = Fin 0,
     m_Step = Fin 0, m_HasRange = False, m_Format = [], m_Text = [], m_On = False,
     m_LightState = Idle, m_BlobFormat = [], m_Size = 0, m_Attached = False, m_Data = None\<rparr>"

definition zero_element :: Element where
  "zero_element = \<lparr>e_Kind = KindInvalid, e_Type = Number, e_Rule = OneOfMany, e_Perm = ReadOnly,
     e_State = Idle, e_Device = [], e_Name = [], e_Label = [], e_Group = [], e_Timestamp = [],
     e_Message = [], e_Members = []\<rparr>"

text \<open>Every number of a member is a binary64 value.\<close>

definition member_ok :: "Member \<Rightarrow> bool" where
  "member_ok m \<longleftrightarrow> f64_ok (m_Value m) \<and> f64_ok (m_Min m) \<and> f64_ok (m_Max m) \<and> f64_ok (m_Step m)"

lemma Parse_String [simp]:
  "ParseState (State_String st) = (st, True)"
  "ParsePerm (Perm_String p) = (p, True)"
  "ParseRule (Rule_String r) = (r, True)"
  by ((cases st; simp add: ParseState_def), (cases p; simp add: ParsePerm_def),
      (cases r; simp add: ParseRule_def))

lemma member_ok_zero [simp]: "member_ok zero_member"
  by (simp add: member_ok_def zero_member_def is_f64_def)

end
