(* ===== verification/Wire_Scan.thy ===== *)
theory Wire_Scan
  imports Wire_Types
begin

text \<open>
  The lexical half of \<^verbatim>\<open>internal/indiwire/parser.go\<close>: each scanner takes the bytes not yet
  read and returns what it recognised with the bytes left, or the error the Go method returns.
  Reading past the last byte is \<open>PRead\<close>, the error of the underlying \<^verbatim>\<open>io.Reader\<close>. How the
  bytes reach the scanners through the parser's growing buffer is the subject of
  \<open>Wire_Buffer\<close>; interning (\<^verbatim>\<open>Parser.get\<close>) returns an equal string and is the identity here.
\<close>

datatype perr =
    PRead
  | PTokenTooLong
  | PBetween char
  | PExpectedLt char
  | PSelfClose string
  | PExpected char char
  | PExpectedIdent char
  | PExpectedQuote char
  | PUnexpectedClose string string
  | PExpectedClose string string
  | POversizedEntity
  | PUnknownEntity string
  | PTooManyMembers string
  | PBlobTruncated nat
  | PBlobPadding
  | PBlobByte char
  | PPanicMakeSlice int \<comment> \<open>not an error value: the run-time panic of \<^verbatim>\<open>make\<close>\<close>

type_synonym 'a scan = "perr + 'a \<times> string"

definition maxToken :: nat where "maxToken = 1048576"

definition maxMembers :: nat where "maxMembers = 4096"

definition is_ws :: "char \<Rightarrow> bool" where
  "is_ws c \<longleftrightarrow> c = CHR '' '' \<or> c = TAB \<or> c = CR \<or> c = NL"

definition is_ident :: "char \<Rightarrow> bool" where
  "is_ident c \<longleftrightarrow> byte_between (CHR ''a'') (CHR ''z'') c \<or> byte_between (CHR ''A'') (CHR ''Z'') c \<or>
     byte_between (CHR ''0'') (CHR ''9'') c \<or> c = CHR ''-'' \<or> c = CHR ''_''"

definition next_byte :: "string \<Rightarrow> char scan" where
  "next_byte s = (case s of [] \<Rightarrow> Inl PRead | b # s' \<Rightarrow> Inr (b, s'))"

definition expect :: "char \<Rightarrow> string \<Rightarrow> perr + string" where
  "expect want s = (case s of [] \<Rightarrow> Inl PRead
     | b # s' \<Rightarrow> if b = want then Inr s' else Inl (PExpected want b))"

text \<open>The buffer holds at most \<^const>\<open>maxToken\<close> bytes, and an identifier must fit in it with
  the byte that ends it.\<close>

definition ident :: "string \<Rightarrow> string scan" where
  "ident s =
     (let n = takeWhile is_ident s; r = dropWhile is_ident s
      in if maxToken \<le> length n then Inl PTokenTooLong
         else case r of [] \<Rightarrow> Inl PRead
           | b # _ \<Rightarrow> if n = [] then Inl (PExpectedIdent b) else Inr (n, r))"

fun entity_name :: "string \<Rightarrow> string \<Rightarrow> string scan" where
  "entity_name acc [] = Inl PRead"
| "entity_name acc (b # s) =
     (if b = CHR '';'' then Inr (acc, s)
      else if length acc = 6 then Inl POversizedEntity
      else entity_name (acc @ [b]) s)"

definition entity :: "string \<Rightarrow> char scan" where
  "entity s = (case entity_name [] s of Inl e \<Rightarrow> Inl e
     | Inr (n, r) \<Rightarrow>
         if n = ''amp'' then Inr (CHR ''&'', r)
         else if n = ''lt'' then Inr (CHR ''<'', r)
         else if n = ''gt'' then Inr (CHR ''>'', r)
         else if n = ''quot'' then Inr (DQUOTE, r)
         else if n = ''apos'' then Inr (SQUOTE, r)
         else Inl (PUnknownEntity n))"

lemma entity_name_shrink: "entity_name acc s = Inr (n, r) \<Longrightarrow> length r < length s"
  by (induction acc s rule: entity_name.induct) (fastforce split: if_splits)+

lemma entity_shrink [shrink]: "entity s = Inr (c, r) \<Longrightarrow> length r < length s"
  by (auto simp: entity_def dest: entity_name_shrink split: sum.splits if_splits)

function quoted_body :: "char \<Rightarrow> string \<Rightarrow> string \<Rightarrow> string scan" where
  "quoted_body q acc s =
     (case s of [] \<Rightarrow> Inl PRead
      | b # s' \<Rightarrow>
          if b = q then Inr (acc, s')
          else (case (if b = CHR ''&'' then entity s' else Inr (b, s')) of Inl e \<Rightarrow> Inl e
            | Inr (c, r) \<Rightarrow>
                if maxToken < Suc (length acc) then Inl PTokenTooLong
                else quoted_body q (acc @ [c]) r))"
  by pat_completeness auto
termination
  by (relation "measure (\<lambda>(q, acc, s). length s)")
    (auto split: if_splits dest: entity_shrink)

declare quoted_body.simps [simp del]

definition quoted :: "string \<Rightarrow> string scan" where
  "quoted s = (case s of [] \<Rightarrow> Inl PRead
     | q # s' \<Rightarrow> if q \<noteq> SQUOTE \<and> q \<noteq> DQUOTE then Inl (PExpectedQuote q) else quoted_body q [] s')"

definition closeTag :: "string \<Rightarrow> string scan" where
  "closeTag s =
     (case expect (CHR ''<'') s of Inl e \<Rightarrow> Inl e
      | Inr s1 \<Rightarrow> (case expect (CHR ''/'') s1 of Inl e \<Rightarrow> Inl e
      | Inr s2 \<Rightarrow> (case ident s2 of Inl e \<Rightarrow> Inl e
      | Inr (n, s3) \<Rightarrow> (case expect (CHR ''>'') s3 of Inl e \<Rightarrow> Inl e
      | Inr s4 \<Rightarrow> Inr (n, s4)))))"

function text_body :: "string \<Rightarrow> string \<Rightarrow> string \<Rightarrow> string scan" where
  "text_body tag acc s =
     (case s of [] \<Rightarrow> Inl PRead
      | b # s' \<Rightarrow>
          if b = CHR ''<'' then
            (case closeTag s of Inl e \<Rightarrow> Inl e
             | Inr (n, r) \<Rightarrow> if n = tag then Inr (acc, r) else Inl (PExpectedClose tag n))
          else (case (if b = CHR ''&'' then entity s' else Inr (b, s')) of Inl e \<Rightarrow> Inl e
            | Inr (c, r) \<Rightarrow>
                if maxToken < Suc (length acc) then Inl PTokenTooLong
                else text_body tag (acc @ [c]) r))"
  by pat_completeness auto
termination
  by (relation "measure (\<lambda>(tag, acc, s). length s)")
    (auto split: if_splits dest: entity_shrink)

declare text_body.simps [simp del]

definition textUntilClose :: "string \<Rightarrow> string \<Rightarrow> string scan" where
  "textUntilClose tag s = text_body tag [] s"

lemma ident_shrink [shrink]: "ident s = Inr (n, r) \<Longrightarrow> length r < length s"
proof -
  assume a: "ident s = Inr (n, r)"
  then have "n = takeWhile is_ident s" "r = dropWhile is_ident s" "n \<noteq> []"
    by (auto simp: ident_def Let_def split: if_splits list.splits)
  then show ?thesis
    by (metis add.commute length_append length_greater_0_conv less_add_same_cancel1 takeWhile_dropWhile_id)
qed

lemma expect_shrink [shrink]: "expect c s = Inr r \<Longrightarrow> length r < length s"
  by (auto simp: expect_def split: list.splits if_splits)

lemma quoted_body_shrink: "quoted_body q acc s = Inr (v, r) \<Longrightarrow> length r < length s"
proof (induction q acc s rule: quoted_body.induct)
  case (1 q acc s)
  from "1.prems" show ?case
    by (subst (asm) quoted_body.simps)
      (fastforce split: list.splits if_splits sum.splits dest: "1.IH" entity_shrink)
qed

lemma quoted_shrink [shrink]: "quoted s = Inr (v, r) \<Longrightarrow> length r < length s"
  by (auto simp: quoted_def split: list.splits if_splits dest: quoted_body_shrink)

lemma closeTag_shrink [shrink]: "closeTag s = Inr (n, r) \<Longrightarrow> length r < length s"
  by (force simp: closeTag_def split: sum.splits dest: expect_shrink ident_shrink)

lemma text_body_shrink: "text_body tag acc s = Inr (v, r) \<Longrightarrow> length r < length s"
proof (induction tag acc s rule: text_body.induct)
  case (1 tag acc s)
  from "1.prems" show ?case
    by (subst (asm) text_body.simps)
      (fastforce split: list.splits if_splits sum.splits dest: "1.IH" entity_shrink closeTag_shrink)
qed

lemma textUntilClose_shrink [shrink]: "textUntilClose tag s = Inr (v, r) \<Longrightarrow> length r < length s"
  by (simp add: textUntilClose_def text_body_shrink)

subsection \<open>Start tags\<close>

type_synonym attr = "string \<times> string"

function attrs_loop :: "string \<Rightarrow> attr list \<Rightarrow> string \<Rightarrow> (string \<times> attr list \<times> bool) scan" where
  "attrs_loop name attrs s =
     (case s of [] \<Rightarrow> Inl PRead
      | b # s' \<Rightarrow>
          if is_ws b then attrs_loop name attrs s'
          else if b = CHR ''>'' then Inr ((name, attrs, False), s')
          else if b = CHR ''/'' then
            (case s' of b2 # r \<Rightarrow>
               if b2 = CHR ''>'' then Inr ((name, attrs, True), r) else Inl (PSelfClose name)
             | [] \<Rightarrow> Inl (PSelfClose name))
          else (case ident s of Inl e \<Rightarrow> Inl e
            | Inr (an, s1) \<Rightarrow> (case expect (CHR ''='') s1 of Inl e \<Rightarrow> Inl e
            | Inr s2 \<Rightarrow> (case quoted s2 of Inl e \<Rightarrow> Inl e
            | Inr (av, s3) \<Rightarrow> attrs_loop name (attrs @ [(an, av)]) s3))))"
  by pat_completeness auto
termination
  by (relation "measure (\<lambda>(name, attrs, s). length s)")
    (fastforce dest: ident_shrink expect_shrink quoted_shrink)+

declare attrs_loop.simps [simp del]

definition startTag :: "string \<Rightarrow> (string \<times> attr list \<times> bool) scan" where
  "startTag s =
     (case s of [] \<Rightarrow> Inl PRead
      | b # s1 \<Rightarrow>
          if b \<noteq> CHR ''<'' then Inl (PExpectedLt b)
          else (case ident s1 of Inl e \<Rightarrow> Inl e | Inr (name, s2) \<Rightarrow> attrs_loop name [] s2))"

definition attrVal :: "attr list \<Rightarrow> string \<Rightarrow> string" where
  "attrVal attrs name = (case map_of attrs name of None \<Rightarrow> [] | Some v \<Rightarrow> v)"

lemma attrs_loop_shrink: "attrs_loop name attrs s = Inr (v, r) \<Longrightarrow> length r < length s"
proof (induction s arbitrary: attrs rule: length_induct)
  case (1 s)
  have IH: "attrs_loop name a t = Inr (v, r) \<Longrightarrow> length t < length s \<longrightarrow> length r < length t" for a t
    using "1.IH" by blast
  from "1.prems" show ?case
    by (subst (asm) attrs_loop.simps)
      (auto split: list.splits if_splits sum.splits
        dest!: ident_shrink expect_shrink quoted_shrink dest!: IH)
qed

lemma startTag_shrink [shrink]: "startTag s = Inr (v, r) \<Longrightarrow> length r < length s"
  by (fastforce simp: startTag_def split: list.splits if_splits sum.splits
      dest: attrs_loop_shrink ident_shrink)

subsection \<open>Skipping\<close>

fun finishTag :: "char option \<Rightarrow> string \<Rightarrow> bool scan" where
  "finishTag quote [] = Inl PRead"
| "finishTag quote (b # s) =
     (case quote of
        Some q \<Rightarrow> finishTag (if b = q then None else quote) s
      | None \<Rightarrow>
          if b = SQUOTE \<or> b = DQUOTE then finishTag (Some b) s
          else if b = CHR ''>'' then Inr (False, s)
          else if b = CHR ''/'' then
            (case s of [] \<Rightarrow> Inl PRead
             | b2 # r \<Rightarrow> if b2 = CHR ''>'' then Inr (True, r) else finishTag None s)
          else finishTag None s)"

lemma finishTag_shrink [shrink]: "finishTag q s = Inr (v, r) \<Longrightarrow> length r < length s"
proof (induction s arbitrary: q rule: length_induct)
  case (1 s)
  have IH: "finishTag p t = Inr (v, r) \<Longrightarrow> length t < length s \<longrightarrow> length r < length t" for p t
    using "1.IH" by blast
  show ?case
  proof (cases s)
    case (Cons b t)
    from "1.prems" show ?thesis
      unfolding Cons finishTag.simps(2)
      by (auto split: option.splits if_splits list.splits dest!: IH
          simp del: finishTag.simps(2) simp: Cons)
  qed (use "1.prems" in simp)
qed

function skip_loop :: "nat \<Rightarrow> string \<Rightarrow> perr + string" where
  "skip_loop depth s =
     (if depth = 0 then Inr s
      else case s of [] \<Rightarrow> Inl PRead
      | b # s1 \<Rightarrow>
          if b \<noteq> CHR ''<'' then skip_loop depth s1
          else (case s1 of [] \<Rightarrow> Inl PRead
            | b2 # s2 \<Rightarrow>
                if b2 = CHR ''/'' then
                  (case ident s2 of Inl e \<Rightarrow> Inl e
                   | Inr (_, s3) \<Rightarrow> (case expect (CHR ''>'') s3 of Inl e \<Rightarrow> Inl e
                   | Inr s4 \<Rightarrow> skip_loop (depth - 1) s4))
                else
                  (case ident s1 of Inl e \<Rightarrow> Inl e
                   | Inr (_, s3) \<Rightarrow> (case finishTag None s3 of Inl e \<Rightarrow> Inl e
                   | Inr (sc, s4) \<Rightarrow> skip_loop (if sc then depth else Suc depth) s4))))"
  by pat_completeness auto
termination
  by (relation "measure (\<lambda>(depth, s). length s)")
    (fastforce dest: ident_shrink expect_shrink finishTag_shrink)+

declare skip_loop.simps [simp del]

definition skipElement :: "string \<Rightarrow> perr + string" where
  "skipElement s = skip_loop 1 s"

lemma skip_loop_le: "skip_loop depth s = Inr r \<Longrightarrow> length r \<le> length s"
proof (induction s arbitrary: depth rule: length_induct)
  case (1 s)
  have IH: "skip_loop d t = Inr r \<Longrightarrow> length t < length s \<longrightarrow> length r \<le> length t" for d t
    using "1.IH" by blast
  from "1.prems" show ?case
    by (subst (asm) skip_loop.simps)
      (auto split: list.splits if_splits sum.splits
        dest!: ident_shrink expect_shrink finishTag_shrink dest!: IH)
qed

lemma skipElement_le [shrink]: "skipElement s = Inr r \<Longrightarrow> length r \<le> length s"
  by (simp add: skipElement_def skip_loop_le)

fun skip_pi :: "char \<Rightarrow> string \<Rightarrow> perr + string" where
  "skip_pi prev [] = Inl PRead"
| "skip_pi prev (b # s) = (if prev = CHR ''?'' \<and> b = CHR ''>'' then Inr s else skip_pi b s)"

definition peekPI :: "string \<Rightarrow> bool" where
  "peekPI s = (case s of a # b # _ \<Rightarrow> a = CHR ''<'' \<and> b = CHR ''?'' | _ \<Rightarrow> False)"

definition skipPI :: "string \<Rightarrow> perr + string" where
  "skipPI s = skip_pi NUL (drop 2 s)"

definition peekClose :: "string \<Rightarrow> bool" where
  "peekClose s = (case s of a # b # _ \<Rightarrow> a = CHR ''<'' \<and> b = CHR ''/'' | _ \<Rightarrow> False)"

lemma skip_pi_shrink: "skip_pi p s = Inr r \<Longrightarrow> length r < length s"
  by (induction p s rule: skip_pi.induct) (fastforce split: if_splits)+

lemma skipPI_shrink [shrink]: "skipPI s = Inr r \<Longrightarrow> length r < length s"
  using skip_pi_shrink [of NUL "drop 2 s" r] by (simp add: skipPI_def)

subsection \<open>Diagnostics between elements\<close>

text \<open>\<^verbatim>\<open>readDiagnostic\<close>: the lines handed to the callback, and the rest.\<close>

fun readDiagnostic :: "string \<Rightarrow> string \<Rightarrow> string list \<times> (perr + string)" where
  "readDiagnostic line [] = ([line], Inl PRead)"
| "readDiagnostic line (b # s) =
     (if b = CHR ''<'' then ([TrimRight1 line CR], Inr (b # s))
      else if b = NL then ([TrimRight1 line CR], Inr s)
      else if length line + 1 = 4096 then
        (let (ls, r) = readDiagnostic [] s in ((line @ [b]) # ls, r))
      else readDiagnostic (line @ [b]) s)"

lemma readDiagnostic_le: "readDiagnostic line s = (ls, Inr r) \<Longrightarrow> length r \<le> length s"
  by (induction line s arbitrary: ls rule: readDiagnostic.induct)
    (fastforce split: if_splits prod.splits)+

text \<open>\<^verbatim>\<open>skipToTag\<close>: \<open>diag\<close> is whether a callback is installed and the position is between
  top-level elements. The result begins with \<^verbatim>\<open><\<close>.\<close>

function skipToTag :: "bool \<Rightarrow> string \<Rightarrow> string list \<times> (perr + string)" where
  "skipToTag diag s =
     (case s of [] \<Rightarrow> ([], Inl PRead)
      | b # s' \<Rightarrow>
          if b = CHR ''<'' then ([], Inr s)
          else if is_ws b then skipToTag diag s'
          else if diag then
            (case readDiagnostic [b] s' of
               (ls, Inl e) \<Rightarrow> (ls, Inl e)
             | (ls, Inr r) \<Rightarrow> (let (ls', x) = skipToTag diag r in (ls @ ls', x)))
          else ([], Inl (PBetween b)))"
  by pat_completeness auto
termination
  by (relation "measure (\<lambda>(diag, s). length s)") (auto dest!: readDiagnostic_le [OF sym])

declare skipToTag.simps [simp del]

lemma skipToTag_le: "skipToTag diag s = (ls, Inr r) \<Longrightarrow> length r \<le> length s"
proof (induction s arbitrary: diag ls rule: length_induct)
  case (1 s)
  have IH: "skipToTag g t = (l, Inr r) \<Longrightarrow> length t < length s \<longrightarrow> length r \<le> length t" for g l t
    using "1.IH" by blast
  from "1.prems" show ?case
    by (subst (asm) skipToTag.simps)
      (auto split: list.splits if_splits prod.splits sum.splits dest!: readDiagnostic_le dest!: IH)
qed

lemma skipToTag_hd: "skipToTag diag s = (ls, Inr r) \<Longrightarrow> \<exists>r'. r = CHR ''<'' # r'"
proof (induction s arbitrary: diag ls rule: length_induct)
  case (1 s)
  have IH: "skipToTag g t = (l, Inr r) \<Longrightarrow> length t < length s \<longrightarrow> (\<exists>r'. r = CHR ''<'' # r')" for g l t
    using "1.IH" by blast
  from "1.prems" show ?case
    by (subst (asm) skipToTag.simps)
      (auto split: list.splits if_splits prod.splits sum.splits dest!: readDiagnostic_le dest!: IH)
qed

end
