(* ===== verification/Wire_Blob.thy ===== *)
theory Wire_Blob
  imports Wire_Scan "HOL-Library.Word"
begin

unbundle bit_operations_syntax

text \<open>
  BLOB payloads (\<^verbatim>\<open>internal/indiwire/blob.go\<close>): the streaming base64 decoder of
  \<^verbatim>\<open>blobContent\<close>, four input columns at a time through \<^verbatim>\<open>decodeQuad\<close> on 8-bit words, and
  \<^verbatim>\<open>base64.StdEncoding\<close>, which the encoder of \<^verbatim>\<open>serve.go\<close> writes with. The decoder inverts the
  encoder on every byte string.
\<close>

definition w8 :: "char \<Rightarrow> 8 word" where "w8 c = word_of_nat (of_char c)"

definition c8 :: "8 word \<Rightarrow> char" where "c8 w = char_of (unat w)"

definition b64alpha :: string where
  "b64alpha = ''ABCDEFGHIJKLMNOPQRSTUVWXYZabcdefghijklmnopqrstuvwxyz0123456789+/''"

definition b64rev :: "char \<Rightarrow> int" where
  \<comment> \<open>the table's entry: -1 for a byte outside the alphabet\<close>
  "b64rev c = (let i = length (takeWhile (\<lambda>x. x \<noteq> c) b64alpha)
               in if i < length b64alpha then int i else - 1)"

text \<open>\<open>n\<close> output bytes consume the first \<open>n + 1\<close> columns; the columns not consumed keep the
  zero value of the array \<open>v\<close>.\<close>

definition decode_cols :: "nat \<Rightarrow> string \<Rightarrow> perr + 8 word list" where
  "decode_cols n quad =
     (case find (\<lambda>c. b64rev c < 0) (take (Suc n) quad) of
        Some c \<Rightarrow> Inl (PBlobByte c)
      | None \<Rightarrow> Inr (map (\<lambda>c. word_of_int (b64rev c)) (take (Suc n) quad) @ replicate (3 - n) 0))"

definition decodeQuad :: "string \<Rightarrow> perr + string" where
  "decodeQuad quad =
     (case quad of
        [q0, q1, q2, q3] \<Rightarrow>
          (case (if q0 = CHR ''='' \<or> q1 = CHR ''='' then None
                 else if q2 = CHR ''='' then (if q3 \<noteq> CHR ''='' then None else Some 1)
                 else if q3 = CHR ''='' then Some 2 else Some 3) of
             None \<Rightarrow> Inl PBlobPadding
           | Some n \<Rightarrow>
               (case decode_cols n quad of
                  Inl e \<Rightarrow> Inl e
                | Inr v \<Rightarrow>
                    Inr (take n
                      [c8 (push_bit 2 (v ! 0) OR drop_bit 4 (v ! 1)),
                       c8 (push_bit 4 (v ! 1) OR drop_bit 2 (v ! 2)),
                       c8 (push_bit 6 (v ! 2) OR (v ! 3))])))
      | _ \<Rightarrow> Inr [])"

text \<open>The largest allocation of the Go run time on a 64-bit system: \<^verbatim>\<open>make\<close> panics above it.\<close>

definition maxAlloc :: int where "maxAlloc = 2 ^ 48"

text \<open>\<open>sunk\<close>: a sink was installed and takes the bytes. \<open>buf\<close> is the slice they are appended
  to otherwise.\<close>

fun blob_loop :: "bool \<Rightarrow> string \<Rightarrow> string \<Rightarrow> string option \<Rightarrow> string \<Rightarrow> string option scan" where
  "blob_loop sunk tag quad buf [] = Inl PRead"
| "blob_loop sunk tag quad buf (b # s) =
     (if b = CHR ''<'' then
        (case closeTag (b # s) of Inl e \<Rightarrow> Inl e
         | Inr (n, r) \<Rightarrow>
             if n \<noteq> tag then Inl (PExpectedClose tag n)
             else if quad \<noteq> [] then Inl (PBlobTruncated (length quad))
             else Inr (if sunk then None else buf, r))
      else if is_ws b then blob_loop sunk tag quad buf s
      else if length quad < 3 then blob_loop sunk tag (quad @ [b]) buf s
      else (case decodeQuad (quad @ [b]) of Inl e \<Rightarrow> Inl e
        | Inr out \<Rightarrow>
            blob_loop sunk tag []
              (if sunk then buf else Some ((case buf of None \<Rightarrow> [] | Some x \<Rightarrow> x) @ out)) s))"

record BlobMeta =
  bm_Device :: string
  bm_Property :: string
  bm_Member :: string
  bm_Format :: string
  bm_Size :: int

type_synonym sink = "BlobMeta \<Rightarrow> bool"

text \<open>The parser's \<^verbatim>\<open>blobSink\<close>: whether the callback returns a writer for this payload. The
  program installs none, \<^verbatim>\<open>io.Discard\<close>, or a callback that chooses between the two.\<close>

definition blobContent :: "sink \<Rightarrow> Element \<Rightarrow> Member \<Rightarrow> string \<Rightarrow> string \<Rightarrow> Member scan" where
  "blobContent sink e m tag s =
     (let sunk = \<not> m_Attached m \<and>
            sink \<lparr>bm_Device = e_Device e, bm_Property = e_Name e, bm_Member = m_Name m,
                  bm_Format = m_BlobFormat m, bm_Size = m_Size m\<rparr>;
          prealloc = \<not> m_Attached m \<and> \<not> sunk \<and> 0 < m_Size m
      in if prealloc \<and> maxAlloc < m_Size m then Inl (PPanicMakeSlice (m_Size m))
         else (case blob_loop sunk tag [] (if prealloc then Some [] else None) s of
             Inl er \<Rightarrow> Inl er
           | Inr (d, r) \<Rightarrow> Inr (m\<lparr>m_Data := if sunk then m_Data m else d\<rparr>, r)))"

lemma blob_loop_shrink: "blob_loop sunk tag quad buf s = Inr (d, r) \<Longrightarrow> length r < length s"
  by (induction sunk tag quad buf s rule: blob_loop.induct)
    (auto split: if_splits sum.splits dest: closeTag_shrink)

lemma blobContent_shrink [shrink]: "blobContent sink e m tag s = Inr (m', r) \<Longrightarrow> length r < length s"
  by (auto simp: blobContent_def Let_def split: if_splits sum.splits dest: blob_loop_shrink)

subsection \<open>base64.StdEncoding\<close>

definition enc6 :: "8 word \<Rightarrow> char" where "enc6 w = b64alpha ! unat w"

fun b64encode :: "string \<Rightarrow> string" where
  "b64encode [] = []"
| "b64encode [a] = [enc6 (drop_bit 2 (w8 a)), enc6 (push_bit 4 (take_bit 2 (w8 a))), CHR ''='', CHR ''='']"
| "b64encode [a, b] =
     [enc6 (drop_bit 2 (w8 a)), enc6 (push_bit 4 (take_bit 2 (w8 a)) OR drop_bit 4 (w8 b)),
      enc6 (push_bit 2 (take_bit 4 (w8 b))), CHR ''='']"
| "b64encode (a # b # c # s) =
     [enc6 (drop_bit 2 (w8 a)), enc6 (push_bit 4 (take_bit 2 (w8 a)) OR drop_bit 4 (w8 b)),
      enc6 (push_bit 2 (take_bit 4 (w8 b)) OR drop_bit 6 (w8 c)), enc6 (take_bit 6 (w8 c))] @ b64encode s"

subsection \<open>The decoder inverts the encoder\<close>

lemma c8_w8 [simp]: "c8 (w8 c) = c"
proof -
  have "(of_char c :: nat) < 256" by (cases c) (simp add: of_char_of less_eq_mask)
  then have "unat (word_of_nat (of_char c) :: 8 word) = of_char c"
    by (simp add: unat_of_nat)
  then show ?thesis by (simp add: c8_def w8_def)
qed

lemma b64rev_enc6: "unat w < 64 \<Longrightarrow> b64rev (enc6 w) = int (unat w)"
proof -
  have "\<forall>i \<in> set [0..<64]. b64rev (b64alpha ! i) = int i" by code_simp
  then show "unat w < 64 \<Longrightarrow> ?thesis" by (simp add: enc6_def)
qed

lemma length_b64alpha: "length b64alpha = 64"
  by (simp add: b64alpha_def)

lemma enc6_in: "unat w < 64 \<Longrightarrow> enc6 w \<in> set b64alpha"
  unfolding enc6_def by (rule nth_mem) (simp add: length_b64alpha)

lemma b64alpha_plain: "c \<in> set b64alpha \<Longrightarrow> c \<noteq> CHR ''<'' \<and> c \<noteq> CHR ''='' \<and> \<not> is_ws c"
  by (auto simp: b64alpha_def is_ws_def)

lemma sextet_bound:
  fixes w :: "8 word"
  assumes "\<And>n. 6 \<le> n \<Longrightarrow> \<not> bit w n" shows "unat w < 64"
proof -
  have "take_bit 6 w = w"
    using assms by (intro bit_word_eqI) (auto simp: bit_take_bit_iff not_le [symmetric])
  then have "unat w = take_bit 6 (unat w)" by (metis unsigned_take_bit_eq)
  also have "\<dots> < 2 ^ 6" by (rule take_bit_nat_less_exp)
  finally show ?thesis by simp
qed

lemmas word_bits = bit_push_bit_iff bit_take_bit_iff bit_drop_bit_eq bit_or_iff

lemma sextets:
  fixes a b c :: "8 word"
  shows "unat (drop_bit 2 a) < 64" "unat (push_bit 4 (take_bit 2 a)) < 64"
    "unat (push_bit 4 (take_bit 2 a) OR drop_bit 4 b) < 64" "unat (push_bit 2 (take_bit 4 b)) < 64"
    "unat (push_bit 2 (take_bit 4 b) OR drop_bit 6 c) < 64" "unat (take_bit 6 c) < 64"
  by (rule sextet_bound; force simp: word_bits dest: bit_imp_le_length)+

lemma bit_push_drop: "bit (push_bit k (drop_bit k (a :: 8 word))) n \<longleftrightarrow> k \<le> n \<and> n < 8 \<and> bit a n"
  by (cases "k \<le> n") (auto simp: word_bits)

lemma regroup:
  fixes a b c :: "8 word"
  shows "push_bit 2 (drop_bit 2 a) OR drop_bit 4 (push_bit 4 (take_bit 2 a)) = a"
    "push_bit 4 (drop_bit 4 b) OR drop_bit 2 (push_bit 2 (take_bit 4 b)) = b"
    "push_bit 6 (drop_bit 6 c) OR take_bit 6 c = c"
proof -
  show "push_bit 2 (drop_bit 2 a) OR drop_bit 4 (push_bit 4 (take_bit 2 a)) = a"
    by (rule bit_word_eqI) (auto simp only: bit_or_iff bit_push_drop, auto simp: word_bits)
  show "push_bit 4 (drop_bit 4 b) OR drop_bit 2 (push_bit 2 (take_bit 4 b)) = b"
    by (rule bit_word_eqI) (auto simp only: bit_or_iff bit_push_drop, auto simp: word_bits)
  show "push_bit 6 (drop_bit 6 c) OR take_bit 6 c = c"
    by (rule bit_word_eqI) (auto simp only: bit_or_iff bit_push_drop, auto simp: word_bits)
qed

lemma decode_col: "unat w < 64 \<Longrightarrow> word_of_int (b64rev (enc6 w)) = w \<and> \<not> b64rev (enc6 w) < 0"
  by (simp add: b64rev_enc6)

lemma enc6_not_pad: "unat w < 64 \<Longrightarrow> enc6 w \<noteq> CHR ''=''"
  using enc6_in b64alpha_plain by blast

lemma decodeQuad_3:
  "decodeQuad [enc6 (drop_bit 2 (w8 a)), enc6 (push_bit 4 (take_bit 2 (w8 a)) OR drop_bit 4 (w8 b)),
      enc6 (push_bit 2 (take_bit 4 (w8 b)) OR drop_bit 6 (w8 c)), enc6 (take_bit 6 (w8 c))]
   = Inr [a, b, c]"
  by (simp add: decodeQuad_def decode_cols_def enc6_not_pad decode_col sextets regroup)

lemma decodeQuad_2:
  "decodeQuad [enc6 (drop_bit 2 (w8 a)), enc6 (push_bit 4 (take_bit 2 (w8 a)) OR drop_bit 4 (w8 b)),
      enc6 (push_bit 2 (take_bit 4 (w8 b))), CHR ''=''] = Inr [a, b]"
  by (simp add: decodeQuad_def decode_cols_def enc6_not_pad decode_col sextets regroup)

lemma decodeQuad_1:
  "decodeQuad [enc6 (drop_bit 2 (w8 a)), enc6 (push_bit 4 (take_bit 2 (w8 a))), CHR ''='', CHR ''='']
   = Inr [a]"
  by (simp add: decodeQuad_def decode_cols_def enc6_not_pad decode_col sextets regroup)

definition b64col :: "char \<Rightarrow> bool" where
  "b64col c \<longleftrightarrow> c \<noteq> CHR ''<'' \<and> \<not> is_ws c"

lemma b64col_enc6: "unat w < 64 \<Longrightarrow> b64col (enc6 w)"
  using enc6_in b64alpha_plain by (auto simp: b64col_def)

lemma blob_loop_quad:
  assumes "b64col q0" "b64col q1" "b64col q2" "b64col q3" "decodeQuad [q0, q1, q2, q3] = Inr out"
  shows "blob_loop sunk tag [] buf ([q0, q1, q2, q3] @ s) =
    blob_loop sunk tag []
      (if sunk then buf else Some ((case buf of None \<Rightarrow> [] | Some x \<Rightarrow> x) @ out)) s"
  using assms by (simp add: b64col_def)

lemma blob_loop_b64encode:
  "blob_loop sunk tag [] buf (b64encode d @ s) =
    blob_loop sunk tag []
      (if sunk \<or> d = [] then buf else Some ((case buf of None \<Rightarrow> [] | Some x \<Rightarrow> x) @ d)) s"
proof (induction d arbitrary: buf rule: b64encode.induct)
  case 1
  show ?case by simp
next
  case (2 a)
  have "b64col (CHR ''='')" by (simp add: b64col_def is_ws_def)
  then show ?case
    using blob_loop_quad [OF _ _ _ _ decodeQuad_1, of a sunk tag buf s] by (simp add: b64col_enc6 sextets)
next
  case (3 a b)
  have "b64col (CHR ''='')" by (simp add: b64col_def is_ws_def)
  then show ?case
    using blob_loop_quad [OF _ _ _ _ decodeQuad_2, of a b sunk tag buf s] by (simp add: b64col_enc6 sextets)
next
  case (4 a b c d)
  show ?case
    using blob_loop_quad [OF _ _ _ _ decodeQuad_3, of a b c sunk tag buf "b64encode d @ s"]
    by (simp add: b64col_enc6 sextets "4.IH")
qed

end
