(* ===== verification/Wire_Parser.thy ===== *)
theory Wire_Parser
  imports Wire_Blob
begin

text \<open>
  The element parser of \<^verbatim>\<open>internal/indiwire/parser.go\<close>: \<^verbatim>\<open>Parser.next\<close> and \<^verbatim>\<open>Parser.Next\<close>,
  \<^verbatim>\<open>vectorAttrs\<close>, \<^verbatim>\<open>members\<close>, \<^verbatim>\<open>memberValue\<close> and \<^verbatim>\<open>ParseNumber\<close>. The loops consume input
  and so terminate on every byte string; a failed element leaves its error behind, which
  every later call returns.
\<close>

subsection \<open>Numbers\<close>

definition ParseNumber :: "string \<Rightarrow> f64 \<times> bool" where
  "ParseNumber s0 =
     (let s = TrimSpace s0; (v0, ok0) = ParseFloat s in
      if ok0 then (v0, True)
      else
        let fields = FieldsFunc s (\<lambda>c. c = CHR '':'' \<or> c = CHR '' '') in
        if length fields < 2 \<or> 3 < length fields then (Fin 0, False)
        else
          let (d, dok) = ParseFloat (fields ! 0);
              neg = HasPrefix (TrimSpace s) ''-'';
              v = (if neg then f_neg d else d);
              (mi, mok) = ParseFloat (fields ! 1);
              v1 = f_add v (f_divc mi 60)
          in if \<not> dok then (Fin 0, False)
             else if \<not> mok then (Fin 0, False)
             else if length fields = 3 then
               (let (sec, sok) = ParseFloat (fields ! 2); v2 = f_add v1 (f_divc sec 3600)
                in if \<not> sok then (Fin 0, False) else (if neg then f_neg v2 else v2, True))
             else (if neg then f_neg v1 else v1, True))"

text \<open>The value of \<^verbatim>\<open>strconv.ParseInt(s, 10, 64)\<close> with its error dropped: zero for bad
  syntax, the nearest bound when out of range. The digit loop stops at the first overflow.\<close>

fun parse_uint :: "nat \<Rightarrow> string \<Rightarrow> nat option" where
  "parse_uint n [] = Some n"
| "parse_uint n (c # s) =
     (if \<not> is_digit c then None
      else if 2 ^ 64 \<le> 10 * n + digit_val c then Some (2 ^ 64 - 1)
      else parse_uint (10 * n + digit_val c) s)"

definition ParseInt64 :: "string \<Rightarrow> int" where
  "ParseInt64 s =
     (let (neg, t) = strip_sign s in
      if t = [] then 0
      else case parse_uint 0 t of None \<Rightarrow> 0
        | Some n \<Rightarrow> if neg then max (- int n) (- (2 ^ 63)) else min (int n) (2 ^ 63 - 1))"

subsection \<open>Attributes and member values\<close>

definition vtypeOf :: "string \<Rightarrow> VType option" where
  "vtypeOf s =
     (if s = ''Number'' then Some Number else if s = ''Switch'' then Some Switch
      else if s = ''Text'' then Some Text else if s = ''Light'' then Some Light
      else if s = ''BLOB'' then Some BLOB else None)"

definition vectorAttr :: "attr \<Rightarrow> Element \<Rightarrow> Element" where
  "vectorAttr a e =
     (let (n, v) = a in
      if n = ''device'' then e\<lparr>e_Device := v\<rparr>
      else if n = ''name'' then e\<lparr>e_Name := v\<rparr>
      else if n = ''label'' then e\<lparr>e_Label := v\<rparr>
      else if n = ''group'' then e\<lparr>e_Group := v\<rparr>
      else if n = ''state'' then e\<lparr>e_State := fst (ParseState v)\<rparr>
      else if n = ''perm'' then e\<lparr>e_Perm := fst (ParsePerm v)\<rparr>
      else if n = ''rule'' then e\<lparr>e_Rule := fst (ParseRule v)\<rparr>
      else if n = ''timestamp'' then e\<lparr>e_Timestamp := v\<rparr>
      else if n = ''message'' then e\<lparr>e_Message := v\<rparr>
      else e)"

definition vectorAttrs :: "attr list \<Rightarrow> Element \<Rightarrow> Element" where
  "vectorAttrs attrs e = fold vectorAttr attrs e"

definition memberAttr :: "VType \<Rightarrow> attr \<Rightarrow> Member \<Rightarrow> Member" where
  "memberAttr t a m =
     (let (n, v) = a in
      if n = ''name'' then m\<lparr>m_Name := v\<rparr>
      else if n = ''label'' then m\<lparr>m_Label := v\<rparr>
      else if n = ''min'' then m\<lparr>m_Min := fst (ParseNumber v), m_HasRange := True\<rparr>
      else if n = ''max'' then m\<lparr>m_Max := fst (ParseNumber v), m_HasRange := True\<rparr>
      else if n = ''step'' then m\<lparr>m_Step := fst (ParseNumber v), m_HasRange := True\<rparr>
      else if n = ''format'' then
        (if t = BLOB then m\<lparr>m_BlobFormat := v\<rparr> else m\<lparr>m_Format := v\<rparr>)
      else if n = ''size'' then m\<lparr>m_Size := ParseInt64 v\<rparr>
      else if n = ''attached'' then m\<lparr>m_Attached := (v = ''true'')\<rparr>
      else m)"

definition memberAttrs :: "VType \<Rightarrow> attr list \<Rightarrow> Member" where
  "memberAttrs t attrs = fold (memberAttr t) attrs zero_member"

definition memberValue :: "VType \<Rightarrow> Member \<Rightarrow> string \<Rightarrow> Member" where
  "memberValue t m text0 =
     (let text = TrimSpace text0; m' = m\<lparr>m_Text := text\<rparr> in
      case t of
        Number \<Rightarrow> m'\<lparr>m_Value := fst (ParseNumber text)\<rparr>
      | Switch \<Rightarrow> m'\<lparr>m_On := (text = ''On'')\<rparr>
      | Light \<Rightarrow> m'\<lparr>m_LightState := fst (ParseState text)\<rparr>
      | _ \<Rightarrow> m')"

subsection \<open>Vectors\<close>

text \<open>\<open>u\<close> is the parser's count of skipped elements, which a failed vector keeps.\<close>

function members :: "sink \<Rightarrow> string \<Rightarrow> string \<Rightarrow> Element \<Rightarrow> nat \<Rightarrow> string
    \<Rightarrow> (perr + Element \<times> string) \<times> nat" where
  "members sink ct childTag e u s =
     (case skipToTag False s of
        (_, Inl er) \<Rightarrow> (Inl er, u)
      | (_, Inr s1) \<Rightarrow>
          if peekClose s1 then
            (case closeTag s1 of Inl er \<Rightarrow> (Inl er, u)
             | Inr (n, r) \<Rightarrow> (if n \<noteq> ct then Inl (PUnexpectedClose n ct) else Inr (e, r), u))
          else
            (case startTag s1 of Inl er \<Rightarrow> (Inl er, u)
             | Inr ((name, attrs, selfClosed), s2) \<Rightarrow>
                 if name \<noteq> childTag then
                   (if selfClosed then members sink ct childTag e (Suc u) s2
                    else case skipElement s2 of Inl er \<Rightarrow> (Inl er, Suc u)
                      | Inr s3 \<Rightarrow> members sink ct childTag e (Suc u) s3)
                 else if maxMembers \<le> length (e_Members e) then
                   (Inl (PTooManyMembers (e_Name e)), u)
                 else
                   let m = memberAttrs (e_Type e) attrs in
                   if e_Type e = BLOB \<and> \<not> selfClosed then
                     (case blobContent sink e m childTag s2 of Inl er \<Rightarrow> (Inl er, u)
                      | Inr (m', s3) \<Rightarrow>
                          members sink ct childTag (e\<lparr>e_Members := e_Members e @ [m']\<rparr>) u s3)
                   else if selfClosed then
                     members sink ct childTag (e\<lparr>e_Members := e_Members e @ [m]\<rparr>) u s2
                   else
                     (case textUntilClose childTag s2 of Inl er \<Rightarrow> (Inl er, u)
                      | Inr (text, s3) \<Rightarrow>
                          members sink ct childTag
                            (e\<lparr>e_Members := e_Members e @ [memberValue (e_Type e) m text]\<rparr>) u s3)))"
  by pat_completeness auto
termination
proof (relation "measure (\<lambda>(sink, ct, childTag, e, u, s). length s)", goal_cases)
  case 1 then show ?case by simp
qed (force dest!: skipToTag_le [OF sym] dest: startTag_shrink skipElement_le blobContent_shrink
      textUntilClose_shrink)+

declare members.simps [simp del]

lemma members_shrink: "fst (members sink ct childTag e u s) = Inr (e', r) \<Longrightarrow> length r < length s"
proof (induction s arbitrary: e u rule: length_induct)
  case (1 s)
  have IH: "fst (members sink ct childTag f v t) = Inr (e', r) \<Longrightarrow> length t < length s \<longrightarrow> length r < length t"
    for f v t using "1.IH" by blast
  from "1.prems" show ?case
    by (subst (asm) members.simps)
      (auto split: prod.splits sum.splits if_splits simp: Let_def
        dest!: skipToTag_le closeTag_shrink startTag_shrink skipElement_le blobContent_shrink
          textUntilClose_shrink IH)
qed

subsection \<open>Elements\<close>

text \<open>What a start tag announces: a vector kind with the type its name carries, or one of
  the simple elements. \<^const>\<open>None\<close> is an element the parser skips.\<close>

definition vector_tag :: "string \<Rightarrow> (Kind \<times> VType \<times> string) option" where
  "vector_tag name =
     (if HasPrefix name ''def'' \<and> HasSuffix name ''Vector'' then
        map_option (\<lambda>t. (KindDef, t, ''def'' @ take (length name - 9) (drop 3 name)))
          (vtypeOf (take (length name - 9) (drop 3 name)))
      else if HasPrefix name ''set'' \<and> HasSuffix name ''Vector'' then
        map_option (\<lambda>t. (KindSet, t, ''one'' @ take (length name - 9) (drop 3 name)))
          (vtypeOf (take (length name - 9) (drop 3 name)))
      else if HasPrefix name ''new'' \<and> HasSuffix name ''Vector'' then
        map_option (\<lambda>t. (KindNew, t, ''one'' @ take (length name - 9) (drop 3 name)))
          (vtypeOf (take (length name - 9) (drop 3 name)))
      else None)"

definition simple_tag :: "string \<Rightarrow> Kind option" where
  "simple_tag name =
     (if name = ''message'' then Some KindMessage
      else if name = ''delProperty'' then Some KindDel
      else if name = ''getProperties'' then Some KindGetProps
      else if name = ''enableBLOB'' then Some KindEnableBLOB
      else if name = ''pingRequest'' then Some KindPing
      else if name = ''pingReply'' then Some KindPingReply
      else None)"

text \<open>The body of a recognised element other than a vector.\<close>

definition simple_element :: "Kind \<Rightarrow> string \<Rightarrow> attr list \<Rightarrow> bool \<Rightarrow> string \<Rightarrow> Element scan" where
  "simple_element k name attrs selfClosed s =
     (let e = zero_element\<lparr>e_Kind := k\<rparr> in
      if k = KindPing \<or> k = KindPingReply then
        (let e1 = e\<lparr>e_Name := attrVal attrs ''uid''\<rparr> in
         if selfClosed then Inr (e1, s)
         else case skipElement s of Inl er \<Rightarrow> Inl er | Inr r \<Rightarrow> Inr (e1, r))
      else if k = KindEnableBLOB then
        (let e1 = vectorAttrs attrs e in
         if selfClosed then Inr (e1, s)
         else case textUntilClose name s of Inl er \<Rightarrow> Inl er
           | Inr (text, r) \<Rightarrow> Inr (e1\<lparr>e_Message := text\<rparr>, r))
      else
        (let e1 = vectorAttrs attrs e in
         if selfClosed then Inr (e1, s)
         else case skipElement s of Inl er \<Rightarrow> Inl er | Inr r \<Rightarrow> Inr (e1, r)))"

record pout =
  po_res :: "perr + Element \<times> string"
  po_unknown :: nat
  po_diag :: "string list"

function next_loop :: "bool \<Rightarrow> sink \<Rightarrow> nat \<Rightarrow> string list \<Rightarrow> string \<Rightarrow> pout" where
  "next_loop diag sink u ds s =
     (case skipToTag diag s of
        (ls, Inl er) \<Rightarrow> \<lparr>po_res = Inl er, po_unknown = u, po_diag = ds @ ls\<rparr>
      | (ls, Inr s1) \<Rightarrow>
          if peekPI s1 then
            (case skipPI s1 of
               Inl er \<Rightarrow> \<lparr>po_res = Inl er, po_unknown = u, po_diag = ds @ ls\<rparr>
             | Inr s2 \<Rightarrow> next_loop diag sink u (ds @ ls) s2)
          else
            (case startTag s1 of
               Inl er \<Rightarrow> \<lparr>po_res = Inl er, po_unknown = u, po_diag = ds @ ls\<rparr>
             | Inr ((name, attrs, selfClosed), s2) \<Rightarrow>
                 (case vector_tag name of
                    Some (k, t, childTag) \<Rightarrow>
                      (let e = vectorAttrs attrs (zero_element\<lparr>e_Kind := k, e_Type := t\<rparr>) in
                       if selfClosed then
                         \<lparr>po_res = Inr (e, s2), po_unknown = u, po_diag = ds @ ls\<rparr>
                       else
                         (let (res, u') = members sink name childTag e u s2
                          in \<lparr>po_res = res, po_unknown = u', po_diag = ds @ ls\<rparr>))
                  | None \<Rightarrow>
                      (case simple_tag name of
                         Some k \<Rightarrow>
                           \<lparr>po_res = simple_element k name attrs selfClosed s2,
                            po_unknown = u, po_diag = ds @ ls\<rparr>
                       | None \<Rightarrow>
                           if selfClosed then next_loop diag sink (Suc u) (ds @ ls) s2
                           else (case skipElement s2 of
                               Inl er \<Rightarrow> \<lparr>po_res = Inl er, po_unknown = Suc u, po_diag = ds @ ls\<rparr>
                             | Inr s3 \<Rightarrow> next_loop diag sink (Suc u) (ds @ ls) s3)))))"
  by pat_completeness auto
termination
proof (relation "measure (\<lambda>(diag, sink, u, ds, s). length s)", goal_cases)
  case 1 then show ?case by simp
qed (force dest!: skipToTag_le [OF sym] dest: startTag_shrink skipElement_le skipPI_shrink)+

declare next_loop.simps [simp del]

text \<open>The parser object: unread input, the sticky error, the counters and its configuration.\<close>

record parser =
  p_in :: string
  p_err :: "perr option"
  p_Unknown :: nat
  p_lines :: "string list"
  p_diagnostic :: bool
  p_sink :: sink

definition parser_next :: "parser \<Rightarrow> (perr + Element) \<times> parser" where
  "parser_next p =
     (case p_err p of
        Some er \<Rightarrow> (Inl er, p)
      | None \<Rightarrow>
          (let out = next_loop (p_diagnostic p) (p_sink p) (p_Unknown p) [] (p_in p);
               p1 = p\<lparr>p_Unknown := po_unknown out, p_lines := p_lines p @ po_diag out\<rparr>
           in case po_res out of
                Inl er \<Rightarrow> (Inl er, p1\<lparr>p_err := Some er\<rparr>)
              | Inr (e, r) \<Rightarrow> (Inr e, p1\<lparr>p_in := r\<rparr>)))"

lemma simple_element_le: "simple_element k name attrs sc s = Inr (e, r) \<Longrightarrow> length r \<le> length s"
  by (auto simp: simple_element_def Let_def split: if_splits sum.splits
      dest: skipElement_le textUntilClose_shrink)

lemma next_loop_shrink:
  "po_res (next_loop diag sink u ds s) = Inr (e, r) \<Longrightarrow> length r < length s"
proof (induction s arbitrary: u ds rule: length_induct)
  case (1 s)
  have IH: "po_res (next_loop diag sink v d t) = Inr (e, r) \<Longrightarrow> length t < length s \<longrightarrow> length r < length t"
    for v d t using "1.IH" by blast
  have mem: "members sink ct childTag f v t = (Inr (e, r), w) \<Longrightarrow> length r < length t" for ct childTag f v t w
    using members_shrink [of sink ct childTag f v t e r] by simp
  from "1.prems" show ?case
    by (subst (asm) next_loop.simps)
      (auto split: prod.splits sum.splits if_splits option.splits simp: Let_def
        dest!: skipToTag_le startTag_shrink skipElement_le skipPI_shrink simple_element_le mem IH)
qed

text \<open>Reading a stream to its end, as every client of the parser does.\<close>

function parse_all :: "parser \<Rightarrow> Element list \<times> perr" where
  "parse_all p =
     (case p_err p of Some er \<Rightarrow> ([], er)
      | None \<Rightarrow>
        (case parser_next p of
           (Inl er, _) \<Rightarrow> ([], er)
         | (Inr e, p') \<Rightarrow> (let (es, er) = parse_all p' in (e # es, er))))"
  by pat_completeness auto
termination
proof (relation "measure (\<lambda>p. length (p_in p))", goal_cases)
  case 1 then show ?case by simp
next
  case (2 p x y e)
  then show ?case
    by (auto simp: parser_next_def Let_def split: option.splits sum.splits prod.splits
        dest!: next_loop_shrink)
qed

end
