(* ===== verification/Wire_Encode.thy ===== *)
theory Wire_Encode
  imports Wire_Parser
begin

text \<open>
  The two encoders: the client half of the protocol (\<^verbatim>\<open>internal/indiwire/writer.go\<close>), whose
  operations return the bytes handed to \<^verbatim>\<open>Writer.send\<close>, and the server half
  (\<^verbatim>\<open>internal/indiwire/serve.go\<close>), which encodes an \<open>Element\<close>.
\<close>

definition xmlEscape1 :: "char \<Rightarrow> string" where
  "xmlEscape1 c =
     (if c = CHR ''&'' then ''&amp;'' else if c = CHR ''<'' then ''&lt;''
      else if c = CHR ''>'' then ''&gt;'' else if c = SQUOTE then ''&apos;''
      else if c = DQUOTE then ''&quot;'' else [c])"

definition xmlEscape :: "string \<Rightarrow> string" where
  "xmlEscape s = concat (map xmlEscape1 s)"

definition optAttr :: "string \<Rightarrow> string \<Rightarrow> string" where
  "optAttr name value =
     (if value = [] then [] else '' '' @ name @ ''='' @ [SQUOTE] @ xmlEscape value @ [SQUOTE])"

subsection \<open>The client half\<close>

definition GetProperties :: "string \<Rightarrow> string \<Rightarrow> string" where
  "GetProperties device name =
     ''<getProperties version='' @ [SQUOTE] @ ''1.7'' @ [SQUOTE] @
       optAttr ''device'' device @ optAttr ''name'' name @ ''/>'' @ [NL]"

definition EnableBLOB :: "string \<Rightarrow> string \<Rightarrow> string" where
  "EnableBLOB device mode =
     ''<enableBLOB'' @ optAttr ''device'' device @ ''>'' @ xmlEscape mode @ ''</enableBLOB>'' @ [NL]"

definition PingReply :: "string \<Rightarrow> string" where
  "PingReply uid = ''<pingReply'' @ optAttr ''uid'' uid @ ''/>'' @ [NL]"

definition openVector :: "string \<Rightarrow> string \<Rightarrow> string \<Rightarrow> string" where
  "openVector tag device vec =
     ''<'' @ tag @ optAttr ''device'' device @ optAttr ''name'' vec @ ''>'' @ [NL]"

definition oneMember :: "string \<Rightarrow> string \<Rightarrow> string \<Rightarrow> string" where
  \<comment> \<open>\<^verbatim>\<open>memberValue\<close> of writer.go; \<open>value\<close> is already escaped or needs no escape\<close>
  "oneMember tag name value =
     ''  <'' @ tag @ '' name='' @ [SQUOTE] @ xmlEscape name @ [SQUOTE] @ ''>'' @ value @
       ''</'' @ tag @ ''>'' @ [NL]"

definition SetNumber :: "string \<Rightarrow> string \<Rightarrow> f64 gomap \<Rightarrow> string" where
  "SetNumber device vec values =
     openVector ''newNumberVector'' device vec @
     concat (map (\<lambda>(n, v). oneMember ''oneNumber'' n (format20g v)) values) @
     ''</newNumberVector>'' @ [NL]"

definition SetSwitch :: "string \<Rightarrow> string \<Rightarrow> string list \<Rightarrow> string list \<Rightarrow> string" where
  "SetSwitch device vec on off =
     openVector ''newSwitchVector'' device vec @
     concat (map (\<lambda>n. oneMember ''oneSwitch'' n (xmlEscape ''On'')) on) @
     concat (map (\<lambda>n. oneMember ''oneSwitch'' n (xmlEscape ''Off'')) off) @
     ''</newSwitchVector>'' @ [NL]"

definition SetText :: "string \<Rightarrow> string \<Rightarrow> string gomap \<Rightarrow> string" where
  "SetText device vec values =
     openVector ''newTextVector'' device vec @
     concat (map (\<lambda>(n, v). oneMember ''oneText'' n (xmlEscape v)) values) @
     ''</newTextVector>'' @ [NL]"

subsection \<open>The server half\<close>

definition EncodePingReply :: "string \<Rightarrow> string" where
  "EncodePingReply uid = ''<pingReply'' @ optAttr ''uid'' uid @ ''/>'' @ [NL]"

definition show_int :: "int \<Rightarrow> string" where
  "show_int i = (if i < 0 then CHR ''-'' # dec (nat (- i)) else dec (nat i))"

definition vectorTag :: "VType \<Rightarrow> string" where
  "vectorTag t = VType_String t @ ''Vector''"

definition memberTag :: "VType \<Rightarrow> string" where
  "memberTag t = VType_String t"

text \<open>\<^verbatim>\<open>blobs[m.Name]\<close>: a missing key reads as the nil slice, \<^const>\<open>None\<close>.\<close>

definition blob_given :: "string option gomap \<Rightarrow> Member \<Rightarrow> string option" where
  "blob_given blobs m = (case map_of blobs (m_Name m) of Some p \<Rightarrow> p | None \<Rightarrow> None)"

definition bytes_of :: "string option \<Rightarrow> string" where
  "bytes_of p = (case p of Some d \<Rightarrow> d | None \<Rightarrow> [])"

definition blob_payload :: "string option gomap \<Rightarrow> Member \<Rightarrow> string" where
  "blob_payload blobs m =
     bytes_of (case blob_given blobs m of Some p \<Rightarrow> Some p | None \<Rightarrow> m_Data m)"

definition blob_size :: "string option gomap \<Rightarrow> Member \<Rightarrow> int" where
  "blob_size blobs m =
     (if m_Size m = 0 then int (length (bytes_of (blob_given blobs m))) else m_Size m)"

definition writeMemberValue :: "VType \<Rightarrow> Member \<Rightarrow> string option gomap \<Rightarrow> bool \<Rightarrow> string" where
  "writeMemberValue t m blobs def =
     (case t of
        Number \<Rightarrow> format20g (m_Value m)
      | Switch \<Rightarrow> (if m_On m then ''On'' else ''Off'')
      | Light \<Rightarrow> State_String (m_LightState m)
      | BLOB \<Rightarrow> (if def then [] else b64encode (blob_payload blobs m))
      | Text \<Rightarrow> xmlEscape (m_Text m))"

definition range_attrs :: "Member \<Rightarrow> string" where
  "range_attrs m =
     '' min='' @ [SQUOTE] @ format20g (m_Min m) @ [SQUOTE] @
     '' max='' @ [SQUOTE] @ format20g (m_Max m) @ [SQUOTE] @
     '' step='' @ [SQUOTE] @ format20g (m_Step m) @ [SQUOTE]"

definition encodeMember :: "VType \<Rightarrow> string option gomap \<Rightarrow> bool \<Rightarrow> Member \<Rightarrow> string" where
  "encodeMember t blobs def m =
     (let mtag = (if def then ''def'' else ''one'') @ memberTag t in
      ''  <'' @ mtag @ '' name='' @ [SQUOTE] @ xmlEscape (m_Name m) @ [SQUOTE] @
      (if def then
         optAttr ''label'' (m_Label m) @
         (if t = Number then optAttr ''format'' (m_Format m) @ range_attrs m else [])
       else if t = Number \<and> m_HasRange m then range_attrs m else []) @
      (if t = BLOB \<and> \<not> def then
         '' size='' @ [SQUOTE] @ show_int (blob_size blobs m) @ [SQUOTE] @
         optAttr ''format'' (m_BlobFormat m)
       else []) @
      ''>'' @ writeMemberValue t m blobs def @ ''</'' @ mtag @ ''>'' @ [NL])"

definition encodeVector :: "Element \<Rightarrow> string option gomap \<Rightarrow> bool \<Rightarrow> string" where
  "encodeVector el blobs def =
     (let tag = (if def then ''def'' else ''set'') @ vectorTag (e_Type el) in
      ''<'' @ tag @ optAttr ''device'' (e_Device el) @ optAttr ''name'' (e_Name el) @
      (if def then optAttr ''label'' (e_Label el) @ optAttr ''group'' (e_Group el) else []) @
      optAttr ''state'' (State_String (e_State el)) @
      (if def then
         optAttr ''perm'' (Perm_String (e_Perm el)) @
         (if e_Type el = Switch then optAttr ''rule'' (Rule_String (e_Rule el)) else [])
       else []) @
      optAttr ''timestamp'' (e_Timestamp el) @ optAttr ''message'' (e_Message el) @ ''>'' @ [NL] @
      concat (map (encodeMember (e_Type el) blobs def) (e_Members el)) @
      ''</'' @ tag @ ''>'' @ [NL])"

text \<open>The error carries the kind that is not a server message.\<close>

definition encodeElement :: "Element \<Rightarrow> string option gomap \<Rightarrow> Kind + string" where
  "encodeElement el blobs =
     (case e_Kind el of
        KindMessage \<Rightarrow>
          Inr (''<message'' @ optAttr ''device'' (e_Device el) @
            optAttr ''timestamp'' (e_Timestamp el) @ optAttr ''message'' (e_Message el) @ ''/>'' @ [NL])
      | KindDel \<Rightarrow>
          Inr (''<delProperty'' @ optAttr ''device'' (e_Device el) @ optAttr ''name'' (e_Name el) @
            optAttr ''timestamp'' (e_Timestamp el) @ optAttr ''message'' (e_Message el) @ ''/>'' @ [NL])
      | KindDef \<Rightarrow> Inr (encodeVector el blobs True)
      | KindSet \<Rightarrow> Inr (encodeVector el blobs False)
      | k \<Rightarrow> Inl k)"

end
