(* ===== verification/Wire_Roundtrip.thy ===== *)
theory Wire_Roundtrip
  imports Wire_Encode
begin

text \<open>
  What the parser reads from what the encoders write. A start tag is its name followed by
  attribute texts; every scanner of \<open>Wire_Scan\<close> is evaluated once on such text, and the round
  trips of the server half (\<^const>\<open>encodeElement\<close>) and the client half (\<^const>\<open>SetNumber\<close>,
  \<^const>\<open>SetSwitch\<close>, \<^const>\<open>SetText\<close>, \<^const>\<open>GetProperties\<close>, \<^const>\<open>EnableBLOB\<close>,
  \<^const>\<open>PingReply\<close>) follow by evaluation. \<open>member_view\<close> and \<open>element_view\<close> say which fields
  the wire carries: the value of a text member arrives trimmed, and a \<open>set\<close> vector carries no
  label, group, permission or rule.
\<close>

subsection \<open>Scanners on escaped text\<close>

lemma xmlEscape_simps [simp]:
  "xmlEscape [] = []" "xmlEscape (c # s) = xmlEscape1 c @ xmlEscape s"
  by (simp_all add: xmlEscape_def)

lemma entity_xmlEscape1:
  "entity (''amp;'' @ s) = Inr (CHR ''&'', s)" "entity (''lt;'' @ s) = Inr (CHR ''<'', s)"
  "entity (''gt;'' @ s) = Inr (CHR ''>'', s)" "entity (''apos;'' @ s) = Inr (SQUOTE, s)"
  "entity (''quot;'' @ s) = Inr (DQUOTE, s)"
  by (simp_all add: entity_def)

lemma quoted_body_escape:
  "length acc + length v \<le> maxToken \<Longrightarrow>
    quoted_body SQUOTE acc (xmlEscape v @ SQUOTE # r) = Inr (acc @ v, r)"
proof (induction v arbitrary: acc)
  case Nil
  show ?case by (subst quoted_body.simps) simp
next
  case (Cons c v)
  have step: "quoted_body SQUOTE acc (xmlEscape1 c @ s) = quoted_body SQUOTE (acc @ [c]) s" for s
    using Cons.prems entity_xmlEscape1 [of s]
    by (subst quoted_body.simps) (auto simp: xmlEscape1_def)
  show ?case using Cons.IH [of "acc @ [c]"] Cons.prems by (simp add: step)
qed

lemma quoted_escape [wire_simps]:
  "length v \<le> maxToken \<Longrightarrow> quoted (SQUOTE # xmlEscape v @ SQUOTE # r) = Inr (v, r)"
  by (simp add: quoted_def quoted_body_escape)

text \<open>A name the scanner reads back: identifier bytes, shorter than the buffer.\<close>

definition name_ok :: "string \<Rightarrow> bool" where
  "name_ok n \<longleftrightarrow> n \<noteq> [] \<and> list_all is_ident n \<and> length n < maxToken"

lemma ident_name [wire_simps]:
  assumes "name_ok n" "\<not> is_ident c"
  shows "ident (n @ c # r) = Inr (n, c # r)"
proof -
  have "takeWhile is_ident (n @ c # r) = n" "dropWhile is_ident (n @ c # r) = c # r"
    using assms by (auto simp: name_ok_def list_all_iff takeWhile_append2 dropWhile_append2)
  then show ?thesis using assms(1) by (simp add: ident_def name_ok_def)
qed

lemma is_ident_punct [simp]:
  "\<not> is_ident (CHR ''>'')" "\<not> is_ident (CHR ''/'')" "\<not> is_ident (CHR ''='')" "\<not> is_ident (CHR '' '')"
  "\<not> is_ident (CHR ''<'')" "\<not> is_ident (CHR ''?'')"
  by (simp_all add: is_ident_def byte_between_def)

lemma is_ws_punct [simp]:
  "is_ws (CHR '' '')" "is_ws NL" "\<not> is_ws (CHR ''>'')" "\<not> is_ws (CHR ''/'')" "\<not> is_ws (CHR ''<'')"
  by (simp_all add: is_ws_def)

lemma is_ident_not: "is_ident c \<Longrightarrow> \<not> is_ws c \<and> c \<noteq> CHR ''>'' \<and> c \<noteq> CHR ''/'' \<and> c \<noteq> CHR ''?'' \<and> c \<noteq> CHR ''<''"
  by (auto simp: is_ident_def byte_between_def is_ws_def)

lemma closeTag_name [wire_simps]:
  "name_ok n \<Longrightarrow> closeTag (CHR ''<'' # CHR ''/'' # n @ CHR ''>'' # r) = Inr (n, r)"
  by (simp add: closeTag_def expect_def ident_name)

lemma text_body_escape:
  assumes "name_ok tag"
  shows "length acc + length v \<le> maxToken \<Longrightarrow>
    text_body tag acc (xmlEscape v @ CHR ''<'' # CHR ''/'' # tag @ CHR ''>'' # r) = Inr (acc @ v, r)"
proof (induction v arbitrary: acc)
  case Nil
  show ?case using assms by (subst text_body.simps) (simp add: closeTag_name)
next
  case (Cons c v)
  have step: "text_body tag acc (xmlEscape1 c @ s) = text_body tag (acc @ [c]) s" for s
    using Cons.prems entity_xmlEscape1 [of s]
    by (subst text_body.simps) (auto simp: xmlEscape1_def)
  show ?case using Cons.IH [of "acc @ [c]"] Cons.prems by (simp add: step)
qed

lemma textUntilClose_escape [wire_simps]:
  "\<lbrakk>name_ok tag; length v \<le> maxToken\<rbrakk> \<Longrightarrow>
    textUntilClose tag (xmlEscape v @ CHR ''<'' # CHR ''/'' # tag @ CHR ''>'' # r) = Inr (v, r)"
  by (simp add: textUntilClose_def text_body_escape)

subsection \<open>Attributes\<close>

definition attr_text :: "attr \<Rightarrow> string" where
  "attr_text a = '' '' @ fst a @ ''='' @ [SQUOTE] @ xmlEscape (snd a) @ [SQUOTE]"

definition attrs_text :: "attr list \<Rightarrow> string" where
  "attrs_text as = concat (map attr_text as)"

definition opt :: "string \<Rightarrow> string \<Rightarrow> attr list" where
  "opt n v = (if v = [] then [] else [(n, v)])"

definition attr_ok :: "attr \<Rightarrow> bool" where
  "attr_ok a \<longleftrightarrow> name_ok (fst a) \<and> length (snd a) \<le> maxToken"

lemma attrs_text_simps:
  "attrs_text [] = []" "attrs_text (a # as) = attr_text a @ attrs_text as"
  "attrs_text (as @ bs) = attrs_text as @ attrs_text bs"
  by (simp_all add: attrs_text_def)

lemma optAttr_text: "optAttr n v = attrs_text (opt n v)"
  by (simp add: optAttr_def opt_def attrs_text_def attr_text_def)

lemma attrs_loop_attr:
  assumes "attr_ok a"
  shows "attrs_loop name acc (attr_text a @ r) = attrs_loop name (acc @ [a]) r"
proof -
  obtain n v where a: "a = (n, v)" by fastforce
  obtain c n' where n: "n = c # n'" "is_ident c"
    using assms by (cases n) (auto simp: attr_ok_def name_ok_def a)
  have id: "ident (c # n' @ CHR ''='' # s) = Inr (n, CHR ''='' # s)" for s
    using ident_name [of n "CHR ''=''" s] assms by (simp add: attr_ok_def a n)
  have "attrs_loop name acc (attr_text a @ r) =
      attrs_loop name acc (n @ CHR ''='' # SQUOTE # xmlEscape v @ SQUOTE # r)"
    by (subst attrs_loop.simps) (simp add: attr_text_def a)
  also have "\<dots> = attrs_loop name (acc @ [a]) r"
    using assms is_ident_not [OF n(2)]
    by (subst attrs_loop.simps) (simp add: a n id expect_def quoted_escape attr_ok_def)
  finally show ?thesis .
qed

lemma attrs_loop_text:
  "list_all attr_ok as \<Longrightarrow> attrs_loop name acc (attrs_text as @ r) = attrs_loop name (acc @ as) r"
  by (induction as arbitrary: acc) (auto simp: attrs_text_simps attrs_loop_attr)

lemma attrs_loop_end:
  "attrs_loop name acc (CHR ''>'' # r) = Inr ((name, acc, False), r)"
  "attrs_loop name acc (CHR ''/'' # CHR ''>'' # r) = Inr ((name, acc, True), r)"
  by (subst attrs_loop.simps; simp)+

lemma ident_attrs_text:
  "\<lbrakk>name_ok n; \<not> is_ident c\<rbrakk> \<Longrightarrow> ident (n @ attrs_text as @ c # r) = Inr (n, attrs_text as @ c # r)"
  by (cases as) (auto simp: attrs_text_simps attr_text_def ident_name)

lemma startTag_text [wire_simps]:
  assumes "name_ok n" "list_all attr_ok as"
  shows "startTag (CHR ''<'' # n @ attrs_text as @ CHR ''>'' # r) = Inr ((n, as, False), r)"
    "startTag (CHR ''<'' # n @ attrs_text as @ CHR ''/'' # CHR ''>'' # r) = Inr ((n, as, True), r)"
  using assms by (simp_all add: startTag_def ident_attrs_text attrs_loop_text attrs_loop_end)

lemma skipToTag_space [wire_simps]: "is_ws c \<Longrightarrow> skipToTag diag (c # s) = skipToTag diag s"
  by (subst skipToTag.simps) (auto simp: is_ws_def)

lemma skipToTag_tag [wire_simps]: "skipToTag diag (CHR ''<'' # s) = ([], Inr (CHR ''<'' # s))"
  by (subst skipToTag.simps) simp

lemma peek_name [wire_simps]:
  assumes "name_ok n"
  shows "\<not> peekClose (CHR ''<'' # n @ s)" "\<not> peekPI (CHR ''<'' # n @ s)"
  using assms by (cases n; auto simp: name_ok_def peekClose_def peekPI_def dest: is_ident_not)+

lemma peekClose_close [wire_simps]: "peekClose (CHR ''<'' # CHR ''/'' # s)"
  by (simp add: peekClose_def)

subsection \<open>Numbers\<close>

lemma number_char_plain: "number_char c \<Longrightarrow> solid c \<and> xmlEscape1 c = [c]"
proof (cases "is_digit c")
  case True
  then have b: "48 \<le> (of_char c :: nat)" "of_char c \<le> (57 :: nat)" by (auto simp: is_digit_def byte_between_def)
  then have ne: "of_char d < (48 :: nat) \<or> 57 < (of_char d :: nat) \<Longrightarrow> c \<noteq> d" for d by auto
  have "\<not> ascii_space c" unfolding ascii_space_def insert_iff empty_iff de_Morgan_disj
    by (intro conjI ne) simp_all
  moreover have "xmlEscape1 c = [c]" using ne unfolding xmlEscape1_def by simp
  ultimately show ?thesis using b by (simp add: solid_def)
next
  case False
  moreover assume "number_char c"
  ultimately have "c \<in> set ''.-+eInfNa''" by (simp add: number_char_def)
  moreover have "\<forall>d \<in> set ''.-+eInfNa''. solid d \<and> xmlEscape1 d = [d]" by code_simp
  ultimately show ?thesis by blast
qed

lemma xmlEscape_plain: "list_all (\<lambda>c. xmlEscape1 c = [c]) s \<Longrightarrow> xmlEscape s = s"
  by (induction s) auto

lemma xmlEscape_format20g [simp]: "f64_ok v \<Longrightarrow> xmlEscape (format20g v) = format20g v"
  using format20g_text(1) [of v] by (intro xmlEscape_plain) (auto simp: list_all_iff number_char_plain)

lemma TrimSpace_list_all: "list_all solid s \<Longrightarrow> TrimSpace s = s"
  by (intro TrimSpace_solid) (auto simp: list_all_iff)

lemma TrimSpace_format20g [simp]: "f64_ok v \<Longrightarrow> TrimSpace (format20g v) = format20g v"
  using format20g_text(1) [of v]
  by (intro TrimSpace_list_all) (auto simp: list_all_iff number_char_plain)

lemma length_format20g [simp]: "f64_ok v \<Longrightarrow> length (format20g v) \<le> maxToken"
  using format20g_text(2) [of v] by (simp add: maxToken_def)

text \<open>The client's and the server's spelling of a number is read back exactly.\<close>

lemma ParseNumber_format20g [simp]: "f64_ok v \<Longrightarrow> ParseNumber (format20g v) = (v, True)"
  by (simp add: ParseNumber_def ParseFloat_format20g Let_def)

lemma parse_uint_digits:
  "digits s \<Longrightarrow> n * 10 ^ length s + val10 s < 2 ^ 64 \<Longrightarrow> parse_uint n s = Some (n * 10 ^ length s + val10 s)"
proof (induction s arbitrary: n)
  case (Cons c s)
  have "(10 * n + digit_val c) * 10 ^ length s + val10 s < 2 ^ 64"
    using Cons.prems(2) by (simp add: val10_Cons algebra_simps)
  moreover have "10 * n + digit_val c \<le> (10 * n + digit_val c) * 10 ^ length s + val10 s"
    by (simp add: trans_le_add1)
  ultimately show ?case
    using Cons.IH [of "10 * n + digit_val c"] Cons.prems(1) by (simp add: val10_Cons algebra_simps)
qed simp

lemma ParseInt64_show_int:
  assumes "- (2 ^ 63) \<le> n" "n < 2 ^ 63" shows "ParseInt64 (show_int n) = n"
proof -
  have d: "digits (dec k)" "dec k \<noteq> []" for k using dec_digits by auto
  have "strip_sign (dec k) = (False, dec k)" for k
    using d(1,2) [of k] digit_not_special [of "hd (dec k)"]
    by (cases "dec k") (auto simp: strip_sign_def)
  moreover have "strip_sign (CHR ''-'' # dec k) = (True, dec k)" for k by (simp add: strip_sign_def)
  moreover have "parse_uint 0 (dec (nat \<bar>n\<bar>)) = Some (nat \<bar>n\<bar>)"
    using assms parse_uint_digits [OF d(1), of 0 "nat \<bar>n\<bar>"] by simp
  ultimately show ?thesis
    using assms d(2) by (cases "n < 0") (auto simp: ParseInt64_def show_int_def)
qed

lemma show_int_text:
  assumes "- (2 ^ 63) \<le> n" "n < 2 ^ 63"
  shows "xmlEscape (show_int n) = show_int n" "length (show_int n) \<le> maxToken"
proof -
  have "list_all number_char (show_int n)"
    using dec_digits digits_number_char by (simp add: show_int_def) (simp add: number_char_def)
  then show "xmlEscape (show_int n) = show_int n"
    by (intro xmlEscape_plain) (auto simp: list_all_iff number_char_plain)
  have "nat \<bar>n\<bar> < 10 ^ Suc 19" using assms by auto
  from length_dec_le [OF this] show "length (show_int n) \<le> maxToken"
    by (cases "n < 0") (auto simp: show_int_def maxToken_def)
qed

subsection \<open>What the wire carries\<close>

definition range_list :: "Member \<Rightarrow> attr list" where
  "range_list m = [(''min'', format20g (m_Min m)), (''max'', format20g (m_Max m)),
     (''step'', format20g (m_Step m))]"

definition member_attrs :: "VType \<Rightarrow> string option gomap \<Rightarrow> bool \<Rightarrow> Member \<Rightarrow> attr list" where
  "member_attrs t blobs def m =
     (''name'', m_Name m) #
     (if def then opt ''label'' (m_Label m) @
        (if t = Number then opt ''format'' (m_Format m) @ range_list m else [])
      else if t = Number \<and> m_HasRange m then range_list m else []) @
     (if t = BLOB \<and> \<not> def then
        (''size'', show_int (blob_size blobs m)) # opt ''format'' (m_BlobFormat m)
      else [])"

definition member_meta :: "Element \<Rightarrow> string option gomap \<Rightarrow> Member \<Rightarrow> BlobMeta" where
  "member_meta el blobs m =
     \<lparr>bm_Device = e_Device el, bm_Property = e_Name el, bm_Member = m_Name m,
      bm_Format = m_BlobFormat m, bm_Size = blob_size blobs m\<rparr>"

definition member_view :: "sink \<Rightarrow> Element \<Rightarrow> string option gomap \<Rightarrow> bool \<Rightarrow> Member \<Rightarrow> Member" where
  "member_view sink el blobs def m =
     (let t = e_Type el; ranged = (t = Number \<and> (def \<or> m_HasRange m)); blob = (t = BLOB \<and> \<not> def);
          size = (if blob then blob_size blobs m else 0); p = blob_payload blobs m
      in \<lparr>m_Name = m_Name m, m_Label = (if def then m_Label m else []),
          m_Value = (if t = Number then m_Value m else Fin 0),
          m_Min = (if ranged then m_Min m else Fin 0), m_Max = (if ranged then m_Max m else Fin 0),
          m_Step = (if ranged then m_Step m else Fin 0), m_HasRange = ranged,
          m_Format = (if def \<and> t = Number then m_Format m else []),
          m_Text = (case t of BLOB \<Rightarrow> [] | Text \<Rightarrow> TrimSpace (m_Text m)
            | _ \<Rightarrow> writeMemberValue t m blobs def),
          m_On = (t = Switch \<and> m_On m), m_LightState = (if t = Light then m_LightState m else Idle),
          m_BlobFormat = (if blob then m_BlobFormat m else []), m_Size = size, m_Attached = False,
          m_Data = (if blob \<and> \<not> sink (member_meta el blobs m) \<and> (p \<noteq> [] \<or> 0 < size)
            then Some p else None)\<rparr>)"

definition element_view :: "sink \<Rightarrow> string option gomap \<Rightarrow> Element \<Rightarrow> Element" where
  "element_view sink blobs el =
     (let k = e_Kind el; def = (k = KindDef); vec = (def \<or> k = KindSet) in
      \<lparr>e_Kind = k, e_Type = (if vec then e_Type el else Number),
       e_Rule = (if def \<and> e_Type el = Switch then e_Rule el else OneOfMany),
       e_Perm = (if def then e_Perm el else ReadOnly), e_State = (if vec then e_State el else Idle),
       e_Device = e_Device el, e_Name = (if k = KindMessage then [] else e_Name el),
       e_Label = (if def then e_Label el else []), e_Group = (if def then e_Group el else []),
       e_Timestamp = e_Timestamp el, e_Message = e_Message el,
       e_Members = (if vec then map (member_view sink el blobs def) (e_Members el) else [])\<rparr>)"

text \<open>The bounds within which the parser accepts: its token and member limits, and the
  integer and allocation range of a BLOB size.\<close>

definition member_wf :: "VType \<Rightarrow> string option gomap \<Rightarrow> Member \<Rightarrow> bool" where
  "member_wf t blobs m \<longleftrightarrow> member_ok m \<and>
     list_all (\<lambda>s. length s \<le> maxToken) [m_Name m, m_Label m, m_Format m, m_Text m, m_BlobFormat m] \<and>
     (t = BLOB \<longrightarrow> - (2 ^ 63) \<le> blob_size blobs m \<and> blob_size blobs m \<le> maxAlloc)"

definition element_wf :: "string option gomap \<Rightarrow> Element \<Rightarrow> bool" where
  "element_wf blobs el \<longleftrightarrow>
     list_all (\<lambda>s. length s \<le> maxToken)
       [e_Device el, e_Name el, e_Label el, e_Group el, e_Timestamp el, e_Message el] \<and>
     length (e_Members el) \<le> maxMembers \<and> list_all (member_wf (e_Type el) blobs) (e_Members el)"

subsection \<open>Members\<close>

definition mtag :: "bool \<Rightarrow> VType \<Rightarrow> string" where
  "mtag def t = (if def then ''def'' else ''one'') @ memberTag t"

lemma name_ok_const [simp]:
  "name_ok ''name''" "name_ok ''label''" "name_ok ''format''" "name_ok ''min''" "name_ok ''max''"
  "name_ok ''step''" "name_ok ''size''" "name_ok ''device''" "name_ok ''group''" "name_ok ''state''"
  "name_ok ''perm''" "name_ok ''rule''" "name_ok ''timestamp''" "name_ok ''message''"
  "name_ok ''delProperty''" "name_ok ''getProperties''" "name_ok ''enableBLOB''" "name_ok ''pingReply''"
  "name_ok ''uid''" "name_ok ''version''"
  by (simp_all add: name_ok_def maxToken_def is_ident_def byte_between_def)

lemma name_ok_mtag [simp]: "name_ok (mtag def t)" "name_ok (pre @ vectorTag t) \<longleftrightarrow> list_all is_ident pre \<and> length pre + length (vectorTag t) < maxToken"
  by (cases def; cases t; simp add: mtag_def memberTag_def name_ok_def maxToken_def is_ident_def byte_between_def)
    (cases t; simp add: vectorTag_def name_ok_def is_ident_def byte_between_def)

lemma list_all_opt [simp]: "list_all P (opt n v) \<longleftrightarrow> v = [] \<or> P (n, v)"
  by (simp add: opt_def)

lemma maxAlloc_int64: "s \<le> maxAlloc \<Longrightarrow> s < 2 ^ 63"
  by (simp add: maxAlloc_def)

lemma attrs_text_member:
  assumes "member_wf t blobs m"
  shows "list_all attr_ok (member_attrs t blobs def m)"
    "encodeMember t blobs def m =
      ''  <'' @ mtag def t @ attrs_text (member_attrs t blobs def m) @ CHR ''>'' #
        writeMemberValue t m blobs def @ CHR ''<'' # CHR ''/'' # mtag def t @ CHR ''>'' # [NL]"
proof -
  have ok: "f64_ok (m_Min m)" "f64_ok (m_Max m)" "f64_ok (m_Step m)"
    using assms by (auto simp: member_wf_def member_ok_def)
  have sz: "t = BLOB \<Longrightarrow> xmlEscape (show_int (blob_size blobs m)) = show_int (blob_size blobs m) \<and>
      length (show_int (blob_size blobs m)) \<le> maxToken"
    using assms show_int_text [of "blob_size blobs m"] maxAlloc_int64 by (auto simp: member_wf_def)
  show "list_all attr_ok (member_attrs t blobs def m)"
    using assms ok sz by (auto simp: member_attrs_def range_list_def attr_ok_def member_wf_def)
  show "encodeMember t blobs def m =
      ''  <'' @ mtag def t @ attrs_text (member_attrs t blobs def m) @ CHR ''>'' #
        writeMemberValue t m blobs def @ CHR ''<'' # CHR ''/'' # mtag def t @ CHR ''>'' # [NL]"
    using ok sz
    by (cases t; simp add: encodeMember_def mtag_def member_attrs_def range_list_def range_attrs_def
        optAttr_text attrs_text_simps attr_text_def)
qed

lemma fold_opt: "fold f (opt n v) x = (if v = [] then x else f (n, v) x)"
  by (simp add: opt_def)

lemma memberAttrs_member:
  assumes "member_wf t blobs m"
  shows "memberAttrs t (member_attrs t blobs def m) =
    zero_member\<lparr>m_Name := m_Name m, m_Label := (if def then m_Label m else []),
      m_Min := (if t = Number \<and> (def \<or> m_HasRange m) then m_Min m else Fin 0),
      m_Max := (if t = Number \<and> (def \<or> m_HasRange m) then m_Max m else Fin 0),
      m_Step := (if t = Number \<and> (def \<or> m_HasRange m) then m_Step m else Fin 0),
      m_HasRange := t = Number \<and> (def \<or> m_HasRange m),
      m_Format := (if def \<and> t = Number then m_Format m else []),
      m_BlobFormat := (if t = BLOB \<and> \<not> def then m_BlobFormat m else []),
      m_Size := (if t = BLOB \<and> \<not> def then blob_size blobs m else 0)\<rparr>"
proof -
  have ok: "f64_ok (m_Min m)" "f64_ok (m_Max m)" "f64_ok (m_Step m)"
    using assms by (auto simp: member_wf_def member_ok_def)
  have sz: "t = BLOB \<Longrightarrow> ParseInt64 (show_int (blob_size blobs m)) = blob_size blobs m"
    using assms maxAlloc_int64 by (auto simp: member_wf_def ParseInt64_show_int)
  show ?thesis
    using ok sz
    by (simp add: memberAttrs_def member_attrs_def range_list_def fold_opt memberAttr_def zero_member_def)
qed

lemma blob_loop_close:
  "name_ok tag \<Longrightarrow> blob_loop sunk tag [] buf (CHR ''<'' # CHR ''/'' # tag @ CHR ''>'' # r) =
     Inr (if sunk then None else buf, r)"
  by (simp add: closeTag_name)

lemma blobContent_member:
  assumes "member_wf BLOB blobs m" "e_Type e = BLOB"
  shows "blobContent sink e (memberAttrs BLOB (member_attrs BLOB blobs def m)) (mtag def BLOB)
      (writeMemberValue BLOB m blobs def @ CHR ''<'' # CHR ''/'' # mtag def BLOB @ CHR ''>'' # r)
    = Inr (member_view sink e blobs def m, r)"
  using assms
  by (cases def)
    (auto simp: memberAttrs_member blobContent_def Let_def writeMemberValue_def blob_loop_b64encode
      blob_loop_close member_view_def member_meta_def zero_member_def member_wf_def
      simp del: blob_loop.simps)

text \<open>The text of a member that is not a BLOB, as the escape of what the member prints.\<close>

definition plain_value :: "VType \<Rightarrow> Member \<Rightarrow> string" where
  "plain_value t m = (case t of Number \<Rightarrow> format20g (m_Value m)
     | Switch \<Rightarrow> (if m_On m then ''On'' else ''Off'') | Light \<Rightarrow> State_String (m_LightState m) | _ \<Rightarrow> m_Text m)"

lemma State_text: "xmlEscape (State_String s) = State_String s" "length (State_String s) \<le> maxToken"
  "State_String s \<noteq> []" "TrimSpace (State_String s) = State_String s"
proof -
  show "xmlEscape (State_String s) = State_String s" "length (State_String s) \<le> maxToken"
    "State_String s \<noteq> []" by (cases s; simp add: xmlEscape1_def maxToken_def)+
  show "TrimSpace (State_String s) = State_String s"
    by (rule TrimSpace_list_all) (cases s; simp add: solid_def ascii_space_def)
qed

lemma On_text: "TrimSpace ''On'' = ''On''" "TrimSpace ''Off'' = ''Off''"
  by (rule TrimSpace_list_all; simp add: solid_def ascii_space_def)+

lemma writeMemberValue_plain:
  assumes "member_wf t blobs m" "t \<noteq> BLOB"
  shows "writeMemberValue t m blobs def = xmlEscape (plain_value t m)" "length (plain_value t m) \<le> maxToken"
proof -
  have "f64_ok (m_Value m)" using assms by (simp add: member_wf_def member_ok_def)
  then show "writeMemberValue t m blobs def = xmlEscape (plain_value t m)"
    using assms(2) by (cases t) (auto simp: writeMemberValue_def plain_value_def State_text xmlEscape1_def)
  show "length (plain_value t m) \<le> maxToken"
    using assms \<open>f64_ok (m_Value m)\<close>
    by (cases t) (auto simp: plain_value_def State_text member_wf_def, auto simp: maxToken_def)
qed

lemma memberValue_member:
  assumes "member_wf t blobs m" "t \<noteq> BLOB" "e_Type e = t"
  shows "memberValue t (memberAttrs t (member_attrs t blobs def m)) (plain_value t m)
    = member_view sink e blobs def m"
proof -
  have "f64_ok (m_Value m)" using assms by (simp add: member_wf_def member_ok_def)
  then show ?thesis
    unfolding memberAttrs_member [OF assms(1)] using assms(2,3)
    by (cases t)
      (auto simp: memberValue_def member_view_def plain_value_def
        writeMemberValue_def State_text On_text zero_member_def Let_def)
qed

lemma members_one:
  assumes "member_wf t blobs m" "e_Type e = t" "length (e_Members e) < maxMembers"
  shows "members sink ct (mtag def t) e u (encodeMember t blobs def m @ s) =
    members sink ct (mtag def t) (e\<lparr>e_Members := e_Members e @ [member_view sink e blobs def m]\<rparr>) u
      (NL # s)"
proof -
  have skip: "skipToTag False (encodeMember t blobs def m @ s) =
      ([], Inr (CHR ''<'' # mtag def t @ attrs_text (member_attrs t blobs def m) @ CHR ''>'' #
        writeMemberValue t m blobs def @ CHR ''<'' # CHR ''/'' # mtag def t @ CHR ''>'' # NL # s))"
    by (simp add: attrs_text_member(2) [OF assms(1)] skipToTag_space skipToTag_tag)
  note step = members.simps [of sink ct "mtag def t" e u "encodeMember t blobs def m @ s", unfolded skip]
  show ?thesis
  proof (cases "t = BLOB")
    case True
    then show ?thesis
      using assms attrs_text_member(1) [OF assms(1)]
      by (subst step) (simp add: peek_name startTag_text blobContent_member not_le)
  next
    case False
    then show ?thesis
      using assms attrs_text_member(1) [OF assms(1)] writeMemberValue_plain [OF assms(1) False]
      by (subst step) (simp add: peek_name startTag_text textUntilClose_escape
          memberValue_member [where sink = sink] not_le)
  qed
qed

lemma members_space: "members sink ct childTag e u (NL # s) = members sink ct childTag e u s"
  by (subst (1 2) members.simps) (simp add: skipToTag_space)

lemma members_all:
  assumes "list_all (member_wf t blobs) ms" "e_Type e = t" "length (e_Members e) + length ms \<le> maxMembers"
    "name_ok ct"
  shows "members sink ct (mtag def t) e u
      (concat (map (encodeMember t blobs def) ms) @ CHR ''<'' # CHR ''/'' # ct @ CHR ''>'' # r) =
    (Inr (e\<lparr>e_Members := e_Members e @ map (member_view sink e blobs def) ms\<rparr>, r), u)"
  using assms
proof (induction ms arbitrary: e)
  case Nil
  then show ?case by (subst members.simps) (simp add: skipToTag_tag peekClose_close closeTag_name)
next
  case (Cons m ms)
  let ?e = "e\<lparr>e_Members := e_Members e @ [member_view sink e blobs def m]\<rparr>"
  have "member_view sink ?e blobs def = member_view sink e blobs def"
    by (rule ext) (simp add: member_view_def member_meta_def)
  then show ?case
    using Cons.IH [of ?e] Cons.prems members_one [of t blobs m e sink ct def]
    by (simp add: members_space)
qed

subsection \<open>Elements\<close>

lemma next_loop_space: "is_ws c \<Longrightarrow> next_loop diag sink u ds (c # s) = next_loop diag sink u ds s"
  by (subst (1 2) next_loop.simps) (simp add: skipToTag_space)

lemma next_loop_vector:
  assumes "name_ok name" "vector_tag name = Some (k, t, mtag def t)" "list_all attr_ok as"
    "list_all (member_wf t blobs) ms" "length ms \<le> maxMembers"
    "e = vectorAttrs as (zero_element\<lparr>e_Kind := k, e_Type := t\<rparr>)" "e_Type e = t" "e_Members e = []"
  shows "next_loop diag sink u ds (CHR ''<'' # name @ attrs_text as @ CHR ''>'' # NL #
      concat (map (encodeMember t blobs def) ms) @ CHR ''<'' # CHR ''/'' # name @ CHR ''>'' # r) =
    \<lparr>po_res = Inr (e\<lparr>e_Members := map (member_view sink e blobs def) ms\<rparr>, r),
     po_unknown = u, po_diag = ds\<rparr>"
  using assms
  by (subst next_loop.simps)
    (simp add: skipToTag_tag peek_name startTag_text members_space members_all)

lemma next_loop_simple:
  assumes "name_ok name" "vector_tag name = None" "simple_tag name = Some k" "list_all attr_ok as"
  shows "next_loop diag sink u ds (CHR ''<'' # name @ attrs_text as @ CHR ''/'' # CHR ''>'' # r) =
    \<lparr>po_res = simple_element k name as True r, po_unknown = u, po_diag = ds\<rparr>"
    "next_loop diag sink u ds (CHR ''<'' # name @ attrs_text as @ CHR ''>'' # r) =
    \<lparr>po_res = simple_element k name as False r, po_unknown = u, po_diag = ds\<rparr>"
  using assms by (subst next_loop.simps, simp add: skipToTag_tag peek_name startTag_text)+

definition vtag :: "bool \<Rightarrow> VType \<Rightarrow> string" where
  "vtag def t = (if def then ''def'' else ''set'') @ vectorTag t"

lemma vtag_ok: "name_ok (vtag def t)"
  "vector_tag (vtag def t) = Some (if def then KindDef else KindSet, t, mtag def t)"
proof -
  show "name_ok (vtag def t)"
    by (cases t; cases def) (simp_all add: vtag_def vectorTag_def is_ident_def byte_between_def maxToken_def name_ok_def)
  show "vector_tag (vtag def t) = Some (if def then KindDef else KindSet, t, mtag def t)"
    by (cases t; cases def)
      (simp_all add: vtag_def vectorTag_def vector_tag_def HasPrefix_def HasSuffix_def vtypeOf_def
        mtag_def memberTag_def)
qed

definition vector_attrs :: "bool \<Rightarrow> Element \<Rightarrow> attr list" where
  "vector_attrs def el =
     opt ''device'' (e_Device el) @ opt ''name'' (e_Name el) @
     (if def then opt ''label'' (e_Label el) @ opt ''group'' (e_Group el) else []) @
     opt ''state'' (State_String (e_State el)) @
     (if def then opt ''perm'' (Perm_String (e_Perm el)) @
        (if e_Type el = Switch then opt ''rule'' (Rule_String (e_Rule el)) else []) else []) @
     opt ''timestamp'' (e_Timestamp el) @ opt ''message'' (e_Message el)"

lemma Perm_Rule_text: "Perm_String p \<noteq> []" "Rule_String r \<noteq> []"
  "length (Perm_String p) \<le> maxToken" "length (Rule_String r) \<le> maxToken"
  by (cases p; cases r; simp add: maxToken_def)+

lemma encodeVector_text:
  "encodeVector el blobs def = CHR ''<'' # vtag def (e_Type el) @ attrs_text (vector_attrs def el) @
     CHR ''>'' # NL # concat (map (encodeMember (e_Type el) blobs def) (e_Members el)) @
     CHR ''<'' # CHR ''/'' # vtag def (e_Type el) @ CHR ''>'' # [NL]"
  by (simp add: encodeVector_def vtag_def vector_attrs_def optAttr_text attrs_text_simps)

lemma vector_attrs_ok: "element_wf blobs el \<Longrightarrow> list_all attr_ok (vector_attrs def el)"
  by (auto simp: vector_attrs_def element_wf_def attr_ok_def State_text Perm_Rule_text)

lemma vectorAttrs_vector:
  "vectorAttrs (vector_attrs def el) (zero_element\<lparr>e_Kind := k, e_Type := t\<rparr>) =
    zero_element\<lparr>e_Kind := k, e_Type := t, e_Device := e_Device el, e_Name := e_Name el,
      e_Label := (if def then e_Label el else []), e_Group := (if def then e_Group el else []),
      e_State := e_State el, e_Perm := (if def then e_Perm el else ReadOnly),
      e_Rule := (if def \<and> e_Type el = Switch then e_Rule el else OneOfMany),
      e_Timestamp := e_Timestamp el, e_Message := e_Message el\<rparr>"
  by (simp add: vectorAttrs_def vector_attrs_def fold_opt vectorAttr_def State_text Perm_Rule_text
      zero_element_def)

lemma next_loop_encodeVector:
  assumes "element_wf blobs el" "e_Kind el = (if def then KindDef else KindSet)"
  shows "next_loop diag sink u ds (encodeVector el blobs def @ r) =
    \<lparr>po_res = Inr (element_view sink blobs el, NL # r), po_unknown = u, po_diag = ds\<rparr>"
proof -
  define e where
    "e = vectorAttrs (vector_attrs def el) (zero_element\<lparr>e_Kind := e_Kind el, e_Type := e_Type el\<rparr>)"
  note e = trans [OF e_def vectorAttrs_vector, unfolded zero_element_def, simplified]
  have "member_view sink e blobs def = member_view sink el blobs def"
    by (rule ext) (simp add: member_view_def member_meta_def e)
  then have view: "e\<lparr>e_Members := map (member_view sink e blobs def) (e_Members el)\<rparr> =
      element_view sink blobs el"
    using assms(2) by (auto simp: element_view_def e Let_def)
  have "e_Type e = e_Type el" "e_Members e = []" by (simp_all add: e)
  moreover have "list_all (member_wf (e_Type el) blobs) (e_Members el)" "length (e_Members el) \<le> maxMembers"
    using assms(1) by (auto simp: element_wf_def)
  ultimately show ?thesis
    unfolding encodeVector_text view [symmetric]
    using next_loop_vector [OF vtag_ok(1) _ vector_attrs_ok [OF assms(1)] _ _ e_def] vtag_ok(2) assms(2)
    by simp
qed

lemmas simple_eval = attr_ok_def vector_tag_def HasPrefix_def HasSuffix_def simple_tag_def
  simple_element_def vectorAttrs_def fold_opt vectorAttr_def zero_element_def Let_def

text \<open>Every server message within the parser's limits is read back as its view, and the
  parser stops right behind it.\<close>

lemma next_loop_encodeElement:
  assumes "element_wf blobs el" "encodeElement el blobs = Inr w"
  shows "next_loop diag sink u ds (w @ r) =
    \<lparr>po_res = Inr (element_view sink blobs el, NL # r), po_unknown = u, po_diag = ds\<rparr>"
proof -
  consider "e_Kind el = KindMessage" | "e_Kind el = KindDel" | "e_Kind el = KindDef" | "e_Kind el = KindSet"
    using assms(2) by (cases "e_Kind el") (auto simp: encodeElement_def)
  then show ?thesis
  proof cases
    case 1
    let ?as = "opt ''device'' (e_Device el) @ opt ''timestamp'' (e_Timestamp el) @ opt ''message'' (e_Message el)"
    have w: "w @ r = CHR ''<'' # ''message'' @ attrs_text ?as @ CHR ''/'' # CHR ''>'' # NL # r"
      using assms(2) 1 by (auto simp: encodeElement_def optAttr_text attrs_text_simps)
    show ?thesis unfolding w
      using assms(1) 1
      by (subst next_loop_simple(1) [where k = KindMessage])
        (auto simp: element_wf_def element_view_def simple_eval)
  next
    case 2
    let ?as = "opt ''device'' (e_Device el) @ opt ''name'' (e_Name el) @
      opt ''timestamp'' (e_Timestamp el) @ opt ''message'' (e_Message el)"
    have w: "w @ r = CHR ''<'' # ''delProperty'' @ attrs_text ?as @ CHR ''/'' # CHR ''>'' # NL # r"
      using assms(2) 2 by (auto simp: encodeElement_def optAttr_text attrs_text_simps)
    show ?thesis unfolding w
      using assms(1) 2
      by (subst next_loop_simple(1) [where k = KindDel])
        (auto simp: element_wf_def element_view_def simple_eval)
  next
    case 3
    then show ?thesis using next_loop_encodeVector [OF assms(1), of True] assms(2)
      by (auto simp: encodeElement_def)
  next
    case 4
    then show ?thesis using next_loop_encodeVector [OF assms(1), of False] assms(2)
      by (auto simp: encodeElement_def)
  qed
qed

subsection \<open>Streams\<close>

definition new_parser :: "bool \<Rightarrow> sink \<Rightarrow> string \<Rightarrow> parser" where
  "new_parser diag sink s =
     \<lparr>p_in = s, p_err = None, p_Unknown = 0, p_lines = [], p_diagnostic = diag, p_sink = sink\<rparr>"

declare parse_all.simps [simp del]

lemma parse_all_space:
  assumes "is_ws c" "p_err p = None" "p_in p = c # s" shows "parse_all p = parse_all (p\<lparr>p_in := s\<rparr>)"
proof -
  have "parser_next p = (let x = parser_next (p\<lparr>p_in := s\<rparr>) in
      (fst x, if isl (fst x) then (snd x)\<lparr>p_in := c # s\<rparr> else snd x))"
    using assms by (simp add: parser_next_def next_loop_space Let_def split: sum.splits)
  then show ?thesis
    using assms(2) by (subst (1 2) parse_all.simps) (auto simp: Let_def split: sum.splits prod.splits)
qed

lemma parse_all_element:
  assumes "element_wf blobs el" "encodeElement el blobs = Inr w" "p_err p = None" "p_in p = w @ s"
  shows "parse_all p = apfst ((#) (element_view (p_sink p) blobs el)) (parse_all (p\<lparr>p_in := s\<rparr>))"
proof -
  have "parser_next p = (Inr (element_view (p_sink p) blobs el), p\<lparr>p_in := NL # s\<rparr>)"
    using assms(3,4) by (simp add: parser_next_def next_loop_encodeElement [OF assms(1,2)])
  then have "parse_all p = apfst ((#) (element_view (p_sink p) blobs el)) (parse_all (p\<lparr>p_in := NL # s\<rparr>))"
    using assms(3) by (subst parse_all.simps) (simp add: apfst_def map_prod_def split: prod.splits)
  then show ?thesis
    using assms(3) parse_all_space [of NL "p\<lparr>p_in := NL # s\<rparr>" s] by simp
qed

lemma parse_all_stream:
  assumes "list_all (\<lambda>(el, blobs). element_wf blobs el \<and> \<not> isl (encodeElement el blobs)) msgs"
    "p_err p = None" "p_in p = concat (map (\<lambda>(el, blobs). projr (encodeElement el blobs)) msgs)"
  shows "parse_all p = (map (\<lambda>(el, blobs). element_view (p_sink p) blobs el) msgs, PRead)"
  using assms
proof (induction msgs arbitrary: p)
  case Nil
  then have "parser_next p = (Inl PRead, p\<lparr>p_err := Some PRead\<rparr>)"
    by (simp add: parser_next_def next_loop.simps skipToTag.simps)
  then show ?case using Nil by (subst parse_all.simps) simp
next
  case (Cons x msgs)
  obtain el blobs where x: "x = (el, blobs)" by fastforce
  then obtain w where w: "encodeElement el blobs = Inr w" using Cons.prems(1) by (auto simp: isl_def) (metis sum.exhaust_sel)
  show ?case
    using Cons.prems Cons.IH [of "p\<lparr>p_in := concat (map (\<lambda>(el, blobs). projr (encodeElement el blobs)) msgs)\<rparr>"]
      parse_all_element [of blobs el w p] w by (simp add: x)
qed

text \<open>
  C1: a client that parses the concatenation of any server messages the encoder produces
  receives exactly their views, in order, and then the end of the stream, for either
  diagnostic setting and any BLOB sink.
\<close>

theorem server_stream_roundtrip:
  assumes "list_all (\<lambda>(el, blobs). element_wf blobs el \<and> \<not> isl (encodeElement el blobs)) msgs"
  shows "parse_all (new_parser diag sink (concat (map (\<lambda>(el, blobs). projr (encodeElement el blobs)) msgs)))
    = (map (\<lambda>(el, blobs). element_view sink blobs el) msgs, PRead)"
  using parse_all_stream [OF assms] by (simp add: new_parser_def)

theorem server_stream_roundtrip_witness:
  "parse_all (new_parser True (\<lambda>_. False) (projr (encodeElement
      (zero_element\<lparr>e_Kind := KindSet, e_Type := Text, e_Device := ''CCD<1>'', e_Name := ''X'',
        e_Members := [zero_member\<lparr>m_Name := ''A'', m_Text := ''a&b''\<rparr>]\<rparr>) []))) =
    ([zero_element\<lparr>e_Kind := KindSet, e_Type := Text, e_Device := ''CCD<1>'', e_Name := ''X'',
        e_Members := [zero_member\<lparr>m_Name := ''A'', m_Text := ''a&b''\<rparr>]\<rparr>], PRead)"
proof -
  let ?m = "zero_member\<lparr>m_Name := ''A'', m_Text := ''a&b''\<rparr>"
  let ?el = "zero_element\<lparr>e_Kind := KindSet, e_Type := Text, e_Device := ''CCD<1>'', e_Name := ''X'', e_Members := [?m]\<rparr>"
  have "element_wf [] ?el"
    using member_ok_zero
    by (simp add: element_wf_def member_wf_def member_ok_def zero_element_def zero_member_def
        maxToken_def maxMembers_def)
  moreover have "\<not> isl (encodeElement ?el [])" by (simp add: encodeElement_def)
  moreover have "TrimSpace ''a&b'' = ''a&b''"
    by (rule TrimSpace_list_all) (simp add: solid_def ascii_space_def)
  then have "element_view (\<lambda>_. False) [] ?el = ?el"
    by (simp add: element_view_def member_view_def zero_element_def zero_member_def Let_def)
  ultimately show ?thesis
    using server_stream_roundtrip [of "[(?el, [])]" True "\<lambda>_. False"] by simp
qed

subsection \<open>Commands\<close>

text \<open>A client's member is encoded as a member of a \<open>set\<close> vector without a range.\<close>

definition cmd_member :: "string \<Rightarrow> Member" where
  "cmd_member n = zero_member\<lparr>m_Name := n\<rparr>"

definition cmd_element :: "VType \<Rightarrow> string \<Rightarrow> string \<Rightarrow> Member list \<Rightarrow> Element" where
  "cmd_element t device vec ms =
     zero_element\<lparr>e_Kind := KindNew, e_Type := t, e_Device := device, e_Name := vec, e_Members := ms\<rparr>"

lemma oneMember_encode:
  "f64_ok v \<Longrightarrow> oneMember ''oneNumber'' n (format20g v) = encodeMember Number [] False (cmd_member n\<lparr>m_Value := v\<rparr>)"
  "oneMember ''oneSwitch'' n (xmlEscape (if b then ''On'' else ''Off'')) =
    encodeMember Switch [] False (cmd_member n\<lparr>m_On := b\<rparr>)"
  "oneMember ''oneText'' n (xmlEscape x) = encodeMember Text [] False (cmd_member n\<lparr>m_Text := x\<rparr>)"
  by (simp_all add: oneMember_def encodeMember_def memberTag_def writeMemberValue_def cmd_member_def
      zero_member_def xmlEscape1_def)

lemma next_loop_command:
  assumes "list_all (member_wf t []) ms" "length ms \<le> maxMembers" "length device \<le> maxToken"
    "length vec \<le> maxToken"
  shows "next_loop diag sink u ds (openVector (''new'' @ vectorTag t) device vec @
      concat (map (encodeMember t [] False) ms) @ ''</'' @ (''new'' @ vectorTag t) @ ''>'' @ r) =
    \<lparr>po_res = Inr (cmd_element t device vec
        (map (member_view sink (cmd_element t device vec []) [] False) ms), r),
     po_unknown = u, po_diag = ds\<rparr>"
proof -
  let ?name = "''new'' @ vectorTag t" and ?as = "opt ''device'' device @ opt ''name'' vec"
  have e: "cmd_element t device vec [] = vectorAttrs ?as (zero_element\<lparr>e_Kind := KindNew, e_Type := t\<rparr>)"
    by (simp add: cmd_element_def vectorAttrs_def fold_opt vectorAttr_def zero_element_def)
  have n: "name_ok ?name"
    by (cases t) (simp_all add: vectorTag_def is_ident_def byte_between_def maxToken_def name_ok_def)
  have vt: "vector_tag ?name = Some (KindNew, t, mtag False t)"
    by (cases t)
      (simp_all add: vectorTag_def vector_tag_def HasPrefix_def HasSuffix_def vtypeOf_def mtag_def memberTag_def)
  have ok: "list_all attr_ok ?as" using assms by (auto simp: attr_ok_def)
  have s: "openVector ?name device vec @ concat (map (encodeMember t [] False) ms) @ ''</'' @ ?name @ ''>'' @ r
    = CHR ''<'' # ?name @ attrs_text ?as @ CHR ''>'' # NL #
      concat (map (encodeMember t [] False) ms) @ CHR ''<'' # CHR ''/'' # ?name @ CHR ''>'' # r"
    by (simp add: openVector_def optAttr_text attrs_text_simps)
  show ?thesis
    unfolding s by (subst next_loop_vector [OF n vt ok assms(1,2) e])
      (simp_all add: cmd_element_def zero_element_def)
qed

definition cmd_ok :: "string \<Rightarrow> string \<Rightarrow> string list \<Rightarrow> bool" where
  "cmd_ok device vec ns \<longleftrightarrow> length device \<le> maxToken \<and> length vec \<le> maxToken \<and>
     length ns \<le> maxMembers \<and> list_all (\<lambda>n. length n \<le> maxToken) ns"

lemma cmd_member_wf:
  "t \<noteq> BLOB \<Longrightarrow> length n \<le> maxToken \<Longrightarrow> member_wf t [] (cmd_member n)"
  "\<lbrakk>member_wf t [] m; f64_ok v\<rbrakk> \<Longrightarrow> member_wf t [] (m\<lparr>m_Value := v\<rparr>)"
  "member_wf t [] m \<Longrightarrow> member_wf t [] (m\<lparr>m_On := b\<rparr>)"
  "\<lbrakk>member_wf t [] m; length x \<le> maxToken\<rbrakk> \<Longrightarrow> member_wf t [] (m\<lparr>m_Text := x\<rparr>)"
  using member_ok_zero
  by (auto simp: member_wf_def member_ok_def cmd_member_def zero_member_def blob_size_def blob_given_def)

lemmas command_eval = cmd_ok_def member_view_def cmd_element_def cmd_member_def zero_element_def
  zero_member_def writeMemberValue_def Let_def

lemma SetNumber_parse:
  assumes "cmd_ok device vec (map fst values)" "list_all (\<lambda>(n, v). f64_ok v) values"
  shows "next_loop diag sink u ds (SetNumber device vec values @ r) =
    \<lparr>po_res = Inr (cmd_element Number device vec
        (map (\<lambda>(n, v). (cmd_member n)\<lparr>m_Value := v, m_Text := format20g v\<rparr>) values), NL # r),
     po_unknown = u, po_diag = ds\<rparr>"
proof -
  let ?ms = "map (\<lambda>(n, v). (cmd_member n)\<lparr>m_Value := v\<rparr>) values"
  have wf: "list_all (member_wf Number []) ?ms"
    using assms by (auto simp: cmd_ok_def list_all_iff intro!: cmd_member_wf)
  have enc: "map (\<lambda>(n, v). oneMember ''oneNumber'' n (format20g v)) values = map (encodeMember Number [] False) ?ms"
    using assms(2) by (auto simp: list_all_iff oneMember_encode)
  have "SetNumber device vec values @ r = openVector (''new'' @ vectorTag Number) device vec @
      concat (map (encodeMember Number [] False) ?ms) @ ''</'' @ (''new'' @ vectorTag Number) @ ''>'' @ (NL # r)"
    unfolding SetNumber_def enc by (simp add: vectorTag_def)
  then show ?thesis
    using next_loop_command [OF wf, of device vec diag sink u ds "NL # r"] assms(1)
    by (auto simp: command_eval)
qed

text \<open>
  C14: the parser reads a client's number command back as a \<open>new\<close> vector for the same device and
  property whose members carry exactly the written \<^verbatim>\<open>float64\<close> values, infinities and NaN included.
\<close>

theorem SetNumber_roundtrip:
  assumes "cmd_ok device vec (map fst values)" "list_all (\<lambda>(n, v). f64_ok v) values"
  shows "next_loop diag sink u ds (SetNumber device vec values @ r) =
    \<lparr>po_res = Inr (cmd_element Number device vec
        (map (\<lambda>(n, v). (cmd_member n)\<lparr>m_Value := v, m_Text := format20g v\<rparr>) values), NL # r),
     po_unknown = u, po_diag = ds\<rparr>"
  by (rule SetNumber_parse [OF assms])

theorem SetNumber_roundtrip_witness:
  "po_res (next_loop False (\<lambda>_. False) 0 [] (SetNumber ''Focuser'' ''ABS'' [(''POS'', FInf True)] @ ''x'')) =
    Inr (cmd_element Number ''Focuser'' ''ABS''
      [(cmd_member ''POS'')\<lparr>m_Value := FInf True, m_Text := ''-Inf''\<rparr>], NL # ''x'')"
  by (subst SetNumber_roundtrip) (simp_all add: cmd_ok_def maxToken_def maxMembers_def)

lemma SetSwitch_parse:
  assumes "cmd_ok device vec (on @ off)"
  shows "po_res (next_loop diag sink u ds (SetSwitch device vec on off @ r)) =
      Inr (cmd_element Switch device vec
        (map (\<lambda>n. (cmd_member n)\<lparr>m_On := True, m_Text := ''On''\<rparr>) on @
         map (\<lambda>n. (cmd_member n)\<lparr>m_On := False, m_Text := ''Off''\<rparr>) off), NL # r)"
proof -
  let ?sw = "map (\<lambda>n. (cmd_member n)\<lparr>m_On := True\<rparr>) on @ map (\<lambda>n. (cmd_member n)\<lparr>m_On := False\<rparr>) off"
  have wf: "list_all (member_wf Switch []) ?sw"
    using assms by (auto simp: cmd_ok_def list_all_iff intro!: cmd_member_wf)
  have "SetSwitch device vec on off @ r = openVector (''new'' @ vectorTag Switch) device vec @
      concat (map (encodeMember Switch [] False) ?sw) @ ''</'' @ (''new'' @ vectorTag Switch) @ ''>'' @ (NL # r)"
    using oneMember_encode(2) [where b = True] oneMember_encode(2) [where b = False]
    by (simp add: SetSwitch_def vectorTag_def comp_def del: xmlEscape_simps)
  then show ?thesis
    using next_loop_command [OF wf, of device vec diag sink u ds "NL # r"] assms
    by (auto simp: command_eval)
qed

lemma SetText_parse:
  assumes "cmd_ok device vec (map fst values)" "list_all (\<lambda>(n, v). length v \<le> maxToken) values"
  shows "po_res (next_loop diag sink u ds (SetText device vec values @ r)) =
      Inr (cmd_element Text device vec
        (map (\<lambda>(n, v). (cmd_member n)\<lparr>m_Text := TrimSpace v\<rparr>) values), NL # r)"
proof -
  let ?tx = "map (\<lambda>(n, v). (cmd_member n)\<lparr>m_Text := v\<rparr>) values"
  have wf: "list_all (member_wf Text []) ?tx"
    using assms by (auto simp: cmd_ok_def list_all_iff intro!: cmd_member_wf)
  have "SetText device vec values @ r = openVector (''new'' @ vectorTag Text) device vec @
      concat (map (encodeMember Text [] False) ?tx) @ ''</'' @ (''new'' @ vectorTag Text) @ ''>'' @ (NL # r)"
    by (simp add: SetText_def vectorTag_def comp_def oneMember_encode case_prod_unfold)
  then show ?thesis
    using next_loop_command [OF wf, of device vec diag sink u ds "NL # r"] assms
    by (auto simp: command_eval)
qed

lemma simple_commands_parse:
  assumes "length device \<le> maxToken" "length vec \<le> maxToken" "length mode \<le> maxToken"
  shows "po_res (next_loop diag sink u ds (GetProperties device vec @ r)) =
      Inr (zero_element\<lparr>e_Kind := KindGetProps, e_Device := device, e_Name := vec\<rparr>, NL # r)" (is ?gp)
    and "po_res (next_loop diag sink u ds (EnableBLOB device mode @ r)) =
      Inr (zero_element\<lparr>e_Kind := KindEnableBLOB, e_Device := device, e_Message := mode\<rparr>, NL # r)" (is ?eb)
    and "po_res (next_loop diag sink u ds (PingReply vec @ r)) =
      Inr (zero_element\<lparr>e_Kind := KindPingReply, e_Name := vec\<rparr>, NL # r)" (is ?pr)
proof -
  have gp: "GetProperties device vec @ r = CHR ''<'' # ''getProperties'' @
      attrs_text ((''version'', ''1.7'') # opt ''device'' device @ opt ''name'' vec) @ CHR ''/'' # CHR ''>'' # NL # r"
    by (simp add: GetProperties_def optAttr_text attrs_text_simps attr_text_def xmlEscape1_def)
  show ?gp
    unfolding gp using assms
    by (subst next_loop_simple(1) [where k = KindGetProps]) (auto simp: simple_eval maxToken_def)
  have eb: "EnableBLOB device mode @ r = CHR ''<'' # ''enableBLOB'' @ attrs_text (opt ''device'' device) @
      CHR ''>'' # xmlEscape mode @ CHR ''<'' # CHR ''/'' # ''enableBLOB'' @ CHR ''>'' # NL # r"
    by (simp add: EnableBLOB_def optAttr_text)
  show ?eb
    unfolding eb using assms textUntilClose_escape [of "''enableBLOB''" mode "NL # r"]
    by (subst next_loop_simple(2) [where k = KindEnableBLOB]) (auto simp: simple_eval)
  have pr: "PingReply vec @ r = CHR ''<'' # ''pingReply'' @ attrs_text (opt ''uid'' vec) @
      CHR ''/'' # CHR ''>'' # NL # r"
    by (simp add: PingReply_def optAttr_text)
  show ?pr
    unfolding pr using assms
    by (subst next_loop_simple(1) [where k = KindPingReply]) (auto simp: simple_eval attrVal_def opt_def)
qed

text \<open>
  C17: switch and text commands, and the element commands \<open>getProperties\<close>, \<open>enableBLOB\<close> and
  \<open>pingReply\<close>, are read back with the switches that were on and off, the trimmed text values, the
  device, property, BLOB mode and ping identifier the client wrote.
\<close>

theorem commands_roundtrip:
  assumes "cmd_ok device vec (on @ off)" "cmd_ok device vec (map fst values)"
    "list_all (\<lambda>(n, v). length v \<le> maxToken) values" "length mode \<le> maxToken"
  shows "map (\<lambda>w. po_res (next_loop diag sink u ds (w @ r)))
      [SetSwitch device vec on off, SetText device vec values, GetProperties device vec,
       EnableBLOB device mode, PingReply vec] =
    map (\<lambda>e. Inr (e, NL # r))
      [cmd_element Switch device vec
        (map (\<lambda>n. (cmd_member n)\<lparr>m_On := True, m_Text := ''On''\<rparr>) on @
         map (\<lambda>n. (cmd_member n)\<lparr>m_On := False, m_Text := ''Off''\<rparr>) off),
       cmd_element Text device vec (map (\<lambda>(n, v). (cmd_member n)\<lparr>m_Text := TrimSpace v\<rparr>) values),
       zero_element\<lparr>e_Kind := KindGetProps, e_Device := device, e_Name := vec\<rparr>,
       zero_element\<lparr>e_Kind := KindEnableBLOB, e_Device := device, e_Message := mode\<rparr>,
       zero_element\<lparr>e_Kind := KindPingReply, e_Name := vec\<rparr>]"
  using assms simple_commands_parse [of device vec mode diag sink u ds r]
  by (simp add: SetSwitch_parse SetText_parse cmd_ok_def)

theorem commands_roundtrip_witness:
  "map (\<lambda>w. po_res (next_loop True (\<lambda>_. False) 0 [] (w @ [])))
      [SetSwitch ''D'' ''P'' [''A''] [''B''], SetText ''D'' ''P'' [(''T'', [])], GetProperties ''D'' ''P'',
       EnableBLOB ''D'' ''Never'', PingReply ''P''] =
    map (\<lambda>e. Inr (e, [NL]))
      [cmd_element Switch ''D'' ''P''
        [(cmd_member ''A'')\<lparr>m_On := True, m_Text := ''On''\<rparr>, (cmd_member ''B'')\<lparr>m_On := False, m_Text := ''Off''\<rparr>],
       cmd_element Text ''D'' ''P'' [(cmd_member ''T'')\<lparr>m_Text := []\<rparr>],
       zero_element\<lparr>e_Kind := KindGetProps, e_Device := ''D'', e_Name := ''P''\<rparr>,
       zero_element\<lparr>e_Kind := KindEnableBLOB, e_Device := ''D'', e_Message := ''Never''\<rparr>,
       zero_element\<lparr>e_Kind := KindPingReply, e_Name := ''P''\<rparr>]"
proof -
  have "TrimSpace [] = []" by (simp add: TrimSpace_solid)
  then show ?thesis
    by (subst commands_roundtrip) (simp_all add: cmd_ok_def maxToken_def maxMembers_def)
qed

end
