(* ===== verification/Wire_Limits.thy ===== *)
theory Wire_Limits
  imports Wire_Roundtrip
begin

text \<open>
  What every element the parser returns satisfies, whatever bytes a driver sends: the token
  and member limits of \<^verbatim>\<open>internal/indiwire/parser.go\<close> hold, every number is a \<^verbatim>\<open>float64\<close>, and
  the element can be encoded and parsed again. The exception is the one way a driver can stop
  the process: a declared BLOB size that \<^verbatim>\<open>make\<close> refuses.
\<close>

subsection \<open>Scanner results are bounded\<close>

lemma ident_bounded: "ident s = Inr (n, r) \<Longrightarrow> name_ok n"
proof -
  assume "ident s = Inr (n, r)"
  then have "n = takeWhile is_ident s" "n \<noteq> []" "length n < maxToken"
    by (auto simp: ident_def Let_def split: if_splits list.splits)
  then show ?thesis by (auto simp: name_ok_def list_all_iff dest: set_takeWhileD)
qed

lemma quoted_body_bounded:
  "quoted_body q acc s = Inr (v, r) \<Longrightarrow> length acc \<le> maxToken \<Longrightarrow> length v \<le> maxToken"
proof (induction q acc s rule: quoted_body.induct)
  case (1 q acc s)
  from "1.prems" show ?case
    by (subst (asm) quoted_body.simps)
      (fastforce split: list.splits if_splits sum.splits dest: "1.IH")
qed

lemma quoted_bounded: "quoted s = Inr (v, r) \<Longrightarrow> length v \<le> maxToken"
  by (auto simp: quoted_def split: list.splits if_splits dest: quoted_body_bounded)

lemma text_body_bounded:
  "text_body tag acc s = Inr (v, r) \<Longrightarrow> length acc \<le> maxToken \<Longrightarrow> length v \<le> maxToken"
proof (induction tag acc s rule: text_body.induct)
  case (1 tag acc s)
  from "1.prems" show ?case
    by (subst (asm) text_body.simps)
      (fastforce split: list.splits if_splits sum.splits dest: "1.IH")
qed

lemma textUntilClose_bounded: "textUntilClose tag s = Inr (v, r) \<Longrightarrow> length v \<le> maxToken"
  by (auto simp: textUntilClose_def dest: text_body_bounded)

lemma ident_facts: "ident s = Inr (n, r) \<Longrightarrow> length r < length s \<and> name_ok n"
  by (simp add: ident_shrink ident_bounded)

lemma quoted_facts: "quoted s = Inr (v, r) \<Longrightarrow> length r < length s \<and> length v \<le> maxToken"
  by (simp add: quoted_shrink quoted_bounded)

lemma attr_okI: "name_ok n \<Longrightarrow> length v \<le> maxToken \<Longrightarrow> attr_ok (n, v)"
  by (simp add: attr_ok_def)

lemma attrs_loop_bounded:
  "attrs_loop name attrs s = Inr ((n, as, sc), r) \<Longrightarrow> list_all attr_ok attrs \<Longrightarrow> list_all attr_ok as"
proof (induction s arbitrary: attrs rule: length_induct)
  case (1 s)
  have IH: "attrs_loop name a t = Inr ((n, as, sc), r) \<Longrightarrow>
      length t < length s \<longrightarrow> list_all attr_ok a \<longrightarrow> list_all attr_ok as" for a t
    using "1.IH" by blast
  from "1.prems" show ?case
    by (subst (asm) attrs_loop.simps)
      (auto split: list.splits if_splits sum.splits
        dest!: ident_facts expect_shrink quoted_facts dest!: IH simp: attr_okI)
qed

lemma startTag_bounded: "startTag s = Inr ((n, as, sc), r) \<Longrightarrow> list_all attr_ok as"
  by (auto simp: startTag_def split: list.splits if_splits sum.splits dest: attrs_loop_bounded)

lemma startTag_facts: "startTag s = Inr ((n, as, sc), r) \<Longrightarrow> length r < length s \<and> list_all attr_ok as"
  by (simp add: startTag_shrink startTag_bounded)

lemma text_facts: "textUntilClose tag s = Inr (v, r) \<Longrightarrow> length r < length s \<and> length v \<le> maxToken"
  by (simp add: textUntilClose_shrink textUntilClose_bounded)

subsection \<open>Members and elements\<close>

definition member_bounded :: "Member \<Rightarrow> bool" where
  "member_bounded m \<longleftrightarrow> member_ok m \<and>
     list_all (\<lambda>s. length s \<le> maxToken) [m_Name m, m_Label m, m_Format m, m_Text m, m_BlobFormat m] \<and>
     - (2 ^ 63) \<le> m_Size m \<and> m_Size m < 2 ^ 63"

definition element_bounded :: "Element \<Rightarrow> bool" where
  "element_bounded e \<longleftrightarrow>
     list_all (\<lambda>s. length s \<le> maxToken)
       [e_Device e, e_Name e, e_Label e, e_Group e, e_Timestamp e, e_Message e] \<and>
     length (e_Members e) \<le> maxMembers \<and> list_all member_bounded (e_Members e)"

lemma f64_ok_ParseNumber [simp]: "f64_ok (fst (ParseNumber s))"
  using f64_ok_ParseFloat [of "TrimSpace s"]
    f64_ok_ParseFloat [of "FieldsFunc (TrimSpace s) (\<lambda>c. c = CHR '':'' \<or> c = CHR '' '') ! 0"]
  by (auto simp: ParseNumber_def Let_def is_f64_def split: prod.splits)

lemma ParseInt64_range: "- (2 ^ 63) \<le> ParseInt64 s \<and> ParseInt64 s < 2 ^ 63"
  by (auto simp: ParseInt64_def split: option.splits prod.splits)

lemma member_bounded_zero: "member_bounded zero_member"
  using member_ok_zero by (simp add: member_bounded_def zero_member_def)

lemma memberAttr_bounded:
  assumes "member_bounded m" "attr_ok a" shows "member_bounded (memberAttr t a m)"
  using assms ParseInt64_range [of "snd a"]
  by (cases a) (auto simp: member_bounded_def memberAttr_def attr_ok_def member_ok_def)

lemma memberAttrs_bounded: "list_all attr_ok as \<Longrightarrow> member_bounded (memberAttrs t as)"
proof -
  have "member_bounded m \<Longrightarrow> list_all attr_ok as \<Longrightarrow> member_bounded (fold (memberAttr t) as m)" for m
    by (induction as arbitrary: m) (auto simp: memberAttr_bounded)
  then show "list_all attr_ok as \<Longrightarrow> ?thesis" by (simp add: memberAttrs_def member_bounded_zero)
qed

lemma memberValue_bounded:
  assumes "member_bounded m" "length x \<le> maxToken" shows "member_bounded (memberValue t m x)"
  using assms length_TrimSpace [of x]
  by (cases t) (auto simp: member_bounded_def memberValue_def member_ok_def Let_def)

lemma blobContent_bounded: "blobContent sink e m tag s = Inr (m', r) \<Longrightarrow> member_bounded m \<Longrightarrow> member_bounded m'"
  by (auto simp: blobContent_def Let_def member_bounded_def member_ok_def split: if_splits sum.splits)

lemma blobContent_facts:
  "blobContent sink e (memberAttrs ty as) tag s = Inr (m', r) \<Longrightarrow>
    length r < length s \<and> (list_all attr_ok as \<longrightarrow> member_bounded m')"
  by (simp add: blobContent_shrink blobContent_bounded memberAttrs_bounded)

lemma element_bounded_snoc:
  "\<lbrakk>element_bounded e; length (e_Members e) < maxMembers; member_bounded m\<rbrakk>
    \<Longrightarrow> element_bounded (e\<lparr>e_Members := e_Members e @ [m]\<rparr>)"
  by (simp add: element_bounded_def)

lemma members_bounded:
  "members sink ct childTag e u s = (Inr (e', r), u') \<Longrightarrow> element_bounded e \<Longrightarrow> element_bounded e'"
proof (induction s arbitrary: e u rule: length_induct)
  case (1 s)
  have IH: "members sink ct childTag f v t = (Inr (e', r), u') \<Longrightarrow>
      length t < length s \<longrightarrow> element_bounded f \<longrightarrow> element_bounded e'" for f v t
    using "1.IH" by blast
  from "1.prems" show ?case
    by (subst (asm) members.simps)
      (auto split: prod.splits sum.splits if_splits simp: Let_def not_le
        dest!: skipToTag_le startTag_facts skipElement_le text_facts blobContent_facts dest!: IH
        simp: element_bounded_snoc memberValue_bounded memberAttrs_bounded)
qed

lemma vectorAttr_bounded: "element_bounded e \<Longrightarrow> attr_ok a \<Longrightarrow> element_bounded (vectorAttr a e)"
  by (cases a) (auto simp: element_bounded_def vectorAttr_def attr_ok_def)

lemma vectorAttrs_bounded: "list_all attr_ok as \<Longrightarrow> element_bounded e \<Longrightarrow> element_bounded (vectorAttrs as e)"
  unfolding vectorAttrs_def by (induction as arbitrary: e) (auto simp: vectorAttr_bounded)

lemma element_bounded_zero: "element_bounded (zero_element\<lparr>e_Kind := k, e_Type := t\<rparr>)"
  "element_bounded (zero_element\<lparr>e_Kind := k\<rparr>)"
  by (simp_all add: element_bounded_def zero_element_def)

lemma attrVal_bounded: "list_all attr_ok as \<Longrightarrow> length (attrVal as n) \<le> maxToken"
  by (auto simp: attrVal_def attr_ok_def list_all_iff split: option.splits dest!: map_of_SomeD)

lemma simple_element_bounded:
  assumes "simple_element k name as sc s = Inr (e, r)" "list_all attr_ok as"
  shows "element_bounded e"
proof -
  have msg: "element_bounded f \<Longrightarrow> length x \<le> maxToken \<Longrightarrow>
      element_bounded (f\<lparr>e_Name := x\<rparr>) \<and> element_bounded (f\<lparr>e_Message := x\<rparr>)" for f x
    by (simp add: element_bounded_def)
  show ?thesis
    using assms
    by (auto simp: simple_element_def Let_def msg vectorAttrs_bounded element_bounded_zero attrVal_bounded
        split: if_splits sum.splits dest!: text_facts)
qed

lemma parser_bounded:
  assumes "po_res (next_loop diag sink u ds s) = Inr (e, r)"
  shows "element_bounded e"
  using assms
proof (induction s arbitrary: u ds rule: length_induct)
  case (1 s)
  have IH: "po_res (next_loop diag sink v d t) = Inr (e, r) \<Longrightarrow> length t < length s \<longrightarrow> element_bounded e" for v d t
    using "1.IH" by blast
  have mem: "members sink ct childTag f v t = (Inr (e, r), w) \<Longrightarrow> element_bounded f \<longrightarrow> element_bounded e"
    for ct childTag f v t w using members_bounded by blast
  from "1.prems" show ?case
    by (subst (asm) next_loop.simps)
      (auto split: prod.splits sum.splits if_splits option.splits simp: Let_def
        simp: vectorAttrs_bounded element_bounded_zero simple_element_bounded
        dest!: skipToTag_le startTag_facts skipElement_le skipPI_shrink dest!: mem IH)
qed

text \<open>
  C5: whatever a driver sends, an element the parser returns obeys the limits: at most 4096
  members, no name, label, text or other attribute longer than one MiB, every number a
  \<^verbatim>\<open>float64\<close> and every BLOB size an \<^verbatim>\<open>int64\<close>.
\<close>

theorem parser_limits:
  assumes "po_res (next_loop diag sink u ds s) = Inr (e, r)"
  shows "element_bounded e"
  using assms by (rule parser_bounded)

theorem parser_limits_witness:
  "element_bounded (zero_element\<lparr>e_Kind := KindMessage, e_Message := ''hi''\<rparr>)"
proof -
  let ?e = "zero_element\<lparr>e_Kind := KindMessage, e_Message := ''hi''\<rparr>"
  obtain w where w: "encodeElement ?e [] = Inr w" by (simp add: encodeElement_def)
  have "element_view (\<lambda>_. False) [] ?e = ?e" "element_wf [] ?e"
    by (simp_all add: element_view_def element_wf_def zero_element_def maxToken_def)
  then have "po_res (next_loop False (\<lambda>_. False) 0 [] (w @ [])) = Inr (?e, [NL])"
    using next_loop_encodeElement [OF _ w, where r = "[]"] by simp
  then show ?thesis by (rule parser_limits)
qed

text \<open>An element from the parser is within the bounds of the round trip, so relaying it loses
  nothing but what its view drops.\<close>

lemma element_bounded_wf: "element_bounded e \<Longrightarrow> e_Type e \<noteq> BLOB \<Longrightarrow> element_wf [] e"
  by (auto simp: element_bounded_def element_wf_def member_bounded_def member_wf_def list_all_iff)



subsection \<open>Errors\<close>

text \<open>
  A parser that has failed stays failed: every later call returns the same error, reads
  nothing and changes nothing.
\<close>

theorem parser_error_sticky:
  assumes "parser_next p = (Inl er, p')" shows "parser_next p' = (Inl er, p')"
  using assms by (auto simp: parser_next_def Let_def split: option.splits sum.splits)

theorem parser_error_sticky_witness:
  "parser_next ((new_parser False (\<lambda>_. False) ''x'')\<lparr>p_err := Some (PBetween (CHR ''x''))\<rparr>) =
    (Inl (PBetween (CHR ''x'')), (new_parser False (\<lambda>_. False) ''x'')\<lparr>p_err := Some (PBetween (CHR ''x''))\<rparr>)"
proof (rule parser_error_sticky)
  show "parser_next (new_parser False (\<lambda>_. False) ''x'') =
    (Inl (PBetween (CHR ''x'')), (new_parser False (\<lambda>_. False) ''x'')\<lparr>p_err := Some (PBetween (CHR ''x''))\<rparr>)"
    by (simp add: new_parser_def parser_next_def next_loop.simps skipToTag.simps is_ws_def)
qed

text \<open>
  A driver can stop the process: a BLOB update whose declared size exceeds what \<^verbatim>\<open>make\<close>
  allocates panics the parser as soon as the payload is wanted in memory, for every such size.
\<close>

theorem blob_size_panics:
  assumes "maxAlloc < n" "n < 2 ^ 63"
  shows "po_res (next_loop diag (\<lambda>_. False) u ds
    (''<setBLOBVector><oneBLOB size='' @ [SQUOTE] @ show_int n @ [SQUOTE] @ ''>'' @ r)) =
      Inl (PPanicMakeSlice n)"
proof -
  have m: "- (2 ^ 63) \<le> n" using assms(1) by (simp add: maxAlloc_def)
  note sz = show_int_text [OF m assms(2)] and pn = ParseInt64_show_int [OF m assms(2)]
  let ?e = "zero_element\<lparr>e_Kind := KindSet, e_Type := BLOB\<rparr>"
  have e: "vectorAttrs [] ?e = ?e" "e_Type ?e = BLOB" "e_Members ?e = []"
    by (simp_all add: vectorAttrs_def zero_element_def)
  have tags: "name_ok ''setBLOBVector''" "name_ok ''oneBLOB''"
    by (simp_all add: name_ok_def maxToken_def is_ident_def byte_between_def)
  have st: "startTag (''<oneBLOB size='' @ [SQUOTE] @ show_int n @ [SQUOTE] @ ''>'' @ r) =
      Inr ((''oneBLOB'', [(''size'', show_int n)], False), r)"
    using startTag_text(1) [OF tags(2), of "[(''size'', show_int n)]" r] sz
    by (simp add: attrs_text_simps attr_text_def attr_ok_def)
  have "memberAttrs BLOB [(''size'', show_int n)] = zero_member\<lparr>m_Size := n\<rparr>"
    by (simp add: memberAttrs_def memberAttr_def pn)
  then have "fst (members (\<lambda>_. False) ''setBLOBVector'' ''oneBLOB'' ?e u
      (''<oneBLOB size='' @ [SQUOTE] @ show_int n @ [SQUOTE] @ ''>'' @ r)) = Inl (PPanicMakeSlice n)"
    using st e assms(1) peek_name(1) [OF tags(2)]
    by (subst members.simps)
      (simp add: skipToTag_tag blobContent_def Let_def maxMembers_def zero_member_def maxAlloc_def)
  moreover have "startTag (''<setBLOBVector>'' @ s) = Inr ((''setBLOBVector'', [], False), s)" for s
    using startTag_text(1) [OF tags(1), of "[]" s] by (simp add: attrs_text_simps)
  moreover have "vector_tag ''setBLOBVector'' = Some (KindSet, BLOB, ''oneBLOB'')" by code_simp
  ultimately show ?thesis
    using e(1) peek_name(2) [OF tags(1)]
    by (subst next_loop.simps) (auto simp: skipToTag_tag split: prod.splits)
qed

theorem blob_size_panics_witness:
  "po_res (next_loop True (\<lambda>_. False) 0 []
    (''<setBLOBVector><oneBLOB size='' @ [SQUOTE] @ show_int (2 ^ 60) @ [SQUOTE] @ ''>'' @ ''AAAA'')) =
      Inl (PPanicMakeSlice (2 ^ 60))"
  by (rule blob_size_panics) (simp_all add: maxAlloc_def)

end
