(* ===== verification/Snapshot_Store.thy ===== *)
theory Snapshot_Store
  imports Wire_Limits
begin

text \<open>
  The versioned property store (\<^verbatim>\<open>internal/snapshot/snapshot.go\<close>, \<^verbatim>\<open>internal/snapshot/store.go\<close>).
  A snapshot is an immutable value, so publishing is replacing the store's current snapshot and
  a reader that keeps an old one keeps its contents; the atomic pointer is the record field
  \<open>st_cur\<close>. Generations are 64-bit words and wrap. A time is a count of nanoseconds, with the
  zero time 0. \<open>store_ok\<close> is the store's invariant; \<open>spec_apply\<close> is the abstract effect of an
  element on the map from device and property to vector, which \<open>Apply\<close> refines.
\<close>

type_synonym gotime = int

record MemberVal =
  mv_Member :: Member
  mv_Arrived :: gotime

record Vector =
  v_Device :: string
  v_Name :: string
  v_Label :: string
  v_Group :: string
  v_Type :: VType
  v_Perm :: Perm
  v_Rule :: Rule
  v_State :: State
  v_Timestamp :: string
  v_Message :: string
  v_Updated :: gotime
  v_Members :: "MemberVal list"
  v_byName :: "nat gomap"

record Snapshot =
  s_gen :: "64 word"
  s_valid :: bool
  s_devices :: "Vector gomap gomap"

record Store =
  st_cur :: Snapshot
  st_Ignored :: nat

subsection \<open>Reading\<close>

text \<open>\<^verbatim>\<open>Vector.Member\<close>: the index map decides, and its index is used unchecked.\<close>

definition Vector_Member :: "Vector \<Rightarrow> string \<Rightarrow> MemberVal option" where
  "Vector_Member v name = map_option (\<lambda>i. v_Members v ! i) (map_of (v_byName v) name)"

text \<open>Indexing a nil map yields nothing, so an absent device has no properties.\<close>

definition props_of :: "Snapshot \<Rightarrow> string \<Rightarrow> Vector gomap" where
  "props_of s device = (case map_of (s_devices s) device of Some ps \<Rightarrow> ps | None \<Rightarrow> [])"

definition Snapshot_Vector :: "Snapshot \<Rightarrow> string \<Rightarrow> string \<Rightarrow> Vector option" where
  "Snapshot_Vector s device name = map_of (props_of s device) name"

definition Devices :: "Snapshot \<Rightarrow> string list" where
  "Devices s = map fst (s_devices s)"

definition Properties :: "Snapshot \<Rightarrow> string \<Rightarrow> string list" where
  "Properties s device = map fst (props_of s device)"

subsection \<open>Publishing\<close>

definition maxProperties :: nat where "maxProperties = 4096"

definition NewStore :: Store where
  "NewStore = \<lparr>st_cur = \<lparr>s_gen = 1, s_valid = True, s_devices = []\<rparr>, st_Ignored = 0\<rparr>"

definition Invalidate :: "Store \<Rightarrow> Store" where
  "Invalidate st = st\<lparr>st_cur := \<lparr>s_gen = s_gen (st_cur st) + 1, s_valid = False, s_devices = []\<rparr>\<rparr>"

definition Reset :: "Store \<Rightarrow> Store" where
  "Reset st = st\<lparr>st_cur := \<lparr>s_gen = s_gen (st_cur st) + 1, s_valid = True, s_devices = []\<rparr>\<rparr>"

definition cow :: "Snapshot \<Rightarrow> string \<Rightarrow> Snapshot" where
  "cow cur device =
     \<lparr>s_gen = s_gen cur + 1, s_valid = s_valid cur,
      s_devices = AList.update device (props_of cur device) (s_devices cur)\<rparr>"

definition publish :: "string \<Rightarrow> string \<Rightarrow> Vector \<Rightarrow> Store \<Rightarrow> Store" where
  "publish device name v st =
     (let next = cow (st_cur st) device in
      st\<lparr>st_cur := next\<lparr>s_devices :=
        AList.update device (AList.update name v (props_of next device)) (s_devices next)\<rparr>\<rparr>)"

text \<open>The index map of a definition: later members of the same name win.\<close>

definition index_members :: "Member list \<Rightarrow> nat gomap" where
  "index_members ms = fold (\<lambda>(i, m). AList.update (m_Name m) i) (enumerate 0 ms) []"

definition def_vector :: "Element \<Rightarrow> gotime \<Rightarrow> Vector" where
  "def_vector el now =
     \<lparr>v_Device = e_Device el, v_Name = e_Name el, v_Label = e_Label el, v_Group = e_Group el,
      v_Type = e_Type el, v_Perm = e_Perm el, v_Rule = e_Rule el, v_State = e_State el,
      v_Timestamp = e_Timestamp el, v_Message = e_Message el, v_Updated = now,
      v_Members = map (\<lambda>m. \<lparr>mv_Member = m\<lparr>m_Data := None\<rparr>, mv_Arrived = now\<rparr>) (e_Members el),
      v_byName = index_members (e_Members el)\<rparr>"

definition ignore :: "nat \<Rightarrow> Store \<Rightarrow> Store" where
  "ignore n st = st\<lparr>st_Ignored := st_Ignored st + n\<rparr>"

definition applyDef :: "Element \<Rightarrow> gotime \<Rightarrow> Store \<Rightarrow> bool \<times> Store" where
  "applyDef el now st =
     (let ps = props_of (st_cur st) (e_Device el) in
      if maxProperties \<le> length ps \<and> map_of ps (e_Name el) = None then (False, ignore 1 st)
      else (True, publish (e_Device el) (e_Name el) (def_vector el now) st))"

definition set_member :: "gotime \<Rightarrow> Member \<Rightarrow> MemberVal \<Rightarrow> MemberVal" where
  "set_member now m mv =
     (let o1 = (mv_Member mv)\<lparr>m_Value := m_Value m, m_Text := m_Text m, m_On := m_On m,
            m_LightState := m_LightState m, m_Size := m_Size m, m_Attached := m_Attached m\<rparr>;
          o2 = (if m_BlobFormat m \<noteq> [] then o1\<lparr>m_BlobFormat := m_BlobFormat m\<rparr> else o1);
          o3 = (if m_HasRange m then
              o2\<lparr>m_Min := m_Min m, m_Max := m_Max m, m_Step := m_Step m, m_HasRange := True\<rparr> else o2)
      in \<lparr>mv_Member = o3, mv_Arrived = now\<rparr>)"

fun set_members :: "gotime \<Rightarrow> nat gomap \<Rightarrow> Member list \<Rightarrow> MemberVal list \<times> nat \<Rightarrow> MemberVal list \<times> nat" where
  "set_members now idx [] acc = acc"
| "set_members now idx (m # ms) (mvs, ignored) =
     (case map_of idx (m_Name m) of
        None \<Rightarrow> set_members now idx ms (mvs, Suc ignored)
      | Some i \<Rightarrow> set_members now idx ms (mvs[i := set_member now m (mvs ! i)], ignored))"

definition set_vector :: "Element \<Rightarrow> gotime \<Rightarrow> Vector \<Rightarrow> Vector" where
  "set_vector el now old =
     old\<lparr>v_State := e_State el, v_Timestamp := e_Timestamp el,
       v_Message := (if e_Message el \<noteq> [] then e_Message el else v_Message old),
       v_Updated := now,
       v_Members := fst (set_members now (v_byName old) (e_Members el) (v_Members old, 0))\<rparr>"

definition applySet :: "Element \<Rightarrow> gotime \<Rightarrow> Store \<Rightarrow> bool \<times> Store" where
  "applySet el now st =
     (case Snapshot_Vector (st_cur st) (e_Device el) (e_Name el) of
        None \<Rightarrow> (False, ignore 1 st)
      | Some old \<Rightarrow>
          (True, publish (e_Device el) (e_Name el) (set_vector el now old)
             (ignore (snd (set_members now (v_byName old) (e_Members el) (v_Members old, 0))) st)))"

definition applyDel :: "Element \<Rightarrow> Store \<Rightarrow> bool \<times> Store" where
  "applyDel el st =
     (let cur = st_cur st in
      if map_of (s_devices cur) (e_Device el) = None then (False, ignore 1 st)
      else let next = cow cur (e_Device el) in
        if e_Name el = [] then
          (True, st\<lparr>st_cur := next\<lparr>s_devices := AList.delete (e_Device el) (s_devices next)\<rparr>\<rparr>)
        else if Snapshot_Vector cur (e_Device el) (e_Name el) = None then (False, ignore 1 st)
        else (True, st\<lparr>st_cur := next\<lparr>s_devices :=
            AList.update (e_Device el) (AList.delete (e_Name el) (props_of next (e_Device el)))
              (s_devices next)\<rparr>\<rparr>))"

definition Apply :: "Element \<Rightarrow> gotime \<Rightarrow> Store \<Rightarrow> bool \<times> Store" where
  "Apply el now st =
     (case e_Kind el of
        KindDef \<Rightarrow> applyDef el now st
      | KindSet \<Rightarrow> applySet el now st
      | KindDel \<Rightarrow> applyDel el st
      | _ \<Rightarrow> (False, st))"

subsection \<open>The invariant\<close>

definition vector_ok :: "Vector \<Rightarrow> bool" where
  "vector_ok v \<longleftrightarrow> gomap_ok (v_byName v) \<and>
     list_all (\<lambda>(n, i). i < length (v_Members v) \<and> m_Name (mv_Member (v_Members v ! i)) = n) (v_byName v) \<and>
     list_all (\<lambda>mv. m_Name (mv_Member mv) \<in> set (map fst (v_byName v)) \<and> m_Data (mv_Member mv) = None)
       (v_Members v)"

definition props_ok :: "string \<Rightarrow> Vector gomap \<Rightarrow> bool" where
  "props_ok d ps \<longleftrightarrow> gomap_ok ps \<and> length ps \<le> maxProperties \<and>
     list_all (\<lambda>(n, v). vector_ok v \<and> v_Device v = d \<and> v_Name v = n) ps"

definition snap_ok :: "Snapshot \<Rightarrow> bool" where
  "snap_ok s \<longleftrightarrow> gomap_ok (s_devices s) \<and> list_all (\<lambda>(d, ps). props_ok d ps) (s_devices s)"

abbreviation store_ok :: "Store \<Rightarrow> bool" where "store_ok st \<equiv> snap_ok (st_cur st)"

lemma list_all_update: "list_all P m \<Longrightarrow> P (k, v) \<Longrightarrow> list_all P (AList.update k v m)"
  by (induction m) auto

lemma list_all_delete: "list_all P m \<Longrightarrow> list_all P (AList.delete k m)"
  by (auto simp: list_all_iff AList.delete_eq)

lemma in_set_update: "x \<in> set (AList.update k v m) \<Longrightarrow> x = (k, v) \<or> x \<in> set m"
  by (induction m) (auto split: if_splits)

lemma props_ok_Nil [simp]: "props_ok d []"
  by (simp add: props_ok_def)

lemma props_of_ok: "snap_ok s \<Longrightarrow> props_ok d (props_of s d)"
  by (auto simp: snap_ok_def props_of_def list_all_iff split: option.splits dest!: map_of_SomeD)

lemma snap_ok_update:
  "snap_ok s \<Longrightarrow> props_ok d ps \<Longrightarrow> snap_ok (s\<lparr>s_devices := AList.update d ps (s_devices s)\<rparr>)"
  by (simp add: snap_ok_def list_all_update)

lemma snap_ok_cow: "snap_ok s \<Longrightarrow> snap_ok (cow s d)"
  using snap_ok_update [of s d "props_of s d"] props_of_ok [of s d]
  by (simp add: snap_ok_def cow_def)

lemma props_of_cow [simp]: "props_of (cow s d) d' = props_of s d'"
  by (simp add: props_of_def cow_def)

lemma props_ok_update:
  assumes "props_ok d ps" "vector_ok v" "v_Device v = d" "v_Name v = n"
    "length ps < maxProperties \<or> map_of ps n \<noteq> None"
  shows "props_ok d (AList.update n v ps)"
  using assms by (auto simp: props_ok_def length_gomap_update list_all_update map_of_eq_None_iff)

lemma publish_ok:
  assumes "store_ok st" "vector_ok v" "v_Device v = d" "v_Name v = n"
    "length (props_of (st_cur st) d) < maxProperties \<or> Snapshot_Vector (st_cur st) d n \<noteq> None"
  shows "store_ok (publish d n v st)"
  using assms props_of_ok [OF assms(1)]
  by (simp add: publish_def Let_def snap_ok_update snap_ok_cow props_ok_update Snapshot_Vector_def)

lemma enumerate_snoc: "enumerate 0 (ms @ [m]) = enumerate 0 ms @ [(length ms, m)]"
  by (simp add: enumerate_append_eq)

lemma index_members_spec:
  "gomap_ok (index_members ms) \<and>
   (\<forall>(n, i) \<in> set (index_members ms). i < length ms \<and> m_Name (ms ! i) = n) \<and>
   set (map fst (index_members ms)) = m_Name ` set ms"
proof (induction ms rule: rev_induct)
  case Nil
  show ?case by (simp add: index_members_def)
next
  case (snoc m ms)
  have eq: "index_members (ms @ [m]) = AList.update (m_Name m) (length ms) (index_members ms)"
    by (simp add: index_members_def enumerate_snoc)
  have "i < length (ms @ [m]) \<and> m_Name ((ms @ [m]) ! i) = n"
    if "(n, i) \<in> set (index_members (ms @ [m]))" for n i
    using that snoc.IH unfolding eq by (auto simp: nth_append dest!: in_set_update)
  then show ?case using snoc.IH by (auto simp: eq AList.dom_update)
qed

lemma vector_name [simp]:
  "v_Device (def_vector el now) = e_Device el" "v_Name (def_vector el now) = e_Name el"
  "v_Device (set_vector el now v) = v_Device v" "v_Name (set_vector el now v) = v_Name v"
  by (simp_all add: def_vector_def set_vector_def)

lemma def_vector_ok: "vector_ok (def_vector el now)"
  using index_members_spec [of "e_Members el"]
  by (auto simp: vector_ok_def def_vector_def list_all_iff)

definition index_ok :: "nat gomap \<Rightarrow> MemberVal list \<Rightarrow> bool" where
  "index_ok idx mvs \<longleftrightarrow>
     list_all (\<lambda>(n, i). i < length mvs \<and> m_Name (mv_Member (mvs ! i)) = n) idx \<and>
     list_all (\<lambda>mv. m_Name (mv_Member mv) \<in> set (map fst idx) \<and> m_Data (mv_Member mv) = None) mvs"

lemma set_member_keeps [simp]:
  "m_Name (mv_Member (set_member now m mv)) = m_Name (mv_Member mv)"
  "m_Data (mv_Member (set_member now m mv)) = m_Data (mv_Member mv)"
  by (auto simp: set_member_def Let_def)

lemma index_ok_update:
  assumes "index_ok idx mvs" "map_of idx n = Some i"
  shows "index_ok idx (mvs[i := set_member now m (mvs ! i)])"
proof -
  have "i < length mvs"
    using assms by (auto simp: index_ok_def list_all_iff dest!: map_of_SomeD)
  then show ?thesis
    using assms(1) by (auto simp: index_ok_def list_all_iff nth_list_update dest!: set_update_subset_insert [THEN subsetD])
qed

lemma set_members_ok: "index_ok idx mvs \<Longrightarrow> index_ok idx (fst (set_members now idx ms (mvs, k)))"
  by (induction ms arbitrary: mvs k) (auto simp: index_ok_update split: option.splits)

lemma set_vector_ok: "vector_ok v \<Longrightarrow> vector_ok (set_vector el now v)"
  using set_members_ok [of "v_byName v" "v_Members v" now "e_Members el" 0]
  by (simp add: vector_ok_def set_vector_def index_ok_def)

lemma Snapshot_Vector_ok:
  assumes "snap_ok s" "Snapshot_Vector s d n = Some v"
  shows "vector_ok v" "v_Device v = d" "v_Name v = n"
  using props_of_ok [OF assms(1), of d] assms(2)
  by (auto simp: props_ok_def Snapshot_Vector_def list_all_iff dest!: map_of_SomeD)

lemma ignore_cur [simp]: "st_cur (ignore n st) = st_cur st"
  by (simp add: ignore_def)

lemma applyDef_ok: "store_ok st \<Longrightarrow> store_ok (snd (applyDef el now st))"
  using publish_ok [of st "def_vector el now" "e_Device el" "e_Name el"]
  by (auto simp: applyDef_def Let_def def_vector_ok Snapshot_Vector_def not_le)

lemma applySet_ok: "store_ok st \<Longrightarrow> store_ok (snd (applySet el now st))"
  by (auto simp: applySet_def Snapshot_Vector_ok set_vector_ok intro!: publish_ok split: option.splits)

lemma snap_ok_delete: "snap_ok s \<Longrightarrow> snap_ok (s\<lparr>s_devices := AList.delete d (s_devices s)\<rparr>)"
  by (simp add: snap_ok_def list_all_delete)

lemma props_ok_delete: "props_ok d ps \<Longrightarrow> props_ok d (AList.delete n ps)"
  by (auto simp: props_ok_def list_all_delete intro: order_trans [OF AList.length_delete_le])

lemma applyDel_ok: "store_ok st \<Longrightarrow> store_ok (snd (applyDel el st))"
  by (simp add: applyDel_def Let_def snap_ok_delete snap_ok_cow snap_ok_update props_ok_delete props_of_ok)

lemma Apply_ok: "store_ok st \<Longrightarrow> store_ok (snd (Apply el now st))"
  by (simp add: Apply_def applyDef_ok applySet_ok applyDel_ok split: Kind.splits)

subsection \<open>Lookups after an operation\<close>

lemma lookup_publish [store_simps]:
  "Snapshot_Vector (st_cur (publish d n v st)) d' n' =
    (if d' = d \<and> n' = n then Some v else Snapshot_Vector (st_cur st) d' n')"
  by (auto simp: publish_def Let_def Snapshot_Vector_def props_of_def cow_def split: option.splits)

lemma lookup_ignore [store_simps]: "Snapshot_Vector (st_cur (ignore k st)) d n = Snapshot_Vector (st_cur st) d n"
  by simp

type_synonym vmap = "string \<times> string \<Rightarrow> Vector option"

definition abs_store :: "Store \<Rightarrow> vmap" where
  "abs_store st = (\<lambda>(d, n). Snapshot_Vector (st_cur st) d n)"

text \<open>What an element does to the properties, with no limits and no versions.\<close>

definition spec_apply :: "Element \<Rightarrow> gotime \<Rightarrow> vmap \<Rightarrow> vmap" where
  "spec_apply el now m =
     (let k = (e_Device el, e_Name el) in
      case e_Kind el of
        KindDef \<Rightarrow> m(k \<mapsto> def_vector el now)
      | KindSet \<Rightarrow> m(k := map_option (set_vector el now) (m k))
      | KindDel \<Rightarrow> (if e_Name el = [] then (\<lambda>(d, n). if d = e_Device el then None else m (d, n)) else m(k := None))
      | _ \<Rightarrow> m)"

definition refused :: "Element \<Rightarrow> Store \<Rightarrow> bool" where
  "refused el st \<longleftrightarrow> e_Kind el = KindDef \<and>
     maxProperties \<le> length (Properties (st_cur st) (e_Device el)) \<and>
     e_Name el \<notin> set (Properties (st_cur st) (e_Device el))"

lemma abs_applyDef:
  "abs_store (snd (applyDef el now st)) =
    (if maxProperties \<le> length (props_of (st_cur st) (e_Device el)) \<and>
        map_of (props_of (st_cur st) (e_Device el)) (e_Name el) = None then abs_store st
     else (abs_store st)((e_Device el, e_Name el) \<mapsto> def_vector el now))"
  by (auto simp: fun_eq_iff abs_store_def applyDef_def Let_def store_simps)

lemma abs_applySet:
  "abs_store (snd (applySet el now st)) =
    (abs_store st)((e_Device el, e_Name el) :=
      map_option (set_vector el now) (abs_store st (e_Device el, e_Name el)))"
  by (auto simp: fun_eq_iff abs_store_def applySet_def lookup_publish split: option.splits)

lemma abs_applyDel:
  "abs_store (snd (applyDel el st)) =
    (if e_Name el = [] then (\<lambda>(d, n). if d = e_Device el then None else abs_store st (d, n))
     else (abs_store st)((e_Device el, e_Name el) := None))"
  by (auto simp: fun_eq_iff abs_store_def applyDel_def Let_def Snapshot_Vector_def props_of_def cow_def
      split: option.splits if_splits)

lemma Apply_abs:
  "abs_store (snd (Apply el now st)) =
    (if refused el st then abs_store st else spec_apply el now (abs_store st))"
  by (auto simp: Apply_def spec_apply_def refused_def Properties_def abs_applyDef abs_applySet abs_applyDel
      Let_def map_of_eq_None_iff split: Kind.splits)

text \<open>
  C2: the store refines the abstract property map: an applied element has exactly the
  effect of its specification on every device and property, and the only element that is
  refused where the specification would not be is a definition that is new to a device which
  already has 4096 properties; then nothing changes.
\<close>

theorem Apply_refines:
  "abs_store (snd (Apply el now st)) =
    (if refused el st then abs_store st else spec_apply el now (abs_store st))"
  by (rule Apply_abs)

text \<open>The result says whether a new snapshot was published; its generation is the next one.\<close>

lemma Apply_published:
  "fst (Apply el now st) \<Longrightarrow>
    s_gen (st_cur (snd (Apply el now st))) = s_gen (st_cur st) + 1 \<and>
    s_valid (st_cur (snd (Apply el now st))) = s_valid (st_cur st)"
  "\<not> fst (Apply el now st) \<Longrightarrow> st_cur (snd (Apply el now st)) = st_cur st"
  by (auto simp: Apply_def applyDef_def applySet_def applyDel_def publish_def cow_def ignore_def Let_def
      split: Kind.splits option.splits if_splits)

subsection \<open>Runs of the single writer\<close>

datatype store_op = OpApply Element gotime | OpInvalidate | OpReset

fun store_step :: "store_op \<Rightarrow> Store \<Rightarrow> Store" where
  "store_step (OpApply el now) st = snd (Apply el now st)"
| "store_step OpInvalidate st = Invalidate st"
| "store_step OpReset st = Reset st"

definition publishes :: "store_op \<Rightarrow> Store \<Rightarrow> bool" where
  "publishes op st = (case op of OpApply el now \<Rightarrow> fst (Apply el now st) | _ \<Rightarrow> True)"

fun publications :: "store_op list \<Rightarrow> Store \<Rightarrow> nat" where
  "publications [] st = 0"
| "publications (op # ops) st = (if publishes op st then 1 else 0) + publications ops (store_step op st)"

lemma store_step_gen:
  "s_gen (st_cur (store_step op st)) = s_gen (st_cur st) + (if publishes op st then 1 else 0)"
  "\<not> publishes op st \<Longrightarrow> st_cur (store_step op st) = st_cur st"
  by (cases op; simp add: publishes_def Invalidate_def Reset_def Apply_published)+

lemma run_gen: "s_gen (st_cur (fold store_step ops st)) = s_gen (st_cur st) + word_of_nat (publications ops st)"
  by (induction ops arbitrary: st) (auto simp: store_step_gen)

lemma publications_le: "publications ops st \<le> length ops"
  by (induction ops arbitrary: st) (auto simp: le_SucI)

lemma no_publications: "publications ops st = 0 \<Longrightarrow> st_cur (fold store_step ops st) = st_cur st"
  by (induction ops arbitrary: st) (auto simp: store_step_gen split: if_splits)

text \<open>
  C16: two reads with the same generation saw the same snapshot, whatever the writer did in
  between, as long as it did fewer than \<open>2 ^ 64\<close> operations.
\<close>

theorem generation_identifies:
  assumes "length ops < 2 ^ 64" "s_gen (st_cur (fold store_step ops st)) = s_gen (st_cur st)"
  shows "st_cur (fold store_step ops st) = st_cur st"
proof -
  have "(word_of_nat (publications ops st) :: 64 word) = 0" using assms(2) by (simp add: run_gen)
  moreover have "publications ops st < 2 ^ 64" using publications_le [of ops st] assms(1) by simp
  then have "unat (word_of_nat (publications ops st) :: 64 word) = publications ops st"
    by (simp add: unat_of_nat)
  ultimately have "publications ops st = 0" by simp
  then show ?thesis by (rule no_publications)
qed

theorem generation_identifies_witness:
  "st_cur (fold store_step [OpApply zero_element 5] NewStore) = st_cur NewStore"
  by (rule generation_identifies) (simp_all add: Apply_def zero_element_def)

lemma store_step_ok: "store_ok st \<Longrightarrow> store_ok (store_step op st)"
  by (cases op) (simp_all add: Apply_ok Invalidate_def Reset_def, simp_all add: snap_ok_def)

lemma NewStore_ok [simp]: "store_ok NewStore"
  by (simp add: NewStore_def snap_ok_def)

text \<open>
  C4: every snapshot a store ever publishes is well formed: names are unique, no device holds
  more than 4096 properties, each vector stands under its own device and name, its index map
  agrees with its members, and it carries no image data.
\<close>

theorem store_always_ok: "store_ok (fold store_step ops NewStore)"
proof -
  have "store_ok st \<Longrightarrow> store_ok (fold store_step ops st)" for st
    by (induction ops arbitrary: st) (auto simp: store_step_ok)
  then show ?thesis by simp
qed

subsection \<open>Reading a member after an update\<close>

lemma index_nth:
  assumes "index_ok idx mvs" "map_of idx n = Some i"
  shows "i < length mvs" "m_Name (mv_Member (mvs ! i)) = n"
  using assms by (auto simp: index_ok_def list_all_iff dest!: map_of_SomeD)

definition set_value :: "gotime \<Rightarrow> Member list \<Rightarrow> string \<Rightarrow> MemberVal \<Rightarrow> MemberVal" where
  "set_value now ms n mv = fold (set_member now) (filter (\<lambda>m. m_Name m = n) ms) mv"

lemma set_members_nth:
  assumes "index_ok idx mvs" "map_of idx n = Some i"
  shows "fst (set_members now idx ms (mvs, k)) ! i = set_value now ms n (mvs ! i)"
  using assms
proof (induction ms arbitrary: mvs k)
  case Nil
  then show ?case by (simp add: set_value_def)
next
  case (Cons m ms)
  note i = index_nth [OF Cons.prems]
  show ?case
  proof (cases "map_of idx (m_Name m)")
    case None
    then have "m_Name m \<noteq> n" using Cons.prems(2) by auto
    then show ?thesis using Cons.IH [OF Cons.prems] None by (simp add: set_value_def)
  next
    case (Some j)
    note j = index_nth [OF Cons.prems(1) Some]
    have ij: "m_Name m = n \<longleftrightarrow> j = i" using i(2) j(2) Some Cons.prems(2) by (metis option.inject)
    have "fst (set_members now idx (m # ms) (mvs, k)) ! i =
        set_value now ms n (mvs[j := set_member now m (mvs ! j)] ! i)"
      using Cons.IH [OF index_ok_update [OF Cons.prems(1) Some] Cons.prems(2)] Some by simp
    also have "\<dots> = set_value now (m # ms) n (mvs ! i)"
      using ij i(1) by (simp add: set_value_def nth_list_update)
    finally show ?thesis .
  qed
qed

text \<open>
  C15: an update changes exactly the members it names: after it, a member reads as its old value
  with the update's members of that name applied in order (value, text, switch, light, size,
  format and range), every other member reads as before, and no member appears or disappears.
\<close>

theorem set_vector_member:
  assumes "vector_ok v"
  shows "Vector_Member (set_vector el now v) n =
    map_option (set_value now (e_Members el) n) (Vector_Member v n)"
proof -
  have "index_ok (v_byName v) (v_Members v)" using assms by (simp add: vector_ok_def index_ok_def)
  then show ?thesis
    by (cases "map_of (v_byName v) n") (auto simp: Vector_Member_def set_vector_def set_members_nth)
qed

theorem set_vector_member_witness:
  "map_option (\<lambda>mv. m_On (mv_Member mv)) (Vector_Member (set_vector
      (zero_element\<lparr>e_Members := [zero_member\<lparr>m_Name := ''B'', m_On := True\<rparr>]\<rparr>) 7
      (def_vector (zero_element\<lparr>e_Members := [zero_member\<lparr>m_Name := ''A''\<rparr>, zero_member\<lparr>m_Name := ''B''\<rparr>]\<rparr>) 3)) ''B'')
    = Some True"
  by (subst set_vector_member [OF def_vector_ok])
    (simp add: Vector_Member_def def_vector_def index_members_def set_value_def zero_element_def
      zero_member_def set_member_def)

subsection \<open>The store as an interface\<close>

text \<open>
  What the clients of a store rely on: an element changes only the vectors of the device it
  addresses, and what becomes of those depends on nothing but those vectors and the element.
\<close>

locale device_store =
  fixes lookup :: "'s \<Rightarrow> string \<Rightarrow> string \<Rightarrow> 'v option"
    and inv :: "'s \<Rightarrow> bool"
    and step :: "'e \<Rightarrow> 's \<Rightarrow> 's"
    and target :: "'e \<Rightarrow> string"
  assumes step_inv: "inv s \<Longrightarrow> inv (step e s)"
    and step_frame: "inv s \<Longrightarrow> target e \<noteq> d \<Longrightarrow> lookup (step e s) d = lookup s d"
    and step_local: "\<lbrakk>inv s; inv s'; target e = d; lookup s d = lookup s' d\<rbrakk>
      \<Longrightarrow> lookup (step e s) d = lookup (step e s') d"
begin

lemma run_inv: "inv s \<Longrightarrow> inv (fold step es s)"
  by (induction es arbitrary: s) (auto simp: step_inv)

lemma run_local:
  "\<lbrakk>inv s; inv s'; lookup s d = lookup s' d\<rbrakk>
    \<Longrightarrow> lookup (fold step es s) d = lookup (fold step (filter (\<lambda>e. target e = d) es) s') d"
proof (induction es arbitrary: s s')
  case (Cons e es)
  show ?case
  proof (cases "target e = d")
    case True
    then have "lookup (step e s) d = lookup (step e s') d" using Cons.prems by (intro step_local)
    then show ?thesis using Cons.IH [of "step e s" "step e s'"] Cons.prems(1,2) True by (simp add: step_inv)
  next
    case False
    then show ?thesis using Cons.IH [of "step e s" s'] Cons.prems by (simp add: step_inv step_frame)
  qed
qed simp

end

text \<open>A store that is well formed has as many properties as its lookup has.\<close>

lemma length_props:
  assumes "snap_ok s" shows "length (props_of s d) = card (dom (Snapshot_Vector s d))"
proof -
  have "gomap_ok (props_of s d)" using props_of_ok [OF assms, of d] by (simp add: props_ok_def)
  then have "card (set (map fst (props_of s d))) = length (map fst (props_of s d))" by (rule distinct_card)
  moreover have "dom (Snapshot_Vector s d) = set (map fst (props_of s d))"
    by (simp add: Snapshot_Vector_def [abs_def] dom_map_of_conv_image_fst)
  ultimately show ?thesis by simp
qed

definition apply_at :: "Element \<times> gotime \<Rightarrow> Store \<Rightarrow> Store" where
  "apply_at x st = snd (Apply (fst x) (snd x) st)"

definition store_lookup :: "Store \<Rightarrow> string \<Rightarrow> string \<Rightarrow> Vector option" where
  "store_lookup st = Snapshot_Vector (st_cur st)"

text \<open>The effect of an element on the properties of the device it addresses.\<close>

definition dev_step :: "Element \<Rightarrow> gotime \<Rightarrow> (string \<Rightarrow> Vector option) \<Rightarrow> (string \<Rightarrow> Vector option)" where
  "dev_step el now m =
     (case e_Kind el of
        KindDef \<Rightarrow> (if maxProperties \<le> card (dom m) \<and> m (e_Name el) = None then m
                   else m(e_Name el \<mapsto> def_vector el now))
      | KindSet \<Rightarrow> m(e_Name el := map_option (set_vector el now) (m (e_Name el)))
      | KindDel \<Rightarrow> (if e_Name el = [] then (\<lambda>_. None) else m(e_Name el := None))
      | _ \<Rightarrow> m)"

lemma refused_card:
  assumes "store_ok st"
  shows "refused el st \<longleftrightarrow> e_Kind el = KindDef \<and> maxProperties \<le> card (dom (store_lookup st (e_Device el))) \<and>
      store_lookup st (e_Device el) (e_Name el) = None"
  unfolding refused_def Properties_def length_map length_props [OF assms] store_lookup_def
  by (simp add: Snapshot_Vector_def map_of_eq_None_iff)

lemma store_lookup_abs: "store_lookup st d = (\<lambda>n. abs_store st (d, n))"
  by (simp add: store_lookup_def abs_store_def)

lemma spec_apply_dev:
  "\<not> (e_Kind el = KindDef \<and> maxProperties \<le> card (dom (\<lambda>n. m (e_Device el, n))) \<and> m (e_Device el, e_Name el) = None)
    \<Longrightarrow> (\<lambda>n. spec_apply el now m (d, n)) =
      (if e_Device el = d then dev_step el now (\<lambda>n. m (d, n)) else (\<lambda>n. m (d, n)))"
  by (cases "e_Kind el") (auto simp: spec_apply_def dev_step_def fun_eq_iff Let_def)

lemma store_lookup_apply:
  assumes "store_ok st"
  shows "store_lookup (apply_at (el, now) st) d =
    (if e_Device el = d then dev_step el now (store_lookup st d) else store_lookup st d)"
proof (cases "refused el st")
  case True
  then have "dev_step el now (store_lookup st (e_Device el)) = store_lookup st (e_Device el)"
    using refused_card [OF assms, of el] by (simp add: dev_step_def)
  then show ?thesis
    using True by (auto simp: store_lookup_abs apply_at_def Apply_abs)
next
  case False
  then have "(\<lambda>n. spec_apply el now (abs_store st) (d, n)) =
      (if e_Device el = d then dev_step el now (\<lambda>n. abs_store st (d, n)) else (\<lambda>n. abs_store st (d, n)))"
    using refused_card [OF assms, of el] by (intro spec_apply_dev) (simp add: store_lookup_abs)
  then show ?thesis using False by (simp only: store_lookup_abs apply_at_def Apply_abs fst_conv snd_conv if_False)
qed

interpretation store: device_store store_lookup "\<lambda>st. store_ok st" apply_at "\<lambda>x. e_Device (fst x)"
proof
  fix s s' :: Store and e :: "Element \<times> gotime" and d
  obtain el now where e: "e = (el, now)" by fastforce
  show "store_ok s \<Longrightarrow> store_ok (apply_at e s)" by (simp add: apply_at_def Apply_ok)
  show "store_lookup (apply_at e s) d = store_lookup s d" if "store_ok s" "e_Device (fst e) \<noteq> d"
    using that by (simp add: e store_lookup_apply)
  show "store_lookup (apply_at e s) d = store_lookup (apply_at e s') d"
    if "store_ok s" "store_ok s'" "e_Device (fst e) = d" "store_lookup s d = store_lookup s' d"
    using that by (simp add: e store_lookup_apply)
qed

text \<open>
  C3: the devices of one child do not interfere: after any stream of elements, every property of
  a device is what the elements addressed to that device alone would have made it, limits included.
\<close>

theorem device_isolation:
  "Snapshot_Vector (st_cur (fold apply_at es NewStore)) d n =
   Snapshot_Vector (st_cur (fold apply_at (filter (\<lambda>x. e_Device (fst x) = d) es) NewStore)) d n"
  using store.run_local [of NewStore NewStore d es] by (simp add: store_lookup_def)

end
