(* ===== verification/Binding_Kit.thy ===== *)
theory Binding_Kit
  imports Snapshot_Store "HOL-Library.State_Monad" "HOL-Library.List_Lexorder" "HOL-Library.Char_ord"
begin

text \<open>
  The mapping engine shared by every device type (\<^verbatim>\<open>internal/binding\<close>): tables, errors, the
  in-flight bit, and the reads and writes of \<^verbatim>\<open>Kit\<close>.

  A kit reads a world that other goroutines change: the supervisor publishes snapshots and
  moves through its phases between any two calls. The state of a device method is therefore an
  \<open>Env\<close>: the world at every instant, a clock that each observation advances, and the calls
  handed to the \<^verbatim>\<open>Sender\<close> so far. A theorem about every world holds for every interleaving with
  the supervisor. What the \<^verbatim>\<open>Sender\<close> answers is part of the world; \<open>Sender_Wait\<close> models the
  supervisor's implementation of it.
\<close>

subsection \<open>Tables and errors\<close>

datatype BKind = Mapped | Func | Derived | Synthesised | Absent

record Entry =
  t_Kind :: BKind
  t_Prop :: string
  t_Elem :: string
  t_Fn :: string
  t_Why :: string

type_synonym Table = "Entry gomap"

text \<open>A message is its literal text with the values \<^verbatim>\<open>Sprintf\<close> prints left as values: a
  float (\<^verbatim>\<open>%g\<close>), a quoted string (\<^verbatim>\<open>%q\<close>), an integer (\<^verbatim>\<open>%d\<close>) or the text of a decoding
  error (\<^verbatim>\<open>%v\<close>).\<close>

datatype frag = Lit string | FmtG f64 | FmtQ string | FmtD int | FmtErr

type_synonym msg = "frag list"

text \<open>The error numbers are constants of the goalpaca library; only their identity is used.\<close>

datatype ErrNum = ErrNumNotConnected | ErrNumNotImplemented | ErrNumInvalidValue
  | ErrNumInvalidOperation | ErrNumDriverBase

datatype AlpacaError = AlpacaError (ErrNumber: ErrNum) (ErrMessage: msg)

definition NotConnected :: "string \<Rightarrow> AlpacaError" where
  "NotConnected reason =
     AlpacaError ErrNumNotConnected
       [Lit (''INDI: '' @ (if reason = [] then ''hardware not available'' else reason))]"

definition NotImplemented :: "string \<Rightarrow> AlpacaError" where
  "NotImplemented mem =
     AlpacaError ErrNumNotImplemented [Lit (mem @ '' is not implemented by this INDI driver'')]"

definition InvalidValue :: "msg \<Rightarrow> AlpacaError" where
  "InvalidValue m = AlpacaError ErrNumInvalidValue m"

definition InvalidOperation :: "msg \<Rightarrow> AlpacaError" where
  "InvalidOperation m = AlpacaError ErrNumInvalidOperation m"

definition DriverError :: "msg \<Rightarrow> msg \<Rightarrow> AlpacaError" where
  "DriverError context driverMessage =
     AlpacaError ErrNumDriverBase
       (if driverMessage = [] then context else context @ [Lit '': ''] @ driverMessage)"

text \<open>An error from the \<^verbatim>\<open>Sender\<close>: one that implements \<^verbatim>\<open>notServing\<close>, or any other.\<close>

datatype SendError = NotServing string | OtherErr string

fun sendErr :: "SendError option \<Rightarrow> AlpacaError option" where
  "sendErr None = None"
| "sendErr (Some (NotServing reason)) = Some (NotConnected reason)"
| "sendErr (Some (OtherErr m)) =
     Some (DriverError [Lit ''write to driver failed''] (if m = [] then [] else [Lit m]))"

subsection \<open>The in-flight bit\<close>

record Inflight =
  i_at :: gotime
  i_active :: bool

definition Inflight_Start :: "gotime \<Rightarrow> Inflight \<Rightarrow> Inflight" where
  "Inflight_Start now i = i\<lparr>i_at := now, i_active := True\<rparr>"

definition Inflight_Clear :: "Inflight \<Rightarrow> Inflight" where
  "Inflight_Clear i = i\<lparr>i_active := False\<rparr>"

definition Inflight_Active :: "gotime \<Rightarrow> Inflight \<Rightarrow> bool \<times> Inflight" where
  "Inflight_Active vectorUpdated i =
     (if \<not> i_active i then (False, i)
      else if i_at i < vectorUpdated then (False, i\<lparr>i_active := False\<rparr>)
      else (True, i))"

subsection \<open>The environment\<close>

datatype Cmd =
    CNumber string string "f64 gomap"
  | CSwitch string string "string list" "string list"
  | CText string string "string gomap"

record World =
  w_snap :: Snapshot
  w_serving :: bool
  w_reason :: string
  w_time :: gotime
  w_send :: "SendError option" \<comment> \<open>what a \<^verbatim>\<open>Set\<close> call at this instant returns\<close>
  w_update :: "SendError option" \<comment> \<open>what \<^verbatim>\<open>WaitUpdate\<close> returns\<close>
  w_settle :: "SendError + State \<times> string" \<comment> \<open>what \<^verbatim>\<open>WaitSettle\<close> returns\<close>

record 'd Env =
  e_world :: "nat \<Rightarrow> World"
  e_clock :: nat
  e_sent :: "Cmd list"
  e_dev :: 'd \<comment> \<open>the state of the device that uses the kit\<close>

type_synonym ('d, 'a) kitM = "('d Env, 'a) state"

definition observe :: "('d, World) kitM" where
  "observe = State (\<lambda>e. (e_world e (e_clock e), e\<lparr>e_clock := Suc (e_clock e)\<rparr>))"

definition record_cmd :: "Cmd \<Rightarrow> ('d, unit) kitM" where
  "record_cmd c = State (\<lambda>e. ((), e\<lparr>e_sent := e_sent e @ [c]\<rparr>))"

definition get_dev :: "('d, 'd) kitM" where
  "get_dev = State (\<lambda>e. (e_dev e, e))"

definition upd_dev :: "('d \<Rightarrow> 'd) \<Rightarrow> ('d, unit) kitM" where
  "upd_dev f = State (\<lambda>e. ((), e\<lparr>e_dev := f (e_dev e)\<rparr>))"

abbreviation ret :: "'a \<Rightarrow> ('s, 'a) state" where "ret \<equiv> State_Monad.return"

lemma run_prims [simp]:
  "run_state observe e = (e_world e (e_clock e), e\<lparr>e_clock := Suc (e_clock e)\<rparr>)"
  "run_state (record_cmd c) e = ((), e\<lparr>e_sent := e_sent e @ [c]\<rparr>)"
  "run_state get_dev e = (e_dev e, e)"
  "run_state (upd_dev f) e = ((), e\<lparr>e_dev := f (e_dev e)\<rparr>)"
  by (simp_all add: observe_def record_cmd_def get_dev_def upd_dev_def)

text \<open>The fields of \<^verbatim>\<open>Kit\<close>: availability, the current snapshot, the time, and the \<^verbatim>\<open>Sender\<close>.\<close>

definition Avail :: "('d, bool \<times> string) kitM" where
  "Avail = do { w \<leftarrow> observe; ret (w_serving w, w_reason w) }"

definition Snap :: "('d, Snapshot) kitM" where
  "Snap = do { w \<leftarrow> observe; ret (w_snap w) }"

definition Now :: "('d, gotime) kitM" where
  "Now = do { w \<leftarrow> observe; ret (w_time w) }"

definition SendCmd :: "Cmd \<Rightarrow> ('d, SendError option) kitM" where
  "SendCmd c = do { w \<leftarrow> observe; record_cmd c; ret (w_send w) }"

text \<open>Error-carrying sequencing: the early returns of the Go code.\<close>

definition bindE :: "('s, 'e + 'a) state \<Rightarrow> ('a \<Rightarrow> ('s, 'e + 'b) state) \<Rightarrow> ('s, 'e + 'b) state" where
  "bindE m f = do { r \<leftarrow> m; (case r of Inl e \<Rightarrow> ret (Inl e) | Inr x \<Rightarrow> f x) }"

lemma run_bindE [simp]:
  "run_state (bindE m f) s =
     (case run_state m s of (Inl e, s') \<Rightarrow> (Inl e, s') | (Inr x, s') \<Rightarrow> run_state (f x) s')"
  by (simp add: bindE_def split: prod.splits sum.splits)

subsection \<open>Reading\<close>

text \<open>A \<^verbatim>\<open>Kit\<close> is the INDI device name; the functions it carries are the environment.\<close>

type_synonym Kit = string

definition kit_name :: "Kit \<Rightarrow> Snapshot \<Rightarrow> string" where
  "kit_name k snap =
     (if k \<noteq> [] then k else case Devices snap of [d] \<Rightarrow> d | _ \<Rightarrow> [])"

definition DeviceName :: "Kit \<Rightarrow> ('d, string) kitM" where
  "DeviceName k = do { s \<leftarrow> Snap; ret (kit_name k s) }"

definition zero_mval :: MemberVal where
  "zero_mval = \<lparr>mv_Member = zero_member, mv_Arrived = 0\<rparr>"

definition MemberOrZero :: "Vector \<Rightarrow> string \<Rightarrow> Member" where
  \<comment> \<open>the value of \<^verbatim>\<open>v.Member(n)\<close> when its second result is ignored\<close>
  "MemberOrZero v n = mv_Member (case Vector_Member v n of Some m \<Rightarrow> m | None \<Rightarrow> zero_mval)"

definition DriverIdentity :: "Kit \<Rightarrow> ('d, (string \<times> string \<times> string) option) kitM" where
  "DriverIdentity k = do {
     (avail, _) \<leftarrow> Avail;
     if \<not> avail then ret None
     else do {
       snap \<leftarrow> Snap;
       (case Snapshot_Vector snap (kit_name k snap) ''DRIVER_INFO'' of
          None \<Rightarrow> ret None
        | Some v \<Rightarrow>
            let n = MemberOrZero v ''DRIVER_NAME''; ver = MemberOrZero v ''DRIVER_VERSION'';
                ex = MemberOrZero v ''DRIVER_EXEC''
            in if m_Text n = [] then ret None else ret (Some (m_Text n, m_Text ver, m_Text ex)))
     }
   }"

definition DescriptionText :: "Kit \<Rightarrow> ('d, string) kitM" where
  "DescriptionText k = do {
     i \<leftarrow> DriverIdentity k;
     (case i of
        None \<Rightarrow> do {
          dev \<leftarrow> DeviceName k;
          ret (''INDI '' @ (if dev = [] then ''device'' else dev) @ '' via indihurd'') }
      | Some (name, ver, _) \<Rightarrow> do {
          dev \<leftarrow> DeviceName k;
          ret (''INDI '' @ name @ (if ver \<noteq> [] then '' '' @ ver else []) @
            (if dev \<noteq> [] \<and> dev \<noteq> name then '' ('' @ dev @ '')'' else []) @ '' via indihurd'') })
   }"

definition DriverInfoText :: "Kit \<Rightarrow> string \<Rightarrow> ('d, string) kitM" where
  "DriverInfoText k version = do {
     i \<leftarrow> DriverIdentity k;
     (case i of
        None \<Rightarrow> ret (''indihurd '' @ version @ '' INDI bridge'')
      | Some (name, ver, exec) \<Rightarrow>
          ret (''indihurd '' @ version @ '' bridging '' @ name @ (if ver \<noteq> [] then '' '' @ ver else []) @
            (if exec \<noteq> [] then '' ('' @ exec @ '')'' else [])))
   }"

definition kit_vector :: "Kit \<Rightarrow> string \<Rightarrow> string \<Rightarrow> ('d, AlpacaError + Vector) kitM" where
  "kit_vector k vec mem = do {
     (ok, reason) \<leftarrow> Avail;
     if \<not> ok then ret (Inl (NotConnected reason))
     else do {
       snap \<leftarrow> Snap;
       if \<not> s_valid snap then do { (_, reason) \<leftarrow> Avail; ret (Inl (NotConnected reason)) }
       else (case Snapshot_Vector snap (kit_name k snap) vec of
          None \<Rightarrow> ret (Inl (NotImplemented mem))
        | Some v \<Rightarrow> ret (Inr v))
     }
   }"

definition Kit_Vector :: "Kit \<Rightarrow> string \<Rightarrow> ('d, AlpacaError + Vector) kitM" where
  "Kit_Vector k vec = kit_vector k vec vec"

text \<open>\<^verbatim>\<open>Has\<close>, \<^verbatim>\<open>UpdatedOf\<close> and \<^verbatim>\<open>StateOf\<close> share one lookup that ignores \<^verbatim>\<open>Valid\<close>.\<close>

definition kit_lookup :: "Kit \<Rightarrow> string \<Rightarrow> ('d, Vector option) kitM" where
  "kit_lookup k vec = do {
     (ok, _) \<leftarrow> Avail;
     if \<not> ok then ret None
     else do { snap \<leftarrow> Snap; ret (Snapshot_Vector snap (kit_name k snap) vec) }
   }"

definition Has :: "Kit \<Rightarrow> string \<Rightarrow> ('d, bool) kitM" where
  "Has k vec = do { v \<leftarrow> kit_lookup k vec; ret (v \<noteq> None) }"

definition UpdatedOf :: "Kit \<Rightarrow> string \<Rightarrow> ('d, gotime) kitM" where
  "UpdatedOf k vec = do { v \<leftarrow> kit_lookup k vec; ret (case v of Some v \<Rightarrow> v_Updated v | None \<Rightarrow> 0) }"

definition StateOf :: "Kit \<Rightarrow> string \<Rightarrow> ('d, State) kitM" where
  "StateOf k vec = do { v \<leftarrow> kit_lookup k vec; ret (case v of Some v \<Rightarrow> v_State v | None \<Rightarrow> Idle) }"

definition mapped :: "Table \<Rightarrow> string \<Rightarrow> AlpacaError + Entry" where
  "mapped tbl mem =
     (let bug = DriverError [Lit ''bridge bug''] [Lit ''no mapped table row for '', FmtQ mem] in
      case map_of tbl mem of
        None \<Rightarrow> Inl bug
      | Some e \<Rightarrow>
          if (t_Kind e \<noteq> Mapped \<and> t_Kind e \<noteq> Func) \<or> t_Prop e = [] \<or> t_Elem e = [] then Inl bug
          else Inr e)"

definition Number_read :: "Kit \<Rightarrow> Table \<Rightarrow> string \<Rightarrow> ('d, AlpacaError + f64) kitM" where
  "Number_read k tbl mem =
     (case mapped tbl mem of Inl e \<Rightarrow> ret (Inl e)
      | Inr e \<Rightarrow> bindE (kit_vector k (t_Prop e) mem) (\<lambda>v.
          ret (case Vector_Member v (t_Elem e) of
              None \<Rightarrow> Inl (NotImplemented mem)
            | Some m \<Rightarrow> Inr (m_Value (mv_Member m)))))"

definition Descriptor :: "Kit \<Rightarrow> Table \<Rightarrow> string \<Rightarrow> ('d, (f64 \<times> f64 \<times> f64) option) kitM" where
  "Descriptor k tbl mem =
     (case mapped tbl mem of Inl _ \<Rightarrow> ret None
      | Inr e \<Rightarrow> do {
          r \<leftarrow> kit_vector k (t_Prop e) mem;
          ret (case r of Inl _ \<Rightarrow> None
            | Inr v \<Rightarrow> (case Vector_Member v (t_Elem e) of None \<Rightarrow> None
              | Some mv \<Rightarrow> let m = mv_Member mv in
                  if m_HasRange m then Some (m_Min m, m_Max m, m_Step m) else None)) })"

subsection \<open>Writing\<close>

text \<open>A write's result: \<^const>\<open>None\<close> for success.\<close>

definition SendNumber :: "Kit \<Rightarrow> string \<Rightarrow> f64 gomap \<Rightarrow> ('d, AlpacaError option) kitM" where
  "SendNumber k vec v = do { dev \<leftarrow> DeviceName k; r \<leftarrow> SendCmd (CNumber dev vec v); ret (sendErr r) }"

definition SendSwitch :: "Kit \<Rightarrow> string \<Rightarrow> string list \<Rightarrow> string list \<Rightarrow> ('d, AlpacaError option) kitM" where
  "SendSwitch k vec on off =
     do { dev \<leftarrow> DeviceName k; r \<leftarrow> SendCmd (CSwitch dev vec on off); ret (sendErr r) }"

definition SendText :: "Kit \<Rightarrow> string \<Rightarrow> string gomap \<Rightarrow> ('d, AlpacaError option) kitM" where
  "SendText k vec v = do { dev \<leftarrow> DeviceName k; r \<leftarrow> SendCmd (CText dev vec v); ret (sendErr r) }"

definition range_error :: "string \<Rightarrow> f64 \<Rightarrow> Member \<Rightarrow> AlpacaError" where
  "range_error mem value m =
     InvalidValue [Lit mem, Lit '' '', FmtG value, Lit '' is outside the driver's range '',
       FmtG (m_Min m), Lit '' to '', FmtG (m_Max m)]"

definition out_of_range :: "Member \<Rightarrow> f64 \<Rightarrow> bool" where
  "out_of_range m value \<longleftrightarrow> m_HasRange m \<and> (f_lt value (m_Min m) \<or> f_lt (m_Max m) value)"

definition WriteNumber :: "Kit \<Rightarrow> Table \<Rightarrow> string \<Rightarrow> f64 \<Rightarrow> ('d, AlpacaError option) kitM" where
  "WriteNumber k tbl mem value =
     (case mapped tbl mem of Inl e \<Rightarrow> ret (Some e)
      | Inr e \<Rightarrow> do {
          r \<leftarrow> kit_vector k (t_Prop e) mem;
          (case r of Inl er \<Rightarrow> ret (Some er)
           | Inr v \<Rightarrow>
               (case Vector_Member v (t_Elem e) of
                  Some m \<Rightarrow> if out_of_range (mv_Member m) value
                    then ret (Some (range_error mem value (mv_Member m)))
                    else SendNumber k (t_Prop e) [(t_Elem e, value)]
                | None \<Rightarrow> SendNumber k (t_Prop e) [(t_Elem e, value)])) })"

definition WaitUpdate :: "('d, SendError option) kitM" where
  "WaitUpdate = do { w \<leftarrow> observe; ret (w_update w) }"

definition WaitSettle :: "('d, SendError + State \<times> string) kitM" where
  "WaitSettle = do { w \<leftarrow> observe; ret (w_settle w) }"

text \<open>A missing acknowledgement is logged and otherwise ignored.\<close>

definition WriteNumberAcked :: "Kit \<Rightarrow> Table \<Rightarrow> string \<Rightarrow> f64 \<Rightarrow> ('d, AlpacaError option) kitM" where
  "WriteNumberAcked k tbl mem value =
     (case mapped tbl mem of Inl e \<Rightarrow> ret (Some e)
      | Inr e \<Rightarrow> do {
          since \<leftarrow> Now;
          r \<leftarrow> WriteNumber k tbl mem value;
          (case r of Some er \<Rightarrow> ret (Some er)
           | None \<Rightarrow> do { dev \<leftarrow> DeviceName k; _ \<leftarrow> WaitUpdate; ret None }) })"

definition WriteSwitch :: "Kit \<Rightarrow> Table \<Rightarrow> string \<Rightarrow> ('d, AlpacaError option) kitM" where
  "WriteSwitch k tbl mem =
     (case mapped tbl mem of Inl e \<Rightarrow> ret (Some e)
      | Inr e \<Rightarrow> do {
          r \<leftarrow> kit_vector k (t_Prop e) mem;
          (case r of Inl er \<Rightarrow> ret (Some er) | Inr _ \<Rightarrow> SendSwitch k (t_Prop e) [t_Elem e] []) })"

subsection \<open>Running a kit operation\<close>

lemma run_kit_vector [kit_simps]:
  "run_state (kit_vector k vec mem) e =
    (let w0 = e_world e (e_clock e); w1 = e_world e (Suc (e_clock e)); w2 = e_world e (Suc (Suc (e_clock e))) in
     if \<not> w_serving w0 then (Inl (NotConnected (w_reason w0)), e\<lparr>e_clock := Suc (e_clock e)\<rparr>)
     else if \<not> s_valid (w_snap w1) then (Inl (NotConnected (w_reason w2)), e\<lparr>e_clock := Suc (Suc (Suc (e_clock e)))\<rparr>)
     else (case Snapshot_Vector (w_snap w1) (kit_name k (w_snap w1)) vec of
         None \<Rightarrow> Inl (NotImplemented mem) | Some v \<Rightarrow> Inr v, e\<lparr>e_clock := Suc (Suc (e_clock e))\<rparr>))"
  by (simp add: kit_vector_def Avail_def Snap_def Let_def split: option.splits)

lemma run_send [kit_simps]:
  "run_state (SendNumber k vec v) e =
    (sendErr (w_send (e_world e (Suc (e_clock e)))), e\<lparr>e_clock := Suc (Suc (e_clock e)),
      e_sent := e_sent e @ [CNumber (kit_name k (w_snap (e_world e (e_clock e)))) vec v]\<rparr>)"
  "run_state (SendSwitch k vec on off) e =
    (sendErr (w_send (e_world e (Suc (e_clock e)))), e\<lparr>e_clock := Suc (Suc (e_clock e)),
      e_sent := e_sent e @ [CSwitch (kit_name k (w_snap (e_world e (e_clock e)))) vec on off]\<rparr>)"
  "run_state (SendText k vec x) e =
    (sendErr (w_send (e_world e (Suc (e_clock e)))), e\<lparr>e_clock := Suc (Suc (e_clock e)),
      e_sent := e_sent e @ [CText (kit_name k (w_snap (e_world e (e_clock e)))) vec x]\<rparr>)"
  by (simp_all add: SendNumber_def SendSwitch_def SendText_def DeviceName_def Snap_def SendCmd_def)

lemma mapped_Inr:
  "mapped tbl mem = Inr en \<longleftrightarrow> map_of tbl mem = Some en \<and> (t_Kind en = Mapped \<or> t_Kind en = Func) \<and>
     t_Prop en \<noteq> [] \<and> t_Elem en \<noteq> []"
  by (auto simp: mapped_def Let_def split: option.splits)

text \<open>The instants an operation observes the world at.\<close>

definition during :: "'d Env \<Rightarrow> 'd Env \<Rightarrow> nat \<Rightarrow> bool" where
  "during e e' i \<longleftrightarrow> e_clock e \<le> i \<and> i < e_clock e'"

text \<open>The child serves the property at the kit's device, as the vector \<open>v\<close>.\<close>

definition serves :: "Kit \<Rightarrow> World \<Rightarrow> string \<Rightarrow> Vector \<Rightarrow> bool" where
  "serves k w vec v \<longleftrightarrow> s_valid (w_snap w) \<and> Snapshot_Vector (w_snap w) (kit_name k (w_snap w)) vec = Some v"

lemma kit_vector_serves:
  assumes "run_state (kit_vector k vec mem) e = (Inr v, e')"
  shows "w_serving (e_world e (e_clock e))" "serves k (e_world e (Suc (e_clock e))) vec v"
    "e' = e\<lparr>e_clock := Suc (Suc (e_clock e))\<rparr>"
  using assms by (auto simp: run_kit_vector serves_def Let_def split: if_splits option.splits)

lemma kit_vector_quiet: "run_state (kit_vector k vec mem) e = (r, e') \<Longrightarrow> e_sent e' = e_sent e \<and> e_dev e' = e_dev e \<and> e_clock e < e_clock e'"
  by (auto simp: run_kit_vector Let_def split: if_splits)

text \<open>
  C26: a read never makes a value up: a number that is returned is the value some published, valid
  snapshot held, while the call ran, in the member the table maps it to, and the child was serving
  when the call began; nothing is sent.
\<close>

theorem Number_truthful:
  assumes "run_state (Number_read k tbl mem) e = (Inr x, e')"
  shows "\<exists>en v m i. map_of tbl mem = Some en \<and> w_serving (e_world e (e_clock e)) \<and> during e e' i \<and>
    serves k (e_world e i) (t_Prop en) v \<and> Vector_Member v (t_Elem en) = Some m \<and>
    x = m_Value (mv_Member m) \<and> e_sent e' = e_sent e"
proof -
  obtain en where en: "mapped tbl mem = Inr en"
    using assms by (auto simp: Number_read_def split: sum.splits)
  obtain v e1 where v: "run_state (kit_vector k (t_Prop en) mem) e = (Inr v, e1)"
    and m: "(case Vector_Member v (t_Elem en) of None \<Rightarrow> Inl (NotImplemented mem)
      | Some m \<Rightarrow> Inr (m_Value (mv_Member m))) = Inr x" "e' = e1"
    using assms en by (auto simp: Number_read_def split: prod.splits sum.splits)
  have "during e e' (Suc (e_clock e))" using kit_vector_serves(3) [OF v] m(2) by (simp add: during_def)
  then show ?thesis
    using kit_vector_serves [OF v] m en by (auto simp: mapped_Inr split: option.splits)
qed

definition demo_table :: Table where
  "demo_table = [(''Position'', \<lparr>t_Kind = Mapped, t_Prop = ''P'', t_Elem = ''E'', t_Fn = [], t_Why = []\<rparr>)]"

definition demo_vector :: Vector where
  "demo_vector = def_vector (zero_element\<lparr>e_Name := ''P'', e_Device := ''D'',
     e_Members := [zero_member\<lparr>m_Name := ''E'', m_Value := Fin 7, m_HasRange := True, m_Max := Fin 10\<rparr>]\<rparr>) 5"

definition demo_world :: World where
  "demo_world = \<lparr>w_snap = \<lparr>s_gen = 2, s_valid = True, s_devices = [(''D'', [(''P'', demo_vector)])]\<rparr>,
     w_serving = True, w_reason = [], w_time = 9, w_send = None, w_update = None, w_settle = Inr (Ok, [])\<rparr>"

definition demo_env :: "unit Env" where
  "demo_env = \<lparr>e_world = (\<lambda>_. demo_world), e_clock = 0, e_sent = [], e_dev = ()\<rparr>"

lemma demo_lookup:
  "Snapshot_Vector (w_snap demo_world) ''D'' ''P'' = Some demo_vector"
  "map_option mv_Member (Vector_Member demo_vector ''E'') =
    Some (zero_member\<lparr>m_Name := ''E'', m_Value := Fin 7, m_HasRange := True, m_Max := Fin 10\<rparr>)"
  "kit_name ''D'' s = ''D''" "w_serving demo_world" "s_valid (w_snap demo_world)" "w_send demo_world = None"
  "mapped demo_table ''Position'' =
    Inr \<lparr>t_Kind = Mapped, t_Prop = ''P'', t_Elem = ''E'', t_Fn = [], t_Why = []\<rparr>"
  by (simp_all add: demo_world_def demo_vector_def def_vector_def Snapshot_Vector_def props_of_def kit_name_def
      Vector_Member_def index_members_def zero_element_def zero_member_def mapped_def demo_table_def Let_def)

theorem Number_truthful_witness:
  "\<exists>en v m i. map_of demo_table ''Position'' = Some en \<and> w_serving (e_world demo_env (e_clock demo_env)) \<and>
    during demo_env (demo_env\<lparr>e_clock := 2\<rparr>) i \<and> serves ''D'' (e_world demo_env i) (t_Prop en) v \<and>
    Vector_Member v (t_Elem en) = Some m \<and> Fin 7 = m_Value (mv_Member m) \<and>
    e_sent (demo_env\<lparr>e_clock := 2\<rparr>) = e_sent demo_env"
proof (rule Number_truthful)
  obtain mv where "Vector_Member demo_vector ''E'' = Some mv" "m_Value (mv_Member mv) = Fin 7"
    using demo_lookup(2) by (auto simp: zero_member_def)
  then show "run_state (Number_read ''D'' demo_table ''Position'') demo_env = (Inr (Fin 7), demo_env\<lparr>e_clock := 2\<rparr>)"
    by (simp add: Number_read_def demo_lookup run_kit_vector demo_env_def Let_def)
qed

text \<open>A value inside the limits the driver declared, if it declared any.\<close>

definition in_limits :: "Member \<Rightarrow> f64 \<Rightarrow> bool" where
  "in_limits m x \<longleftrightarrow> (if m_HasRange m then \<not> f_lt x (m_Min m) \<and> \<not> f_lt (m_Max m) x else True)"

lemma not_out_of_range: "(\<not> out_of_range m x) = in_limits m x"
  by (simp add: out_of_range_def in_limits_def)

text \<open>
  C20: a number is written only when it may be: if a call hands anything to the \<^verbatim>\<open>Sender\<close> it is one
  command setting the mapped member to the requested value, and at an instant of the call the child
  served that property with a declared range, if any, that does not exclude the value; an invalid
  value error means nothing was sent.
\<close>

theorem WriteNumber_guarded:
  assumes "run_state (WriteNumber k tbl mem x) e = (r, e')"
  shows "e_sent e' = e_sent e \<or>
    (\<exists>en v i dev. map_of tbl mem = Some en \<and> during e e' i \<and> serves k (e_world e i) (t_Prop en) v \<and>
      (\<forall>m. Vector_Member v (t_Elem en) = Some m \<longrightarrow> in_limits (mv_Member m) x) \<and>
      e_sent e' = e_sent e @ [CNumber dev (t_Prop en) [(t_Elem en, x)]] \<and>
      map_option ErrNumber r \<noteq> Some ErrNumInvalidValue)"
proof (cases "mapped tbl mem")
  case (Inl er)
  then show ?thesis using assms by (auto simp: WriteNumber_def)
next
  case en: (Inr en)
  obtain rv e1 where rv: "run_state (kit_vector k (t_Prop en) mem) e = (rv, e1)" by fastforce
  have send_ok: "map_option ErrNumber (sendErr y) \<noteq> Some ErrNumInvalidValue" for y
    by (cases y rule: sendErr.cases) (auto simp: NotConnected_def DriverError_def)
  show ?thesis
  proof (cases rv)
    case Inl
    then show ?thesis using assms rv en kit_vector_quiet [OF rv] by (auto simp: WriteNumber_def)
  next
    case (Inr v)
    note s = kit_vector_serves [OF rv [unfolded Inr]]
    have run: "run_state (case Vector_Member v (t_Elem en) of
        Some m \<Rightarrow> if out_of_range (mv_Member m) x then ret (Some (range_error mem x (mv_Member m)))
          else SendNumber k (t_Prop en) [(t_Elem en, x)]
      | None \<Rightarrow> SendNumber k (t_Prop en) [(t_Elem en, x)]) e1 = (r, e')"
      using assms rv Inr en by (simp add: WriteNumber_def)
    show ?thesis
    proof (cases "\<exists>m. Vector_Member v (t_Elem en) = Some m \<and> out_of_range (mv_Member m) x")
      case True
      then show ?thesis using run s(3) by auto
    next
      case False
      then have "run_state (SendNumber k (t_Prop en) [(t_Elem en, x)]) e1 = (r, e')"
        using run by (auto split: option.splits if_splits)
      then have r: "r = sendErr (w_send (e_world e1 (Suc (e_clock e1))))"
        and e': "e' = e1\<lparr>e_clock := Suc (Suc (e_clock e1)),
          e_sent := e_sent e1 @ [CNumber (kit_name k (w_snap (e_world e1 (e_clock e1)))) (t_Prop en) [(t_Elem en, x)]]\<rparr>"
        by (simp_all add: run_send)
      have "during e e' (Suc (e_clock e))" by (simp add: e' s(3) during_def)
      then show ?thesis
        using False s(2,3) en send_ok [of "w_send (e_world e1 (Suc (e_clock e1)))"] unfolding mapped_Inr r not_out_of_range [symmetric]
        by (intro disjI2 exI [of _ en] exI [of _ v] exI) (auto simp: e')
    qed
  qed
qed

theorem WriteNumber_guarded_witness:
  "e_sent (demo_env\<lparr>e_clock := 4, e_sent := [CNumber ''D'' ''P'' [(''E'', Fin 3)]]\<rparr>) = e_sent demo_env \<or>
    (\<exists>en v i dev. map_of demo_table ''Position'' = Some en \<and>
      during demo_env (demo_env\<lparr>e_clock := 4, e_sent := [CNumber ''D'' ''P'' [(''E'', Fin 3)]]\<rparr>) i \<and>
      serves ''D'' (e_world demo_env i) (t_Prop en) v \<and>
      (\<forall>m. Vector_Member v (t_Elem en) = Some m \<longrightarrow> in_limits (mv_Member m) (Fin 3)) \<and>
      e_sent (demo_env\<lparr>e_clock := 4, e_sent := [CNumber ''D'' ''P'' [(''E'', Fin 3)]]\<rparr>) =
        e_sent demo_env @ [CNumber dev (t_Prop en) [(t_Elem en, Fin 3)]] \<and>
      map_option ErrNumber None \<noteq> Some ErrNumInvalidValue)"
proof (rule WriteNumber_guarded)
  obtain mv where "Vector_Member demo_vector ''E'' = Some mv" "\<not> out_of_range (mv_Member mv) (Fin 3)"
    using demo_lookup(2) by (auto simp: zero_member_def out_of_range_def)
  then show "run_state (WriteNumber ''D'' demo_table ''Position'' (Fin 3)) demo_env =
      (None, demo_env\<lparr>e_clock := 4, e_sent := [CNumber ''D'' ''P'' [(''E'', Fin 3)]]\<rparr>)"
    by (simp add: WriteNumber_def demo_lookup run_kit_vector run_send demo_env_def Let_def)
qed

text \<open>
  The range check lets a NaN through: whatever range the driver declared, writing NaN to a
  served member hands the command to the \<^verbatim>\<open>Sender\<close>, although \<^verbatim>\<open>WriteNumber\<close> promises that a value
  outside the range is refused with nothing sent.
\<close>

theorem WriteNumber_sends_NaN:
  assumes "mapped tbl mem = Inr en" "w_serving (e_world e (e_clock e))"
    "serves k (e_world e (Suc (e_clock e))) (t_Prop en) v"
  shows "\<exists>dev. e_sent (snd (run_state (WriteNumber k tbl mem NaN) e)) =
    e_sent e @ [CNumber dev (t_Prop en) [(t_Elem en, NaN)]]"
  using assms
  by (cases "Vector_Member v (t_Elem en)")
    (auto simp: WriteNumber_def run_kit_vector run_send serves_def out_of_range_def Let_def)

theorem WriteNumber_sends_NaN_witness:
  "\<exists>dev. e_sent (snd (run_state (WriteNumber ''D'' demo_table ''Position'' NaN) demo_env)) =
    e_sent demo_env @ [CNumber dev ''P'' [(''E'', NaN)]]"
  using WriteNumber_sends_NaN [OF demo_lookup(7), of demo_env "''D''" demo_vector] demo_lookup
  by (simp add: serves_def demo_env_def)

subsection \<open>The in-flight bit\<close>

text \<open>The answers of successive polls with the vector's update times.\<close>

fun polls :: "gotime list \<Rightarrow> Inflight \<Rightarrow> bool list" where
  "polls [] i = []"
| "polls (u # us) i = (let (b, i') = Inflight_Active u i in b # polls us i')"

lemma polls_inactive: "\<not> i_active i \<Longrightarrow> polls us i = replicate (length us) False"
  by (induction us) (auto simp: Inflight_Active_def)

text \<open>
  An operation that was sent is reported in progress until the first poll that sees a vector
  update later than the send, and never again after that, however the update times go on.
\<close>

theorem inflight_until_update:
  "polls us (Inflight_Start now i) =
    replicate (length (takeWhile (\<lambda>u. u \<le> now) us)) True @
    replicate (length (dropWhile (\<lambda>u. u \<le> now) us)) False"
proof -
  have "\<lbrakk>i_active j; i_at j = now\<rbrakk> \<Longrightarrow> polls us j =
      replicate (length (takeWhile (\<lambda>u. u \<le> now) us)) True @
      replicate (length (dropWhile (\<lambda>u. u \<le> now) us)) False" for j
    by (induction us) (auto simp: Inflight_Active_def polls_inactive)
  then show ?thesis by (simp add: Inflight_Start_def)
qed

subsection \<open>Table checks\<close>

text \<open>\<^verbatim>\<open>CheckTotal\<close> sees an interface by reflection: its methods with their number of arguments.
  \<open>common\<close> are the methods of \<^verbatim>\<open>server.Device\<close>, which the goalpaca library declares.\<close>

type_synonym iface = "(string \<times> nat) list"

definition member_key :: "iface \<Rightarrow> string \<times> nat \<Rightarrow> string" where
  "member_key iface m =
     (let (name, numIn) = m in
      if 3 < length name \<and> take 3 name = ''Set'' \<and> numIn = 1 \<and> drop 3 name \<in> set (map fst iface)
      then drop 3 name else name)"

definition wanted :: "string list \<Rightarrow> iface \<Rightarrow> string list" where
  "wanted common iface = map (member_key iface) (filter (\<lambda>m. fst m \<notin> set common) iface)"

definition quote :: "string \<Rightarrow> string" where
  \<comment> \<open>\<^verbatim>\<open>%q\<close> of a Go identifier\<close>
  "quote s = [DQUOTE] @ s @ [DQUOTE]"

definition entry_problems :: "string list \<Rightarrow> string \<times> Entry \<Rightarrow> string list" where
  "entry_problems want x =
     (let (key, e) = x in
      (if key \<notin> set want then [''table entry '' @ quote key @ '' matches no interface method''] else []) @
      (if t_Kind e = Absent \<and> t_Why e = [] then [''absent entry '' @ quote key @ '' has no recorded reason''] else []) @
      (if t_Kind e = Mapped \<and> (t_Prop e = [] \<or> t_Elem e = []) then [''mapped entry '' @ quote key @ '' lacks Prop/Elem''] else []) @
      (if t_Kind e = Func \<and> t_Fn e = [] then [''func entry '' @ quote key @ '' names no function''] else []))"

definition CheckTotal :: "string list \<Rightarrow> iface \<Rightarrow> Table \<Rightarrow> string list" where
  "CheckTotal common iface tbl =
     (let methods = filter (\<lambda>m. fst m \<notin> set common) iface in
      sort (concat (map (\<lambda>m. let key = member_key iface m in
              if map_of tbl key = None
              then [''no table entry for member '' @ quote key @ '' (method '' @ fst m @ '')''] else []) methods) @
            concat (map (entry_problems (wanted common iface)) tbl)))"

lemma sort_empty: "sort xs = [] \<longleftrightarrow> xs = ([] :: string list)"
  by (metis length_0_conv length_sort)

lemma concat_if_empty: "concat (map (\<lambda>x. if P x then [f x] else []) xs) = [] \<longleftrightarrow> (\<forall>x \<in> set xs. \<not> P x)"
  by (induction xs) auto

lemma keys_split:
  "A \<subseteq> fst ` S \<and> (\<forall>(k, e) \<in> S. k \<in> A \<and> P e) \<longleftrightarrow> A = fst ` S \<and> (\<forall>(k, e) \<in> S. P e)"
  by (auto intro: rev_image_eqI)

lemma missing_entries:
  "concat (map (\<lambda>m. if map_of tbl (member_key iface m) = None then [f m] else []) (filter (\<lambda>m. fst m \<notin> set common) iface)) = [] \<longleftrightarrow>
    set (wanted common iface) \<subseteq> set (map fst tbl)"
  unfolding concat_if_empty wanted_def map_of_eq_None_iff by auto

lemma entry_problems_empty:
  "entry_problems want (key, e) = [] \<longleftrightarrow> key \<in> set want \<and> \<not> (t_Kind e = Absent \<and> t_Why e = []) \<and>
    \<not> (t_Kind e = Mapped \<and> (t_Prop e = [] \<or> t_Elem e = [])) \<and> \<not> (t_Kind e = Func \<and> t_Fn e = [])"
  by (simp add: entry_problems_def)

text \<open>
  An empty report means the table is total and sound: every type-specific method has an entry,
  every entry has a method, every mapped entry names its property and member, every function entry
  its function, and every absent one its reason; and only such a table has an empty report.
\<close>

theorem CheckTotal_empty:
  "CheckTotal common iface tbl = [] \<longleftrightarrow>
    set (wanted common iface) = set (map fst tbl) \<and>
    list_all (\<lambda>(_, e). \<not> (t_Kind e = Absent \<and> t_Why e = []) \<and>
      \<not> (t_Kind e = Mapped \<and> (t_Prop e = [] \<or> t_Elem e = [])) \<and> \<not> (t_Kind e = Func \<and> t_Fn e = [])) tbl"
proof -
  have entries: "concat (map (entry_problems w) tbl) = [] \<longleftrightarrow> (\<forall>x \<in> set tbl. entry_problems w x = [])" for w
    by auto
  have "CheckTotal common iface tbl = [] \<longleftrightarrow> set (wanted common iface) \<subseteq> set (map fst tbl) \<and>
      (\<forall>(key, e) \<in> set tbl. entry_problems (wanted common iface) (key, e) = [])"
    unfolding CheckTotal_def Let_def sort_empty append_is_Nil_conv missing_entries entries
      case_prod_unfold prod.collapse by (rule refl)
  then show ?thesis unfolding entry_problems_empty list_all_iff set_map keys_split .
qed

text \<open>Properties the bridge manages itself.\<close>

definition baseProps :: "string list" where
  "baseProps = [''CONNECTION'', ''CONNECTION_MODE'', ''DRIVER_INFO'', ''DEBUG'', ''DEBUG_LEVEL'',
     ''LOGGING_LEVEL'', ''LOG_OUTPUT'', ''SIMULATION'', ''CONFIG_PROCESS'', ''POLLING_PERIOD'',
     ''USEJOYSTICK'', ''SNOOP_DEVICE'', ''ACTIVE_DEVICES'', ''DEVICE_PORT'', ''DEVICE_BAUD_RATE'',
     ''DEVICE_AUTO_SEARCH'', ''DEVICE_LAN_SEARCH'', ''DEVICE_ADDRESS'', ''DEVICE_PORT_SCAN'',
     ''SYSTEM_PORTS'', ''NICKNAME'', ''FILE_DEBUG'']"

definition maps_prop :: "Entry \<Rightarrow> bool" where
  "maps_prop e \<longleftrightarrow> (t_Kind e = Mapped \<or> t_Kind e = Func) \<and> t_Prop e \<noteq> []"

definition Consumed :: "Table \<Rightarrow> string list \<Rightarrow> string \<Rightarrow> bool" where
  "Consumed tbl extra vec \<longleftrightarrow> (\<exists>x \<in> set tbl. maps_prop (snd x) \<and> t_Prop (snd x) = vec) \<or> vec \<in> set extra"

definition Validate :: "Table \<Rightarrow> (string \<Rightarrow> bool) \<Rightarrow> Snapshot \<Rightarrow> string \<Rightarrow> string list" where
  "Validate tbl consumed snap device =
     (if \<not> s_valid snap then []
      else sort
        (concat (map (\<lambda>(mem, e).
            if maps_prop e \<and> Snapshot_Vector snap device (t_Prop e) = None then
              [''mapped-but-absent: '' @ t_Prop e @ '' '' @ [CHR 0xE2, CHR 0x86, CHR 0x90] @ '' '' @ device @
               '' (member '' @ mem @ '' will answer NotImplemented)'']
            else []) tbl) @
         concat (map (\<lambda>vec. if \<not> consumed vec \<and> vec \<notin> set baseProps then
              [''unmapped-but-present: '' @ device @ ''.'' @ vec @ '' (reachable via Actions only)''] else [])
            (Properties snap device))))"

text \<open>
  Validation is silent on a valid snapshot exactly when every property the table maps is defined
  and every defined property is mapped, an extra of the type, or managed by the bridge.
\<close>

theorem Validate_empty:
  assumes "s_valid snap"
  shows "Validate tbl (Consumed tbl extra) snap device = [] \<longleftrightarrow>
    (\<forall>x \<in> set tbl. maps_prop (snd x) \<longrightarrow> t_Prop (snd x) \<in> set (Properties snap device)) \<and>
    set (Properties snap device) \<subseteq> {t_Prop e |mem e. (mem, e) \<in> set tbl \<and> maps_prop e} \<union> set extra \<union> set baseProps"
proof -
  let ?miss = "\<lambda>(mem :: string, e). maps_prop e \<and> t_Prop e \<notin> set (Properties snap device)"
  have "Snapshot_Vector snap device vec = None \<longleftrightarrow> vec \<notin> set (Properties snap device)" for vec
    by (simp add: Properties_def Snapshot_Vector_def map_of_eq_None_iff)
  then have "Validate tbl c snap device = [] \<longleftrightarrow> (\<forall>x \<in> set tbl. \<not> ?miss x) \<and>
      (\<forall>vec \<in> set (Properties snap device). c vec \<or> vec \<in> set baseProps)" for c
    unfolding Validate_def case_prod_unfold
    by (simp only: assms if_False not_True_eq_False sort_empty append_is_Nil_conv concat_if_empty) blast
  moreover have "{t_Prop e |mem e. (mem, e) \<in> set tbl \<and> maps_prop e} = {t_Prop (snd x) |x. x \<in> set tbl \<and> maps_prop (snd x)}"
    by force
  ultimately show ?thesis unfolding Consumed_def by fastforce
qed

theorem Validate_empty_witness:
  "Validate [(''X'', \<lparr>t_Kind = Mapped, t_Prop = ''P'', t_Elem = ''E'', t_Fn = [], t_Why = []\<rparr>)]
     (Consumed [(''X'', \<lparr>t_Kind = Mapped, t_Prop = ''P'', t_Elem = ''E'', t_Fn = [], t_Why = []\<rparr>)] [])
     (w_snap demo_world) ''D'' = []"
  by (subst Validate_empty [OF demo_lookup(5)])
    (auto simp: demo_world_def Properties_def props_of_def maps_prop_def)

end
