(* ===== verification/Supervisor_Core.thy ===== *)
theory Supervisor_Core
  imports Binding_Kit
begin

text \<open>
  The supervisor of one driver child (\<^verbatim>\<open>internal/supervisor\<close>): the phase machine, the element
  handler \<^verbatim>\<open>apply\<close> of the read loop, presets, CONNECT handling, the gated and raw writes, and the
  retry delays. \<open>Sup\<close> is the supervisor's state; what it does to the outside is appended to
  \<open>su_out\<close> in order. The operating system is an oracle: \<open>su_io\<close> says which write fails, and a
  passed file descriptor is the function from a size to the bytes mapped, if mapping succeeds.
  Log lines are not modelled. Waiting for updates is the subject of \<open>Supervisor_Wait\<close>.
\<close>

datatype Phase = PhaseIdle | PhaseSpawning | PhaseAcquiring | PhaseServing | PhaseRetrying | PhaseStopped

record preset =
  ps_prop :: string
  ps_member :: string
  ps_value :: string
  ps_before :: bool

record Config =
  c_Device :: string
  c_PollingPeriodMs :: int
  c_PresetsBefore :: "string gomap"
  c_PresetsAfter :: "string gomap"
  c_HoldConnect :: bool
  c_ClientManaged :: bool
  c_OnBlob :: bool \<comment> \<open>whether each callback is installed\<close>
  c_fwdBlob :: bool
  c_OnElement :: bool
  c_OnServing :: bool

datatype Write = WCmd Cmd | WPingReply string | WGetProperties

fun write_bytes :: "Write \<Rightarrow> string" where
  "write_bytes (WCmd (CNumber d p vs)) = SetNumber d p vs"
| "write_bytes (WCmd (CSwitch d p on off)) = SetSwitch d p on off"
| "write_bytes (WCmd (CText d p vs)) = SetText d p vs"
| "write_bytes (WPingReply uid) = PingReply uid"
| "write_bytes WGetProperties = GetProperties [] []"

datatype Event =
    EWrite Write
  | EElement Element
  | EOnBlob string string string string string \<comment> \<open>device, property, member, payload, format\<close>
  | EFwdBlob Element "string option gomap"
  | EServing Snapshot
  | EWake string string \<comment> \<open>\<^verbatim>\<open>notify\<close>\<close>
  | EFailWaiters

type_synonym fd = "int \<Rightarrow> string option"

record Sup =
  su_cfg :: Config
  su_store :: Store
  su_phase :: Phase
  su_reason :: string
  su_up :: bool \<comment> \<open>the writer is not nil\<close>
  su_presets :: "preset list"
  su_presetSent :: "bool list"
  su_lastDef :: gotime
  su_fds :: "fd list" \<comment> \<open>received with the stream, not yet taken\<close>
  su_io :: "nat \<Rightarrow> string option"
  su_writes :: nat
  su_out :: "Event list"

definition emit :: "Event \<Rightarrow> Sup \<Rightarrow> Sup" where
  "emit ev s = s\<lparr>su_out := su_out s @ [ev]\<rparr>"

subsection \<open>Phases\<close>

definition transition :: "Phase \<Rightarrow> string \<Rightarrow> Sup \<Rightarrow> Sup" where
  "transition p reason s = s\<lparr>su_phase := p, su_reason := (if p \<noteq> PhaseServing then reason else [])\<rparr>"

definition Serving :: "Sup \<Rightarrow> bool" where "Serving s \<longleftrightarrow> su_phase s = PhaseServing"

definition wantDevice :: "Sup \<Rightarrow> string \<Rightarrow> bool" where
  "wantDevice s device \<longleftrightarrow> c_Device (su_cfg s) = [] \<or> c_Device (su_cfg s) = device"

subsection \<open>Presets\<close>

definition preset_key :: "preset \<Rightarrow> string" where
  "preset_key p = ps_prop p @ ''.'' @ ps_member p"

definition add_presets :: "bool \<Rightarrow> string gomap \<Rightarrow> preset list" where
  "add_presets b m =
     concat (map (\<lambda>(k, v). case Cut1 (CHR ''.'') k of None \<Rightarrow> []
       | Some (p, e) \<Rightarrow> [\<lparr>ps_prop = p, ps_member = e, ps_value = v, ps_before = b\<rparr>]) m)"

text \<open>\<^verbatim>\<open>sort.Slice\<close> leaves the order of equal keys open; \<^const>\<open>sort_key\<close> is one of its orders.\<close>

definition parsePresets :: "string gomap \<Rightarrow> string gomap \<Rightarrow> preset list" where
  "parsePresets before after = sort_key preset_key (add_presets True before @ add_presets False after)"

definition New :: "Config \<Rightarrow> (nat \<Rightarrow> string option) \<Rightarrow> Store \<Rightarrow> Sup" where
  "New cfg io st =
     (let ps = parsePresets (c_PresetsBefore cfg) (c_PresetsAfter cfg) in
      \<lparr>su_cfg = cfg, su_store = st, su_phase = PhaseIdle, su_reason = ''not started'', su_up = False,
       su_presets = ps, su_presetSent = replicate (length ps) False, su_lastDef = 0, su_fds = [],
       su_io = io, su_writes = 0, su_out = []\<rparr>)"

definition resetPresets :: "Sup \<Rightarrow> Sup" where
  "resetPresets s = s\<lparr>su_presetSent := replicate (length (su_presets s)) False\<rparr>"

definition presetsBeforeConnectDone :: "Sup \<Rightarrow> bool" where
  "presetsBeforeConnectDone s \<longleftrightarrow>
     list_all (\<lambda>(p, sent). ps_before p \<longrightarrow> sent) (zip (su_presets s) (su_presetSent s))"

subsection \<open>Writes\<close>

definition rawWrite :: "Write \<Rightarrow> Sup \<Rightarrow> SendError option \<times> Sup" where
  "rawWrite w s =
     (if \<not> su_up s then (Some (NotServing (su_reason s)), s)
      else (map_option OtherErr (su_io s (su_writes s)), emit (EWrite w) (s\<lparr>su_writes := Suc (su_writes s)\<rparr>)))"

definition rawSetSwitch :: "string \<Rightarrow> string \<Rightarrow> string list \<Rightarrow> Sup \<Rightarrow> SendError option \<times> Sup" where
  "rawSetSwitch device vec on = rawWrite (WCmd (CSwitch device vec on []))"

definition rawSetSwitchOff :: "string \<Rightarrow> string \<Rightarrow> string list \<Rightarrow> string list \<Rightarrow> Sup \<Rightarrow> SendError option \<times> Sup" where
  "rawSetSwitchOff device vec on off = rawWrite (WCmd (CSwitch device vec on off))"

definition rawSetNumber :: "string \<Rightarrow> string \<Rightarrow> f64 gomap \<Rightarrow> Sup \<Rightarrow> SendError option \<times> Sup" where
  "rawSetNumber device vec v = rawWrite (WCmd (CNumber device vec v))"

definition rawSetText :: "string \<Rightarrow> string \<Rightarrow> string gomap \<Rightarrow> Sup \<Rightarrow> SendError option \<times> Sup" where
  "rawSetText device vec v = rawWrite (WCmd (CText device vec v))"

definition gate :: "Sup \<Rightarrow> SendError option" where
  "gate s = (if \<not> c_ClientManaged (su_cfg s) \<and> \<not> Serving s then Some (NotServing (su_reason s)) else None)"

text \<open>\<^verbatim>\<open>SetNumber\<close>, \<^verbatim>\<open>SetSwitch\<close> and \<^verbatim>\<open>SetText\<close> of the supervisor: the gate, then the raw write.\<close>

definition Sup_Send :: "Cmd \<Rightarrow> Sup \<Rightarrow> SendError option \<times> Sup" where
  "Sup_Send c s =
     (case gate s of Some e \<Rightarrow> (Some e, s)
      | None \<Rightarrow> (case c of
          CNumber d p v \<Rightarrow> rawSetNumber d p v s
        | CSwitch d p on off \<Rightarrow> rawSetSwitchOff d p on off s
        | CText d p v \<Rightarrow> rawSetText d p v s))"

datatype PreconnectError = PcNotHeld | PcContext | PcSend SendError | PcNumber string | PcUnsupported

text \<open>\<open>ctx\<close>: the context has ended. A number that does not parse stops the call; the numbers
  read before it are discarded.\<close>

fun parse_numbers :: "string gomap \<Rightarrow> string + f64 gomap" where
  "parse_numbers [] = Inr []"
| "parse_numbers ((n, v) # m) =
     (let (x, ok) = ParseFloat v in
      if \<not> ok then Inl v else map_sum id ((#) (n, x)) (parse_numbers m))"

definition SetPreconnect :: "bool \<Rightarrow> string \<Rightarrow> string \<Rightarrow> VType \<Rightarrow> string gomap \<Rightarrow> Sup \<Rightarrow> PreconnectError option \<times> Sup" where
  "SetPreconnect ctx device vec kind values s =
     (if \<not> c_HoldConnect (su_cfg s) \<or> vec = ''CONNECTION'' then (Some PcNotHeld, s)
      else if ctx then (Some PcContext, s)
      else case kind of
        Text \<Rightarrow> apfst (map_option PcSend) (rawSetText device vec values s)
      | Switch \<Rightarrow> apfst (map_option PcSend) (rawSetSwitchOff device vec
          (map fst (filter (\<lambda>x. snd x = ''On'') values)) (map fst (filter (\<lambda>x. snd x \<noteq> ''On'') values)) s)
      | Number \<Rightarrow> (case parse_numbers values of Inl v \<Rightarrow> (Some (PcNumber v), s)
          | Inr ns \<Rightarrow> apfst (map_option PcSend) (rawSetNumber device vec ns s))
      | _ \<Rightarrow> (Some PcUnsupported, s))"

subsection \<open>Applying presets\<close>

definition due :: "string \<Rightarrow> bool \<Rightarrow> preset \<times> bool \<Rightarrow> bool" where
  "due vec serving x = (let (p, sent) = x in ps_prop p = vec \<and> \<not> sent \<and> (ps_before p \<or> serving))"

definition fold_off :: "string \<Rightarrow> bool" where
  \<comment> \<open>\<^verbatim>\<open>strings.EqualFold(v, "off")\<close>: no other character folds to these letters\<close>
  "fold_off v \<longleftrightarrow> map lower v = ''off''"

definition preset_numbers :: "preset list \<Rightarrow> f64 gomap \<Rightarrow> f64 gomap" where
  "preset_numbers todo numbers =
     fold (\<lambda>p ns. let (x, ok) = ParseFloat (ps_value p) in
       if ok then AList.update (ps_member p) x ns else ns) todo numbers"

definition applyPresetsFor :: "string \<Rightarrow> string \<Rightarrow> VType \<Rightarrow> f64 gomap \<Rightarrow> bool \<Rightarrow> Sup \<Rightarrow> Sup" where
  "applyPresetsFor device vec vt numbers serving s =
     (let marked = zip (su_presets s) (su_presetSent s);
          todo = map fst (filter (due vec serving) marked);
          s1 = s\<lparr>su_presetSent := map (\<lambda>x. snd x \<or> due vec serving x) marked\<rparr>
      in if todo = [] then s1
         else case vt of
           Switch \<Rightarrow> snd (rawSetSwitchOff device vec
             (map ps_member (filter (\<lambda>p. \<not> fold_off (ps_value p)) todo))
             (map ps_member (filter (\<lambda>p. fold_off (ps_value p)) todo)) s1)
         | Number \<Rightarrow> snd (rawSetNumber device vec (preset_numbers todo numbers) s1)
         | Text \<Rightarrow> snd (rawSetText device vec
             (fold (\<lambda>p. AList.update (ps_member p) (ps_value p)) todo []) s1)
         | _ \<Rightarrow> s1)"

definition member_numbers :: "Member list \<Rightarrow> f64 gomap" where
  "member_numbers ms = fold (\<lambda>m. AList.update (m_Name m) (m_Value m)) ms []"

definition applyPresetDefs :: "Element \<Rightarrow> Sup \<Rightarrow> Sup" where
  "applyPresetDefs el s =
     (if e_Kind el \<noteq> KindDef \<or> su_presets s = [] \<or> \<not> wantDevice s (e_Device el) then s
      else applyPresetsFor (e_Device el) (e_Name el) (e_Type el) (member_numbers (e_Members el)) (Serving s) s)"

definition sweepPresets :: "string \<Rightarrow> Sup \<Rightarrow> Sup" where
  "sweepPresets device s =
     (if su_presets s = [] then s
      else
        let snap = st_cur (su_store s);
            vecs = remdups (map (\<lambda>x. ps_prop (fst x))
              (filter (\<lambda>(p, sent). \<not> ps_before p \<and> \<not> sent) (zip (su_presets s) (su_presetSent s))))
        in fold (\<lambda>vec s. case Snapshot_Vector snap device vec of
             None \<Rightarrow> s
           | Some v \<Rightarrow> applyPresetsFor device vec (v_Type v)
               (member_numbers (map mv_Member (v_Members v))) True s) vecs s)"

subsection \<open>Connecting\<close>

definition sendConnect :: "string \<Rightarrow> Sup \<Rightarrow> Sup" where
  "sendConnect device s =
     (if c_HoldConnect (su_cfg s) then s
      else if \<not> presetsBeforeConnectDone s then
        transition PhaseAcquiring ''waiting to apply before-connect presets'' s
      else snd (rawSetSwitch device ''CONNECTION'' [''CONNECT''] s))"

text \<open>Whether a device's snapshot shows CONNECT in the given state.\<close>

definition connect_is :: "bool \<Rightarrow> Snapshot \<Rightarrow> string \<Rightarrow> bool" where
  "connect_is on snap d =
     (case Snapshot_Vector snap d ''CONNECTION'' of None \<Rightarrow> False
      | Some v \<Rightarrow> (case Vector_Member v ''CONNECT'' of None \<Rightarrow> False | Some m \<Rightarrow> m_On (mv_Member m) = on))"

definition connectAll :: "Sup \<Rightarrow> Sup" where
  "connectAll s =
     (let snap = st_cur (su_store s) in
      fold (\<lambda>d s. if wantDevice s d \<and> connect_is False snap d then sendConnect d s else s) (Devices snap) s)"

definition nudge :: "Sup \<Rightarrow> Sup" where
  "nudge s = (if su_phase s = PhaseAcquiring then connectAll s else s)"

definition disconnectQuietly :: "Sup \<Rightarrow> Sup" where
  "disconnectQuietly s =
     (let snap = st_cur (su_store s) in
      fold (\<lambda>d s. if connect_is True snap d then snd (rawSetSwitch d ''CONNECTION'' [''DISCONNECT''] s) else s)
        (Devices snap) s)"

definition onServing :: "string \<Rightarrow> Sup \<Rightarrow> Sup" where
  "onServing device s =
     (let s1 = (if 0 < c_PollingPeriodMs (su_cfg s) then
            snd (rawSetNumber device ''POLLING_PERIOD'' [(''PERIOD_MS'', rnd (of_int (c_PollingPeriodMs (su_cfg s))))] s)
          else s);
          s2 = sweepPresets device s1
      in if c_OnServing (su_cfg s) then emit (EServing (st_cur (su_store s2))) s2 else s2)"

definition connect_on :: "Element \<Rightarrow> bool" where
  "connect_on el \<longleftrightarrow> list_ex (\<lambda>m. m_Name m = ''CONNECT'' \<and> m_On m) (e_Members el)"

definition evalConnection :: "Element \<Rightarrow> Sup \<Rightarrow> Sup" where
  "evalConnection el s =
     (let on = connect_on el in
      if on \<and> (e_State el = Ok \<or> e_State el = Idle) then
        (if \<not> Serving s then onServing (e_Device el) (transition PhaseServing [] s) else s)
      else if e_State el = Alert then
        transition PhaseAcquiring (''connect refused: '' @
          (if e_Message el = [] then ''CONNECTION Alert'' else e_Message el)) s
      else if \<not> on \<and> Serving s then transition PhaseAcquiring ''device disconnected'' s
      else s)"

subsection \<open>The element handler\<close>

definition announceGone :: "string list \<Rightarrow> Sup \<Rightarrow> Sup" where
  "announceGone ds s =
     (if c_OnElement (su_cfg s) then
        fold (\<lambda>d. emit (EElement (zero_element\<lparr>e_Kind := KindDel, e_Device := d\<rparr>))) ds s
      else s)"

text \<open>One member of \<^verbatim>\<open>deliverBlobs\<close>: its payload, if it has one, and the descriptors left.\<close>

definition take_payload :: "bool \<Rightarrow> Member \<Rightarrow> fd list \<Rightarrow> string option \<times> fd list" where
  "take_payload want m fds =
     (if m_Attached m then
        (case fds of [] \<Rightarrow> (None, []) | fd # fds' \<Rightarrow> (if want then fd (m_Size m) else None, fds'))
      else if m_Data m \<noteq> None \<and> m_Data m \<noteq> Some [] then (m_Data m, fds)
      else (None, fds))"

fun deliver_members :: "Element \<Rightarrow> bool \<Rightarrow> Member list \<Rightarrow> Sup \<times> string option gomap \<Rightarrow> Sup \<times> string option gomap" where
  "deliver_members el want [] acc = acc"
| "deliver_members el want (m # ms) (s, data) =
     (let (payload, fds) = take_payload want m (su_fds s); s1 = s\<lparr>su_fds := fds\<rparr> in
      case payload of
        None \<Rightarrow> deliver_members el want ms (s1, data)
      | Some b \<Rightarrow>
          let s2 = (if c_OnBlob (su_cfg s) then
                emit (EOnBlob (e_Device el) (e_Name el) (m_Name m) b (m_BlobFormat m)) s1 else s1);
              data' = (if c_fwdBlob (su_cfg s) then AList.update (m_Name m) (Some b) data else data)
          in deliver_members el want ms (s2, data'))"

definition deliverBlobs :: "Element \<Rightarrow> Sup \<Rightarrow> Sup" where
  "deliverBlobs el s =
     (let want = c_OnBlob (su_cfg s) \<or> c_fwdBlob (su_cfg s);
          (s1, data) = deliver_members el want (e_Members el) (s, [])
      in if c_fwdBlob (su_cfg s) \<and> e_Kind el = KindSet then emit (EFwdBlob el data) s1 else s1)"

definition sup_apply :: "Element \<Rightarrow> gotime \<Rightarrow> Sup \<Rightarrow> Sup" where
  "sup_apply el now s =
     (let s1 = (if (e_Kind el = KindSet \<or> e_Kind el = KindDef) \<and> e_Type el = BLOB then deliverBlobs el s else s) in
      if e_Kind el = KindPing then snd (rawWrite (WPingReply (e_Name el)) s1)
      else
        let s2 = (if c_OnElement (su_cfg s1) then emit (EElement el) s1 else s1);
            s3 = (if e_Kind el = KindDef then s2\<lparr>su_lastDef := now\<rparr> else s2);
            (changed, st) = Apply el now (su_store s3);
            s4 = applyPresetDefs el (s3\<lparr>su_store := st\<rparr>);
            s5 = (if e_Kind el = KindDef \<and> e_Name el = ''CONNECTION'' \<and> wantDevice s4 (e_Device el)
                  then sendConnect (e_Device el) s4 else s4);
            s6 = (if e_Name el = ''CONNECTION'' \<and> wantDevice s5 (e_Device el) then evalConnection el s5 else s5)
        in if changed then emit (EWake (e_Device el) (e_Name el)) s6 else s6)"

subsection \<open>What a handler leaves alone\<close>

text \<open>\<open>acts P s s'\<close>: the handler kept the configuration, the store and the writer, marked presets
  only as sent, and added events that satisfy \<open>P\<close>.\<close>

definition acts :: "(Event \<Rightarrow> bool) \<Rightarrow> Sup \<Rightarrow> Sup \<Rightarrow> bool" where
  "acts P s s' \<longleftrightarrow> su_cfg s' = su_cfg s \<and> su_presets s' = su_presets s \<and> su_store s' = su_store s \<and>
     su_up s' = su_up s \<and> length (su_presetSent s') = length (su_presetSent s) \<and>
     (\<forall>i < length (su_presetSent s). su_presetSent s ! i \<longrightarrow> su_presetSent s' ! i) \<and>
     (\<exists>evs. su_out s' = su_out s @ evs \<and> list_all P evs)"

lemma acts_refl [simp]: "acts P s s"
  by (simp add: acts_def)

lemma acts_trans: "acts P s s' \<Longrightarrow> acts P s' s'' \<Longrightarrow> acts P s s''"
  by (auto simp: acts_def)

lemma acts_mono: "acts P s s' \<Longrightarrow> (\<And>ev. P ev \<Longrightarrow> Q ev) \<Longrightarrow> acts Q s s'"
  by (auto simp: acts_def list_all_iff)

lemma acts_fold:
  assumes "\<And>x t. x \<in> set xs \<Longrightarrow> acts P s t \<Longrightarrow> acts P t (f x t)" shows "acts P s (fold f xs s)"
proof -
  have "acts P s t \<Longrightarrow> (\<And>x t. x \<in> set xs \<Longrightarrow> acts P s t \<Longrightarrow> acts P t (f x t)) \<Longrightarrow> acts P s (fold f xs t)" for t
  proof (induction xs arbitrary: t)
    case (Cons x xs)
    then have "acts P s (f x t)" using acts_trans by (metis list.set_intros(1))
    with Cons show ?case by simp
  qed simp
  then show ?thesis using assms by simp
qed

lemma acts_emit [simp]: "P ev \<Longrightarrow> acts P s (emit ev s)"
  by (simp add: acts_def emit_def)

lemma acts_transition [simp]: "acts P s (transition p r s)"
  by (simp add: acts_def transition_def)

lemma acts_rawWrite: "P (EWrite w) \<Longrightarrow> acts P s (snd (rawWrite w s))"
  by (auto simp: rawWrite_def acts_def emit_def)

lemmas raw_defs = rawSetSwitch_def rawSetSwitchOff_def rawSetNumber_def rawSetText_def

fun cmd_prop :: "Cmd \<Rightarrow> string" where
  "cmd_prop (CNumber _ p _) = p"
| "cmd_prop (CSwitch _ p _ _) = p"
| "cmd_prop (CText _ p _) = p"

definition event_cmd :: "Event \<Rightarrow> Cmd option" where
  "event_cmd ev = (case ev of EWrite (WCmd c) \<Rightarrow> Some c | _ \<Rightarrow> None)"

lemma event_cmd_simps [simp]:
  "event_cmd (EWrite (WCmd c)) = Some c" "event_cmd (EWrite (WPingReply u)) = None"
  "event_cmd (EWrite WGetProperties) = None" "event_cmd (EElement el) = None"
  "event_cmd (EOnBlob a1 b1 c1 d1 e1) = None" "event_cmd (EFwdBlob el data) = None"
  "event_cmd (EServing sn) = None" "event_cmd (EWake d n) = None" "event_cmd EFailWaiters = None"
  by (simp_all add: event_cmd_def)

definition targets :: "string \<Rightarrow> Event \<Rightarrow> bool" where
  \<comment> \<open>the event writes the property\<close>
  "targets vec ev \<longleftrightarrow> map_option cmd_prop (event_cmd ev) = Some vec"

lemma acts_applyPresetsFor:
  assumes "\<And>ev. targets vec ev \<Longrightarrow> P ev" "length (su_presetSent s) = length (su_presets s)"
  shows "acts P s (applyPresetsFor device vec vt numbers serving s)"
proof -
  have "acts P s (s\<lparr>su_presetSent := map (\<lambda>x. snd x \<or> due vec serving x) (zip (su_presets s) (su_presetSent s))\<rparr>)"
    using assms(2) by (simp add: acts_def)
  then show ?thesis
    using assms(1)
    by (auto simp: applyPresetsFor_def Let_def raw_defs targets_def split: VType.splits
        intro!: acts_trans [OF _ acts_rawWrite])
qed

lemma applyPresetsFor_none:
  "\<forall>p \<in> set (su_presets s). ps_prop p \<noteq> vec \<Longrightarrow> length (su_presetSent s) = length (su_presets s) \<Longrightarrow>
    acts P s (applyPresetsFor device vec vt numbers serving s)"
  by (auto simp: applyPresetsFor_def Let_def due_def acts_def filter_empty_conv dest: set_zip_leftD)

definition sized :: "Sup \<Rightarrow> bool" where
  "sized s \<longleftrightarrow> length (su_presetSent s) = length (su_presets s)"

lemma acts_sized: "acts P s s' \<Longrightarrow> sized s \<Longrightarrow> sized s'"
  by (simp add: acts_def sized_def)

text \<open>A preset pass emits only writes to properties that presets name.\<close>

definition presetting :: "Sup \<Rightarrow> Event \<Rightarrow> bool" where
  "presetting s ev \<longleftrightarrow> (\<exists>p \<in> set (su_presets s). targets (ps_prop p) ev)"

lemma acts_presets:
  assumes "sized s"
  shows "acts (presetting s) s (applyPresetsFor device vec vt numbers serving s)"
proof (cases "\<exists>p \<in> set (su_presets s). ps_prop p = vec")
  case True
  then show ?thesis
    using assms by (intro acts_applyPresetsFor) (auto simp: presetting_def sized_def)
next
  case False
  then show ?thesis using assms by (intro applyPresetsFor_none) (auto simp: sized_def)
qed

lemma acts_applyPresetDefs: "sized s \<Longrightarrow> acts (presetting s) s (applyPresetDefs el s)"
  by (simp add: applyPresetDefs_def acts_presets)

lemma acts_sweepPresets:
  assumes "sized s" shows "acts (presetting s) s (sweepPresets device s)"
proof -
  have step: "acts (presetting s) t (applyPresetsFor device vec vt ns True t)"
    if "acts (presetting s) s t" for t vec vt ns
  proof -
    have "presetting t = presetting s" using that by (simp add: acts_def presetting_def [abs_def])
    then show ?thesis using acts_presets [OF acts_sized [OF that assms]] by auto
  qed
  show ?thesis
    by (auto simp: sweepPresets_def Let_def intro!: acts_fold step split: option.splits)
qed

text \<open>A CONNECT written by the supervisor itself.\<close>

definition connects :: "Event \<Rightarrow> bool" where
  "connects ev \<longleftrightarrow> (case event_cmd ev of Some (CSwitch _ p on _) \<Rightarrow> p = ''CONNECTION'' \<and> ''CONNECT'' \<in> set on
     | _ \<Rightarrow> False)"

lemma connects_targets: "connects ev \<Longrightarrow> targets ''CONNECTION'' ev"
  by (auto simp: connects_def targets_def split: option.splits Cmd.splits)

definition no_connect_preset :: "Sup \<Rightarrow> bool" where
  "no_connect_preset s \<longleftrightarrow> list_all (\<lambda>p. ps_prop p \<noteq> ''CONNECTION'') (su_presets s)"

lemma presetting_not_connects: "no_connect_preset s \<Longrightarrow> presetting s ev \<Longrightarrow> \<not> connects ev"
  using connects_targets by (fastforce simp: presetting_def no_connect_preset_def list_all_iff targets_def)

lemma acts_sweep_quiet:
  "\<lbrakk>sized s; no_connect_preset s\<rbrakk> \<Longrightarrow> acts (\<lambda>ev. \<not> connects ev) s (sweepPresets device s)"
  by (rule acts_mono [OF acts_sweepPresets]) (auto dest: presetting_not_connects)

lemma acts_onServing:
  assumes "sized s" "no_connect_preset s" shows "acts (\<lambda>ev. \<not> connects ev) s (onServing device s)"
proof -
  let ?s1 = "if 0 < c_PollingPeriodMs (su_cfg s) then
      snd (rawSetNumber device ''POLLING_PERIOD'' [(''PERIOD_MS'', rnd (of_int (c_PollingPeriodMs (su_cfg s))))] s)
    else s"
  have a1: "acts (\<lambda>ev. \<not> connects ev) s ?s1" by (simp add: raw_defs acts_rawWrite connects_def)
  then have "sized ?s1" "no_connect_preset ?s1"
    using acts_sized [OF a1 assms(1)] assms(2) a1 unfolding no_connect_preset_def acts_def by simp_all
  then have "acts (\<lambda>ev. \<not> connects ev) ?s1 (sweepPresets device ?s1)" by (rule acts_sweep_quiet)
  then have "acts (\<lambda>ev. \<not> connects ev) s (sweepPresets device ?s1)" using a1 acts_trans by blast
  then show ?thesis
    unfolding onServing_def Let_def
    by (auto intro: acts_trans [OF _ acts_emit] simp: connects_def)
qed

lemma acts_evalConnection:
  assumes "sized s" "no_connect_preset s" shows "acts (\<lambda>ev. \<not> connects ev) s (evalConnection el s)"
proof -
  have "sized (transition p r s)" "no_connect_preset (transition p r s)" for p r
    using assms by (auto simp: transition_def sized_def no_connect_preset_def)
  then show ?thesis
    unfolding evalConnection_def Let_def
    by (auto intro: acts_trans [OF acts_transition acts_onServing])
qed

lemma presets_done_mono:
  "\<lbrakk>acts P s s'; sized s; presetsBeforeConnectDone s\<rbrakk> \<Longrightarrow> presetsBeforeConnectDone s'"
  by (auto simp: presetsBeforeConnectDone_def acts_def sized_def list_all_length)

text \<open>What \<^const>\<open>sendConnect\<close> adds: nothing, or one CONNECT that was due.\<close>

lemma acts_sendConnect:
  "acts (\<lambda>ev. connects ev \<longrightarrow> \<not> c_HoldConnect (su_cfg s) \<and> presetsBeforeConnectDone s) s (sendConnect device s)"
  by (auto simp: sendConnect_def raw_defs intro!: acts_rawWrite)

lemma acts_deliver_members:
  "acts (\<lambda>ev. \<not> connects ev) s (fst (deliver_members el want ms (s, data)))"
proof (induction ms arbitrary: s data)
  case (Cons m ms)
  define s1 where "s1 = s\<lparr>su_fds := snd (take_payload want m (su_fds s))\<rparr>"
  have s1: "acts (\<lambda>ev. \<not> connects ev) s s1" by (simp add: acts_def s1_def)
  show ?case
  proof (cases "fst (take_payload want m (su_fds s))")
    case None
    then have "deliver_members el want (m # ms) (s, data) = deliver_members el want ms (s1, data)"
      by (simp add: s1_def Let_def case_prod_unfold)
    then show ?thesis using acts_trans [OF s1 Cons.IH] by simp
  next
    case (Some b)
    define s2 where "s2 = (if c_OnBlob (su_cfg s) then
        emit (EOnBlob (e_Device el) (e_Name el) (m_Name m) b (m_BlobFormat m)) s1 else s1)"
    have s2: "acts (\<lambda>ev. \<not> connects ev) s1 s2" by (simp add: s2_def connects_def)
    have "deliver_members el want (m # ms) (s, data) = deliver_members el want ms
        (s2, if c_fwdBlob (su_cfg s) then AList.update (m_Name m) (Some b) data else data)"
      using Some by (simp add: s1_def s2_def Let_def case_prod_unfold)
    then show ?thesis using acts_trans [OF s1 acts_trans [OF s2 Cons.IH]] by simp
  qed
qed simp

lemma acts_deliverBlobs: "acts (\<lambda>ev. \<not> connects ev) s (deliverBlobs el s)"
  using acts_deliver_members [of s el "c_OnBlob (su_cfg s) \<or> c_fwdBlob (su_cfg s)" "e_Members el" "[]"]
  by (auto simp: deliverBlobs_def Let_def connects_def split: prod.splits intro: acts_trans [OF _ acts_emit])

subsection \<open>CONNECT waits for the presets\<close>

definition added :: "(Event \<Rightarrow> bool) \<Rightarrow> Sup \<Rightarrow> Sup \<Rightarrow> bool" where
  "added P s s' \<longleftrightarrow> (\<exists>evs. su_out s' = su_out s @ evs \<and> list_all P evs)"

lemma acts_added: "acts P s s' \<Longrightarrow> added P s s'"
  by (simp add: acts_def added_def)

lemma added_trans: "added P s s' \<Longrightarrow> added P s' s'' \<Longrightarrow> added P s s''"
  by (auto simp: added_def)

lemma added_mono: "added P s s' \<Longrightarrow> (\<And>ev. P ev \<Longrightarrow> Q ev) \<Longrightarrow> added Q s s'"
  by (auto simp: added_def list_all_iff)

text \<open>The three stages of \<^const>\<open>sup_apply\<close> before, at and after the decision to connect.\<close>

definition before_store :: "Element \<Rightarrow> gotime \<Rightarrow> Sup \<Rightarrow> Sup" where
  "before_store el now s =
     (let s1 = (if (e_Kind el = KindSet \<or> e_Kind el = KindDef) \<and> e_Type el = BLOB then deliverBlobs el s else s);
          s2 = (if c_OnElement (su_cfg s1) then emit (EElement el) s1 else s1)
      in if e_Kind el = KindDef then s2\<lparr>su_lastDef := now\<rparr> else s2)"

definition with_presets :: "Element \<Rightarrow> gotime \<Rightarrow> Sup \<Rightarrow> Sup" where
  "with_presets el now s = applyPresetDefs el (s\<lparr>su_store := snd (Apply el now (su_store s))\<rparr>)"

definition connecting :: "Element \<Rightarrow> Sup \<Rightarrow> Sup" where
  "connecting el s =
     (if e_Kind el = KindDef \<and> e_Name el = ''CONNECTION'' \<and> wantDevice s (e_Device el)
      then sendConnect (e_Device el) s else s)"

definition evaluating :: "Element \<Rightarrow> Sup \<Rightarrow> Sup" where
  "evaluating el s = (if e_Name el = ''CONNECTION'' \<and> wantDevice s (e_Device el) then evalConnection el s else s)"

definition waking :: "Element \<Rightarrow> bool \<Rightarrow> Sup \<Rightarrow> Sup" where
  "waking el changed s = (if changed then emit (EWake (e_Device el) (e_Name el)) s else s)"

lemma sup_apply_stages:
  assumes "e_Kind el \<noteq> KindPing"
  shows "sup_apply el now s =
    (let s3 = before_store el now s in
     waking el (fst (Apply el now (su_store s3))) (evaluating el (connecting el (with_presets el now s3))))"
  using assms
  by (simp add: sup_apply_def before_store_def with_presets_def connecting_def evaluating_def waking_def
      Let_def case_prod_unfold)

lemma sup_apply_ping:
  "e_Kind el = KindPing \<Longrightarrow> sup_apply el now s = snd (rawWrite (WPingReply (e_Name el)) s)"
  by (simp add: sup_apply_def)

lemma acts_before_store: "acts (\<lambda>ev. \<not> connects ev) s (before_store el now s)"
proof -
  define s1 where "s1 = (if (e_Kind el = KindSet \<or> e_Kind el = KindDef) \<and> e_Type el = BLOB then deliverBlobs el s else s)"
  define s2 where "s2 = (if c_OnElement (su_cfg s1) then emit (EElement el) s1 else s1)"
  have "acts (\<lambda>ev. \<not> connects ev) s s1" by (simp add: s1_def acts_deliverBlobs)
  moreover have "acts (\<lambda>ev. \<not> connects ev) s1 s2" by (simp add: s2_def connects_def)
  moreover have "acts (\<lambda>ev. \<not> connects ev) s2 (before_store el now s)"
    by (simp add: before_store_def Let_def s1_def s2_def acts_def)
  ultimately show ?thesis using acts_trans by blast
qed

definition sup_ok :: "Sup \<Rightarrow> bool" where
  "sup_ok s \<longleftrightarrow> sized s \<and> no_connect_preset s"

lemma acts_sup_ok: "acts P s s' \<Longrightarrow> sup_ok s \<Longrightarrow> sup_ok s'"
  by (auto simp: sup_ok_def acts_def sized_def no_connect_preset_def)

lemma with_presets_quiet:
  assumes "sup_ok s"
  shows "added (\<lambda>ev. \<not> connects ev) s (with_presets el now s)" "sup_ok (with_presets el now s)"
    "su_cfg (with_presets el now s) = su_cfg s"
proof -
  let ?t = "s\<lparr>su_store := snd (Apply el now (su_store s))\<rparr>"
  have ok: "sup_ok ?t" using assms by (simp add: sup_ok_def sized_def no_connect_preset_def)
  have a: "acts (\<lambda>ev. \<not> connects ev) ?t (with_presets el now s)"
    unfolding with_presets_def using ok
    by (intro acts_mono [OF acts_applyPresetDefs]) (auto simp: sup_ok_def dest: presetting_not_connects)
  show "sup_ok (with_presets el now s)" using a ok by (rule acts_sup_ok)
  show "added (\<lambda>ev. \<not> connects ev) s (with_presets el now s)" "su_cfg (with_presets el now s) = su_cfg s"
    using a by (auto simp: acts_def added_def)
qed

lemma sup_apply_connects:
  assumes "sup_ok s"
  shows "added (\<lambda>ev. connects ev \<longrightarrow> \<not> c_HoldConnect (su_cfg s) \<and> presetsBeforeConnectDone (sup_apply el now s))
    s (sup_apply el now s)"
proof (cases "e_Kind el = KindPing")
  case True
  then show ?thesis
    by (simp add: sup_apply_ping acts_added [OF acts_rawWrite] connects_def)
next
  case False
  define s3 where "s3 = before_store el now s"
  define s4 where "s4 = with_presets el now s3"
  define s5 where "s5 = connecting el s4"
  define s6 where "s6 = evaluating el s5"
  define s7 where "s7 = waking el (fst (Apply el now (su_store s3))) s6"
  have s7': "sup_apply el now s = s7"
    using False by (simp add: sup_apply_stages Let_def s3_def s4_def s5_def s6_def s7_def)
  have a3: "acts (\<lambda>ev. \<not> connects ev) s s3" unfolding s3_def by (rule acts_before_store)
  then have ok3: "sup_ok s3" using assms by (rule acts_sup_ok)
  note a4 = with_presets_quiet [OF ok3, of el now, folded s4_def]
  let ?P = "\<lambda>ev. connects ev \<longrightarrow> \<not> c_HoldConnect (su_cfg s4) \<and> presetsBeforeConnectDone s4"
  have a5: "acts ?P s4 s5" by (simp add: s5_def connecting_def acts_sendConnect)
  then have ok5: "sup_ok s5" using a4(2) by (rule acts_sup_ok)
  have a6: "acts (\<lambda>ev. \<not> connects ev) s5 s6"
    using ok5 by (simp add: s6_def evaluating_def acts_evalConnection sup_ok_def)
  have a7: "acts (\<lambda>ev. \<not> connects ev) s6 s7" by (simp add: s7_def waking_def connects_def)
  have "acts (\<lambda>_. True) s4 s7"
    by (intro acts_trans [OF acts_mono [OF a5] acts_trans [OF acts_mono [OF a6] acts_mono [OF a7]]]) simp_all
  then have "presetsBeforeConnectDone s4 \<Longrightarrow> presetsBeforeConnectDone s7"
    using a4(2) by (auto simp: sup_ok_def intro: presets_done_mono)
  moreover have "su_cfg s4 = su_cfg s" using a3 a4(3) by (simp add: acts_def)
  moreover have "added ?P s s7"
    using a4(1) by (intro added_trans [OF added_mono [OF acts_added [OF a3]]
        added_trans [OF added_mono [of "\<lambda>ev. \<not> connects ev" s3 s4]
        added_trans [OF acts_added [OF a5] added_trans [OF added_mono [OF acts_added [OF a6]]
          added_mono [OF acts_added [OF a7]]]]]]) auto
  ultimately show ?thesis unfolding s7' by (auto elim: added_mono)
qed

lemma nudge_connects:
  assumes "sup_ok s"
  shows "acts (\<lambda>ev. connects ev \<longrightarrow> \<not> c_HoldConnect (su_cfg s) \<and> presetsBeforeConnectDone s) s (nudge s)"
proof -
  let ?P = "\<lambda>ev. connects ev \<longrightarrow> \<not> c_HoldConnect (su_cfg s) \<and> presetsBeforeConnectDone s"
  have keep: "su_presetSent (sendConnect d t) = su_presetSent t" for d t
    by (simp add: sendConnect_def transition_def raw_defs rawWrite_def emit_def)
  have "acts ?P s (fold (\<lambda>d s. if wantDevice s d \<and> connect_is False snap d then sendConnect d s else s) ds s)
      \<and> su_presetSent (fold (\<lambda>d s. if wantDevice s d \<and> connect_is False snap d then sendConnect d s else s) ds s)
        = su_presetSent s" for snap ds
  proof (induction ds rule: rev_induct)
    case (snoc d ds)
    let ?t = "fold (\<lambda>d s. if wantDevice s d \<and> connect_is False snap d then sendConnect d s else s) ds s"
    have "su_cfg ?t = su_cfg s" "presetsBeforeConnectDone ?t = presetsBeforeConnectDone s"
      using snoc by (auto simp: acts_def presetsBeforeConnectDone_def)
    then have "acts ?P ?t (sendConnect d ?t)" using acts_sendConnect [of ?t d] by simp
    then show ?case using snoc acts_trans keep by auto
  qed simp
  then show ?thesis by (simp add: nudge_def connectAll_def Let_def)
qed


definition plain_config :: Config where
  "plain_config = \<lparr>c_Device = [], c_PollingPeriodMs = 0, c_PresetsBefore = [], c_PresetsAfter = [],
     c_HoldConnect = False, c_ClientManaged = False, c_OnBlob = False, c_fwdBlob = False, c_OnElement = False,
     c_OnServing = False\<rparr>"

definition plain_sup :: Sup where
  "plain_sup = (New plain_config (\<lambda>_. None) NewStore)\<lparr>su_up := True\<rparr>"

lemma plain_sup_ok: "sup_ok plain_sup" "su_presets plain_sup = []" "su_cfg plain_sup = plain_config"
  "su_store plain_sup = NewStore" "su_presetSent plain_sup = []" "su_up plain_sup"
  by (simp_all add: sup_ok_def sized_def no_connect_preset_def plain_sup_def plain_config_def New_def Let_def
      parsePresets_def add_presets_def)

definition connected_element :: Element where
  "connected_element = zero_element\<lparr>e_Kind := KindSet, e_Type := Switch, e_Device := ''D'',
     e_Name := ''CONNECTION'', e_State := Ok, e_Members := [zero_member\<lparr>m_Name := ''CONNECT'', m_On := True\<rparr>]\<rparr>"


subsection \<open>The phase machine\<close>

text \<open>The parts of the state no handler but the store's changes, and the phase.\<close>

definition stable :: "Sup \<Rightarrow> Config \<times> preset list \<times> Store \<times> bool" where
  "stable s = (su_cfg s, su_presets s, su_store s, su_up s)"

definition steady :: "Sup \<Rightarrow> (Config \<times> preset list \<times> Store \<times> bool) \<times> Phase" where
  "steady s = (stable s, su_phase s)"

lemma core_simps [simp]:
  "steady (emit ev s) = steady s" "steady (snd (rawWrite w s)) = steady s"
  "steady (applyPresetsFor device vec vt ns sv s) = steady s"
  "steady (applyPresetDefs el s) = steady s"
  "stable (transition p r s) = stable s" "su_phase (transition p r s) = p"
  by (simp_all add: steady_def stable_def emit_def rawWrite_def applyPresetsFor_def raw_defs applyPresetDefs_def
      transition_def Let_def split: VType.splits)

lemma core_base: "steady s = steady s' \<Longrightarrow> stable s = stable s' \<and> su_phase s = su_phase s'"
  by (simp add: steady_def)

lemma core_fold: "(\<And>x t. steady (f x t) = steady t) \<Longrightarrow> steady (fold f xs s) = steady s"
  by (induction xs arbitrary: s) auto

lemma core_sweepPresets [simp]: "steady (sweepPresets device s) = steady s"
  by (auto simp: sweepPresets_def Let_def intro!: core_fold split: option.splits)

lemma core_onServing [simp]: "steady (onServing device s) = steady s"
  by (simp add: onServing_def Let_def raw_defs)

lemma core_deliver_members [simp]: "steady (fst (deliver_members el want ms (s, data))) = steady s"
proof (induction ms arbitrary: s data)
  case (Cons m ms)
  have fds: "steady (s\<lparr>su_fds := x\<rparr>) = steady s" for s x by (simp add: steady_def stable_def)
  show ?case using Cons by (auto simp: Let_def fds split: prod.splits option.splits)
qed simp

lemma core_deliverBlobs [simp]: "steady (deliverBlobs el s) = steady s"
proof -
  obtain t data where d: "deliver_members el (c_OnBlob (su_cfg s) \<or> c_fwdBlob (su_cfg s)) (e_Members el) (s, []) = (t, data)"
    by fastforce
  then have "steady t = steady s"
    using core_deliver_members [of el "c_OnBlob (su_cfg s) \<or> c_fwdBlob (su_cfg s)" "e_Members el" s "[]"] by simp
  then show ?thesis by (simp add: deliverBlobs_def Let_def d)
qed

lemma base_sendConnect [simp]: "stable (sendConnect d s) = stable s"
  using core_base [OF core_simps(2)] by (simp add: sendConnect_def raw_defs)

lemma base_evalConnection [simp]: "stable (evalConnection el s) = stable s"
  using core_base [OF core_onServing] by (simp add: evalConnection_def Let_def)

lemma core_stages [simp]:
  "steady (before_store el now s) = steady s" "steady (waking el c s) = steady s"
  "steady (with_presets el now s) = steady (s\<lparr>su_store := snd (Apply el now (su_store s))\<rparr>)"
proof -
  have "steady (s\<lparr>su_lastDef := x\<rparr>) = steady s" for s x by (simp add: steady_def stable_def)
  then show "steady (before_store el now s) = steady s" by (simp add: before_store_def Let_def)
  show "steady (waking el c s) = steady s" by (simp add: waking_def)
  show "steady (with_presets el now s) = steady (s\<lparr>su_store := snd (Apply el now (su_store s))\<rparr>)"
    by (simp add: with_presets_def)
qed

lemma base_stages [simp]:
  "stable (connecting el s) = stable s" "stable (evaluating el s) = stable s"
  by (simp_all add: connecting_def evaluating_def)

lemma base_before_store [simp]: "stable (before_store el now s) = stable s" "su_phase (before_store el now s) = su_phase s"
  using core_base [OF core_stages(1)] by auto

lemma base_with_presets:
  "su_cfg (with_presets el now s) = su_cfg s" "su_presets (with_presets el now s) = su_presets s"
  "su_store (with_presets el now s) = snd (Apply el now (su_store s))" "su_up (with_presets el now s) = su_up s"
  "su_phase (with_presets el now s) = su_phase s"
  using core_base [OF core_stages(3), of el now s] by (auto simp: stable_def)

text \<open>Handling an element applies it to the store once, and keeps the configuration and the writer.\<close>

lemma sup_apply_base:
  "stable (sup_apply el now s) = (su_cfg s, su_presets s, snd (Apply el now (su_store s)), su_up s)"
proof (cases "e_Kind el = KindPing")
  case True
  then show ?thesis
    using core_base [OF core_simps(2)] by (simp add: sup_apply_ping Apply_def stable_def)
next
  case False
  let ?s3 = "before_store el now s"
  have "stable (sup_apply el now s) = stable (with_presets el now ?s3)"
    using False core_base [OF core_stages(2)] by (simp add: sup_apply_stages Let_def)
  moreover have "su_store ?s3 = su_store s" "su_cfg ?s3 = su_cfg s" "su_presets ?s3 = su_presets s" "su_up ?s3 = su_up s"
    using base_before_store(1) [of el now s] by (simp_all add: stable_def)
  ultimately show ?thesis by (simp add: stable_def base_with_presets)
qed

text \<open>The definition of a wanted CONNECTION finds before-connect presets still to be sent.\<close>

definition gated :: "Element \<Rightarrow> gotime \<Rightarrow> Sup \<Rightarrow> bool" where
  "gated el now s \<longleftrightarrow> e_Kind el = KindDef \<and> \<not> c_HoldConnect (su_cfg s) \<and>
     \<not> presetsBeforeConnectDone (with_presets el now (before_store el now s))"

lemma phase_result:
  "su_phase (sup_apply el now s) =
    (if e_Kind el = KindPing \<or> e_Name el \<noteq> ''CONNECTION'' \<or> \<not> wantDevice s (e_Device el) then su_phase s
     else if connect_on el \<and> (e_State el = Ok \<or> e_State el = Idle) then PhaseServing
     else if e_State el = Alert then PhaseAcquiring
     else if gated el now s then PhaseAcquiring
     else if \<not> connect_on el \<and> su_phase s = PhaseServing then PhaseAcquiring
     else su_phase s)"
proof (cases "e_Kind el = KindPing")
  case True
  then show ?thesis using core_base [OF core_simps(2)] by (simp add: sup_apply_ping)
next
  case False
  define s4 where "s4 = with_presets el now (before_store el now s)"
  define s5 where "s5 = connecting el s4"
  have cfg: "su_cfg s4 = su_cfg s" "su_phase s4 = su_phase s"
    using base_before_store(1) [of el now s] by (simp_all add: s4_def base_with_presets stable_def)
  then have w4: "wantDevice s4 d = wantDevice s d" for d by (simp add: wantDevice_def)
  have w5: "wantDevice s5 d = wantDevice s d" for d
    using w4 base_stages(1) [of el s4] by (simp add: s5_def wantDevice_def stable_def)
  have p5: "su_phase s5 = (if e_Name el = ''CONNECTION'' \<and> wantDevice s (e_Device el) \<and> gated el now s
      then PhaseAcquiring else su_phase s)"
    using w4 cfg core_base [OF core_simps(2)]
    by (auto simp: s5_def connecting_def sendConnect_def gated_def s4_def [symmetric] raw_defs)
  have "su_phase (sup_apply el now s) = su_phase (evaluating el s5)"
    using False core_base [OF core_stages(2)] by (simp add: sup_apply_stages Let_def s4_def s5_def)
  then show ?thesis
    using False p5 w5 core_base [OF core_onServing]
    by (auto simp: evaluating_def evalConnection_def Let_def Serving_def)
qed

text \<open>
  The phase after an element is decided by the CONNECTION elements of wanted devices alone:
  Serving when CONNECT is on and the state is Ok or Idle; Acquiring on Alert, when CONNECT is not on
  while serving, and when a definition finds presets that must go first; otherwise as before.
\<close>

theorem phase_after_element:
  "su_phase (sup_apply el now s) =
    (if e_Kind el \<noteq> KindPing \<and> e_Name el = ''CONNECTION'' \<and> wantDevice s (e_Device el) then
       (if connect_on el \<and> (e_State el = Ok \<or> e_State el = Idle) then PhaseServing
        else if e_State el = Alert then PhaseAcquiring
        else if gated el now s then PhaseAcquiring
        else if \<not> connect_on el \<and> su_phase s = PhaseServing then PhaseAcquiring
        else su_phase s)
     else su_phase s)"
  by (auto simp: phase_result)

text \<open>
  The handler does not look at an element's kind before it judges a connection: a driver that
  merely asks to snoop some device's CONNECTION (a \<open>getProperties\<close> element) takes a supervisor
  without a configured device out of service, though nothing was disconnected and the snapshot did
  not change.
\<close>

theorem snoop_request_stops_serving:
  assumes "su_phase s = PhaseServing" "c_Device (su_cfg s) = []"
    "el = zero_element\<lparr>e_Kind := KindGetProps, e_Device := d, e_Name := ''CONNECTION''\<rparr>"
  shows "su_phase (sup_apply el now s) = PhaseAcquiring \<and> su_store (sup_apply el now s) = su_store s"
proof
  show "su_phase (sup_apply el now s) = PhaseAcquiring"
    using assms by (subst phase_result)
      (simp_all add: zero_element_def wantDevice_def connect_on_def gated_def)
  show "su_store (sup_apply el now s) = su_store s"
    using assms by (simp add: sup_apply_def Apply_def zero_element_def applyPresetDefs_def evalConnection_def
        connect_on_def wantDevice_def Let_def transition_def emit_def)
qed

theorem snoop_request_stops_serving_witness:
  "su_phase (sup_apply (zero_element\<lparr>e_Kind := KindGetProps, e_Device := ''Dome'', e_Name := ''CONNECTION''\<rparr>) 2
      (plain_sup\<lparr>su_phase := PhaseServing\<rparr>)) = PhaseAcquiring \<and>
    su_store (sup_apply (zero_element\<lparr>e_Kind := KindGetProps, e_Device := ''Dome'', e_Name := ''CONNECTION''\<rparr>) 2
      (plain_sup\<lparr>su_phase := PhaseServing\<rparr>)) = su_store (plain_sup\<lparr>su_phase := PhaseServing\<rparr>)"
  by (rule snoop_request_stops_serving [OF _ _ refl]) (use plain_sup_ok in \<open>simp_all add: plain_config_def\<close>)

definition preset_sup :: "string \<Rightarrow> Sup" where
  "preset_sup v = (New (plain_config\<lparr>c_PresetsBefore := [(''P.M'', v)]\<rparr>) (\<lambda>_. None) NewStore)\<lparr>su_up := True\<rparr>"

definition preset_def_element :: Element where
  "preset_def_element = zero_element\<lparr>e_Kind := KindDef, e_Type := Number, e_Device := ''D'', e_Name := ''P'',
     e_Members := [zero_member\<lparr>m_Name := ''M'', m_Value := Fin 4\<rparr>]\<rparr>"

definition connection_def_element :: Element where
  "connection_def_element = zero_element\<lparr>e_Kind := KindDef, e_Type := Switch, e_Device := ''D'',
     e_Name := ''CONNECTION'', e_Members := [zero_member\<lparr>m_Name := ''CONNECT''\<rparr>]\<rparr>"

text \<open>
  A before-connect preset is only attempted, not applied, before CONNECT: when its value is not a
  number and its vector is, the definition of the vector writes the current values without it,
  and the definition of CONNECTION that follows writes CONNECT.
\<close>

theorem preset_not_applied:
  assumes "\<not> snd (ParseFloat v)"
  shows "su_out (sup_apply connection_def_element 2 (sup_apply preset_def_element 1 (preset_sup v))) =
    [EWrite (WCmd (CNumber ''D'' ''P'' [(''M'', Fin 4)])), EWake ''D'' ''P'',
     EWrite (WCmd (CSwitch ''D'' ''CONNECTION'' [''CONNECT''] [])), EWake ''D'' ''CONNECTION'']"
proof -
  let ?p = "\<lparr>ps_prop = ''P'', ps_member = ''M'', ps_value = v, ps_before = True\<rparr>"
  have s0: "su_presets (preset_sup v) = [?p]" "su_presetSent (preset_sup v) = [False]" "su_out (preset_sup v) = []"
    "su_up (preset_sup v)" "su_cfg (preset_sup v) = plain_config\<lparr>c_PresetsBefore := [(''P.M'', v)]\<rparr>"
    "su_store (preset_sup v) = NewStore" "su_phase (preset_sup v) = PhaseIdle"
    by (simp_all add: preset_sup_def New_def Let_def parsePresets_def add_presets_def plain_config_def)
  have nums: "preset_numbers [?p] ns = ns" for ns
    using assms by (simp add: preset_numbers_def case_prod_unfold)
  note ev = sup_apply_def Let_def plain_config_def zero_element_def zero_member_def Apply_def applyDef_def
    props_of_def NewStore_def applyPresetDefs_def applyPresetsFor_def due_def wantDevice_def raw_defs rawWrite_def
    emit_def member_numbers_def publish_def cow_def maxProperties_def
  define s1 where "s1 = sup_apply preset_def_element 1 (preset_sup v)"
  have s1: "su_presets s1 = [?p]" "su_presetSent s1 = [True]" "su_up s1" "su_phase s1 = PhaseIdle"
    "su_cfg s1 = plain_config\<lparr>c_PresetsBefore := [(''P.M'', v)]\<rparr>"
    "su_out s1 = [EWrite (WCmd (CNumber ''D'' ''P'' [(''M'', Fin 4)])), EWake ''D'' ''P'']"
    "length (props_of (st_cur (su_store s1)) ''D'') = 1"
    by (simp_all add: s1_def s0 ev preset_def_element_def nums)
  have "su_out (sup_apply connection_def_element 2 s1) = su_out s1 @
      [EWrite (WCmd (CSwitch ''D'' ''CONNECTION'' [''CONNECT''] [])), EWake ''D'' ''CONNECTION'']"
    using s1(7) by (simp add: s1(1-6) connection_def_element_def sup_apply_def Let_def plain_config_def
        zero_element_def zero_member_def Apply_def applyDef_def applyPresetDefs_def applyPresetsFor_def due_def
        wantDevice_def raw_defs rawWrite_def emit_def maxProperties_def sendConnect_def presetsBeforeConnectDone_def
        evalConnection_def connect_on_def Serving_def)
  then show ?thesis by (simp add: s1_def s1(6) [unfolded s1_def])
qed

theorem preset_not_applied_witness:
  "su_out (sup_apply connection_def_element 2 (sup_apply preset_def_element 1 (preset_sup ''abc''))) =
    [EWrite (WCmd (CNumber ''D'' ''P'' [(''M'', Fin 4)])), EWake ''D'' ''P'',
     EWrite (WCmd (CSwitch ''D'' ''CONNECTION'' [''CONNECT''] [])), EWake ''D'' ''CONNECTION'']"
proof -
  have "\<not> snd (ParseFloat ''abc'')" by code_simp
  then show ?thesis by (rule preset_not_applied)
qed

subsection \<open>Retry delays\<close>

text \<open>A \<^verbatim>\<open>time.Duration\<close> is a signed 64-bit count of nanoseconds.\<close>

record backoff =
  bo_base :: int
  bo_cap :: int
  bo_cur :: int

definition newBackoff :: "int \<Rightarrow> int \<Rightarrow> backoff" where
  "newBackoff base cap =
     \<lparr>bo_base = (if base \<le> 0 then 10 ^ 9 else base),
      bo_cap = (if cap \<le> 0 then 30 * 10 ^ 9 else cap), bo_cur = 0\<rparr>"

definition backoff_next :: "backoff \<Rightarrow> int \<times> backoff" where
  "backoff_next b =
     (if bo_cur b = 0 then (bo_base b, b\<lparr>bo_cur := bo_base b\<rparr>)
      else let c = wrap64 (bo_cur b * 2)
           in (bo_cur b, b\<lparr>bo_cur := if bo_cap b < c then bo_cap b else c\<rparr>))"

definition backoff_reset :: "backoff \<Rightarrow> backoff" where
  "backoff_reset b = b\<lparr>bo_cur := 0\<rparr>"

fun delays :: "nat \<Rightarrow> backoff \<Rightarrow> int list" where
  "delays 0 b = []"
| "delays (Suc n) b = (let (d, b') = backoff_next b in d # delays n b')"

lemma delays_from:
  assumes "0 < bo_base b" "bo_base b \<le> bo_cap b" "bo_cap b < 2 ^ 62"
    "bo_cur b = min (bo_base b * 2 ^ k) (bo_cap b)"
  shows "delays n b = map (\<lambda>i. min (bo_base b * 2 ^ (k + i)) (bo_cap b)) [0..<n]"
  using assms
proof (induction n arbitrary: b k)
  case (Suc n)
  let ?c = "min (bo_base b * 2 ^ k) (bo_cap b)"
  have "0 < bo_base b * 2 ^ k" using Suc.prems(1) by simp
  then have pos: "0 < bo_cur b" using Suc.prems by simp
  have w: "wrap64 (bo_cur b * 2) = bo_cur b * 2"
    using pos Suc.prems(3,4) by (intro wrap64_id) (auto simp: min_def)
  have nxt: "(if bo_cap b < bo_cur b * 2 then bo_cap b else bo_cur b * 2) =
      min (bo_base b * 2 ^ Suc k) (bo_cap b)"
    using Suc.prems(1,2,4) \<open>0 < bo_base b * 2 ^ k\<close> by (auto simp: min_def)
  have "delays n (b\<lparr>bo_cur := min (bo_base b * 2 ^ Suc k) (bo_cap b)\<rparr>) =
      map (\<lambda>i. min (bo_base b * 2 ^ (Suc k + i)) (bo_cap b)) [0..<n]"
    using Suc.prems by (subst Suc.IH [where k = "Suc k"]) simp_all
  moreover have "backoff_next b = (bo_cur b, b\<lparr>bo_cur := min (bo_base b * 2 ^ Suc k) (bo_cap b)\<rparr>)"
    using pos w nxt by (simp add: backoff_next_def Let_def)
  moreover have "[0..<Suc n] = 0 # map Suc [0..<n]" by (simp add: upt_conv_Cons map_Suc_upt del: upt_Suc)
  ultimately show ?case using Suc.prems(4) by (simp add: comp_def del: upt_Suc)
qed simp

text \<open>
  The delays between failed attempts are the base delay twice, and then double up to the cap,
  for any positive base no larger than a cap below \<open>2 ^ 62\<close> nanoseconds, where the doubling cannot
  wrap; so they never decrease and never exceed the cap.
\<close>

theorem backoff_delays:
  assumes "0 < base" "base \<le> cap" "cap < 2 ^ 62"
  shows "delays (Suc n) (newBackoff base cap) =
    base # map (\<lambda>k. min (base * 2 ^ k) cap) [0..<n]"
proof -
  let ?b = "\<lparr>bo_base = base, bo_cap = cap, bo_cur = base\<rparr>"
  have "delays n ?b = map (\<lambda>i. min (base * 2 ^ i) cap) [0..<n]"
    using assms delays_from [of ?b 0 n] by simp
  then show ?thesis using assms by (simp add: newBackoff_def backoff_next_def)
qed

theorem backoff_delays_witness:
  "delays (Suc 6) (newBackoff 1000000000 30000000000) =
    1000000000 # map (\<lambda>k. min (1000000000 * 2 ^ k) 30000000000) [0..<6]"
  by (rule backoff_delays) simp_all

end
