(* ===== verification/Indi_Serve.thy ===== *)
theory Indi_Serve
  imports Indi_Queue Supervisor_Core
begin

text \<open>
  The INDI server (\<^verbatim>\<open>internal/indiserve\<close>), which shows the supervised devices to INDI clients: the BLOB
  policy of a client, the fan-out of a driver's elements, the replay of the cached definitions, and
  the forwarding of a client's writes. A child, a connection and the maps keyed by them are pointers
  in the code; here they are numbers, with the objects they point to in \<open>sv_kid\<close> and \<open>sv_conn\<close>. The two
  functions of the interface \<^verbatim>\<open>Child\<close> are the arguments \<open>snap\<close> and \<open>put\<close>: the snapshot of a child and a
  write to it.

  \<open>pick c\<close> is the choice of the \<^verbatim>\<open>select\<close> in \<^const>\<open>enqueue\<close> on connection \<open>c\<close>. The fan-out and the
  replay are atomic here; the goroutines that share one queue are the subject of \<open>Indi_Queue\<close>, and a
  replay that overlaps an update that of the last section.
\<close>

subsection \<open>A connection\<close>

datatype blobPolicy = blobNever | blobAlso | blobOnly

definition parsePolicy :: "string \<Rightarrow> blobPolicy" where
  "parsePolicy s =
     (let t = ToLower (TrimSpace s) in
      if t = ''also'' then blobAlso else if t = ''only'' then blobOnly else blobNever)"

record conn =
  cn_q :: queue
  cn_policy :: "blobPolicy gomap"

definition newConn :: conn where
  "newConn = \<lparr>cn_q = new_queue, cn_policy = []\<rparr>"

definition setPolicy :: "string \<Rightarrow> string \<Rightarrow> blobPolicy \<Rightarrow> conn \<Rightarrow> conn" where
  "setPolicy device name p c = c\<lparr>cn_policy := AList.update (device @ NUL # name) p (cn_policy c)\<rparr>"

fun first_set :: "blobPolicy gomap \<Rightarrow> string list \<Rightarrow> blobPolicy" where
  "first_set m [] = blobNever"
| "first_set m (k # ks) = (case map_of m k of Some p \<Rightarrow> p | None \<Rightarrow> first_set m ks)"

definition policyFor :: "conn \<Rightarrow> string \<Rightarrow> string \<Rightarrow> blobPolicy" where
  "policyFor c device name = first_set (cn_policy c) [device @ NUL # name, device @ [NUL], [NUL]]"

definition wants :: "conn \<Rightarrow> Element \<Rightarrow> bool" where
  "wants c el =
     (if e_Kind el = KindDel then True
      else let isBlob = (e_Type el = BLOB \<and> (e_Kind el = KindSet \<or> e_Kind el = KindDef));
               p = policyFor c (e_Device el) (e_Name el)
        in if isBlob then e_Kind el = KindDef \<or> p \<noteq> blobNever else p \<noteq> blobOnly)"

subsection \<open>The server\<close>

datatype serve_log =
    LogDup string
  | LogEncode string string
  | LogDropped nat enq_error
  | LogRefused nat string string

record 'c Server =
  sv_children :: "nat list"
  sv_kid :: "nat \<Rightarrow> 'c"
  sv_conns :: "nat list"
  sv_conn :: "nat \<Rightarrow> conn"
  sv_dupWarned :: "string list"
  sv_log :: "serve_log list"

definition new_server :: "nat list \<Rightarrow> (nat \<Rightarrow> 'c) \<Rightarrow> 'c Server" where
  "new_server children kid =
     \<lparr>sv_children = children, sv_kid = kid, sv_conns = [], sv_conn = (\<lambda>_. newConn), sv_dupWarned = [], sv_log = []\<rparr>"

definition serve_logf :: "serve_log \<Rightarrow> 'c Server \<Rightarrow> 'c Server" where
  "serve_logf l sv = sv\<lparr>sv_log := sv_log sv @ [l]\<rparr>"

definition on_conn :: "nat \<Rightarrow> (conn \<Rightarrow> conn) \<Rightarrow> 'c Server \<Rightarrow> 'c Server" where
  "on_conn c f sv = sv\<lparr>sv_conn := (sv_conn sv)(c := f (sv_conn sv c))\<rparr>"

definition closing :: "conn \<Rightarrow> conn" where
  "closing c = c\<lparr>cn_q := conn_close (cn_q c)\<rparr>"

definition accept_conn :: "nat \<Rightarrow> 'c Server \<Rightarrow> 'c Server" where
  "accept_conn c sv = (on_conn c (\<lambda>_. newConn) sv)\<lparr>sv_conns := List.insert c (sv_conns sv)\<rparr>"

definition closeAll :: "'c Server \<Rightarrow> 'c Server" where
  "closeAll sv = fold (\<lambda>c. on_conn c closing) (sv_conns sv) sv"

definition drop_conn :: "nat \<Rightarrow> 'c Server \<Rightarrow> 'c Server" where
  "drop_conn c sv = on_conn c closing (sv\<lparr>sv_conns := removeAll c (sv_conns sv)\<rparr>)"

definition dropf :: "nat \<Rightarrow> enq_error \<Rightarrow> 'c Server \<Rightarrow> 'c Server" where
  "dropf c er sv = drop_conn c (serve_logf (LogDropped c er) sv)"

definition SetChildren :: "nat list \<Rightarrow> 'c Server \<Rightarrow> 'c Server" where
  "SetChildren children sv =
     (if children = sv_children sv then sv else closeAll (sv\<lparr>sv_children := children\<rparr>))"

definition conn_enqueue :: "bool \<Rightarrow> nat \<Rightarrow> string \<Rightarrow> 'c Server \<Rightarrow> enq_error option \<times> 'c Server" where
  "conn_enqueue pick c msg sv =
     (let (er, q) = enqueue pick msg (cn_q (sv_conn sv c)) in (er, on_conn c (\<lambda>cn. cn\<lparr>cn_q := q\<rparr>) sv))"

subsection \<open>The fan-out\<close>

text \<open>The loop over the connections, in the order in which the map yields them. The code encodes the
  element at the first connection that wants it; the encoding does not depend on the connection.\<close>

fun publish_to :: "(nat \<Rightarrow> bool) \<Rightarrow> Element \<Rightarrow> string option gomap \<Rightarrow> nat list \<Rightarrow> 'c Server \<Rightarrow> 'c Server" where
  "publish_to pick el blobs [] sv = sv"
| "publish_to pick el blobs (c # cs) sv =
     (if \<not> wants (sv_conn sv c) el then publish_to pick el blobs cs sv
      else (case encodeElement el blobs of
          Inl _ \<Rightarrow> serve_logf (LogEncode (e_Device el) (e_Name el)) sv
        | Inr msg \<Rightarrow>
            publish_to pick el blobs cs
              (case conn_enqueue (pick c) c msg sv of (None, sv') \<Rightarrow> sv' | (Some er, sv') \<Rightarrow> dropf c er sv')))"

definition serve_publish :: "(nat \<Rightarrow> bool) \<Rightarrow> Element \<Rightarrow> string option gomap \<Rightarrow> 'c Server \<Rightarrow> 'c Server" where
  "serve_publish pick el blobs sv = publish_to pick el blobs (sv_conns sv) sv"

definition Publish :: "(nat \<Rightarrow> bool) \<Rightarrow> Element \<Rightarrow> 'c Server \<Rightarrow> 'c Server" where
  "Publish pick el sv = (if e_Kind el = KindSet \<and> e_Type el = BLOB then sv else serve_publish pick el [] sv)"

definition PublishBlob :: "(nat \<Rightarrow> bool) \<Rightarrow> Element \<Rightarrow> string option gomap \<Rightarrow> 'c Server \<Rightarrow> 'c Server" where
  "PublishBlob pick el blobs sv = serve_publish pick el blobs sv"

definition PublishFrom :: "(nat \<Rightarrow> bool) \<Rightarrow> nat \<Rightarrow> Element \<Rightarrow> 'c Server \<Rightarrow> 'c Server" where
  "PublishFrom pick child el sv = (if child \<in> set (sv_children sv) then Publish pick el sv else sv)"

definition PublishBlobFrom :: "(nat \<Rightarrow> bool) \<Rightarrow> nat \<Rightarrow> Element \<Rightarrow> string option gomap \<Rightarrow> 'c Server \<Rightarrow> 'c Server" where
  "PublishBlobFrom pick child el blobs sv =
     (if child \<in> set (sv_children sv) then PublishBlob pick el blobs sv else sv)"

subsection \<open>Routing\<close>

definition warnDup :: "string \<Rightarrow> 'c Server \<Rightarrow> 'c Server" where
  "warnDup device sv =
     (let first = (device \<notin> set (sv_dupWarned sv)); sv1 = sv\<lparr>sv_dupWarned := List.insert device (sv_dupWarned sv)\<rparr>
      in if first then serve_logf (LogDup device) sv1 else sv1)"

fun seen_devices :: "string list \<Rightarrow> string list \<Rightarrow> 'c Server \<Rightarrow> string list \<times> 'c Server" where
  "seen_devices [] seen sv = (seen, sv)"
| "seen_devices (d # ds) seen sv =
     (if d \<in> set seen then seen_devices ds seen (warnDup d sv) else seen_devices ds (seen @ [d]) sv)"

definition serve_devices :: "('c \<Rightarrow> Snapshot) \<Rightarrow> 'c Server \<Rightarrow> string list \<times> 'c Server" where
  "serve_devices snap sv =
     (let (seen, sv') = seen_devices (concat (map (\<lambda>ch. let s = snap (sv_kid sv ch) in if s_valid s then Devices s else [])
        (sv_children sv))) [] sv
      in (sort seen, sv'))"

fun childFor_in :: "('c \<Rightarrow> Snapshot) \<Rightarrow> string \<Rightarrow> nat list \<Rightarrow> nat option \<Rightarrow> 'c Server \<Rightarrow> nat option \<times> 'c Server" where
  "childFor_in snap device [] found sv = (found, sv)"
| "childFor_in snap device (ch # chs) found sv =
     (let s = snap (sv_kid sv ch) in
      if \<not> s_valid s \<or> device \<notin> set (Devices s) then childFor_in snap device chs found sv
      else (case found of
          None \<Rightarrow> childFor_in snap device chs (Some ch) sv
        | Some _ \<Rightarrow> childFor_in snap device chs found (warnDup device sv)))"

definition childFor :: "('c \<Rightarrow> Snapshot) \<Rightarrow> string \<Rightarrow> 'c Server \<Rightarrow> nat option \<times> 'c Server" where
  "childFor snap device sv = childFor_in snap device (sv_children sv) None sv"

subsection \<open>The replay\<close>

definition vectorToElement :: "Vector \<Rightarrow> Element" where
  "vectorToElement v =
     zero_element\<lparr>e_Kind := KindDef, e_Type := v_Type v, e_Rule := v_Rule v, e_Perm := v_Perm v, e_State := v_State v,
       e_Device := v_Device v, e_Name := v_Name v, e_Label := v_Label v, e_Group := v_Group v,
       e_Timestamp := v_Timestamp v, e_Members := map mv_Member (v_Members v)\<rparr>"

definition asked :: "string \<Rightarrow> string \<Rightarrow> bool" where
  "asked request x \<longleftrightarrow> request = [] \<or> x = request"

definition replay_elements :: "Snapshot \<Rightarrow> string \<Rightarrow> string \<Rightarrow> Element list" where
  "replay_elements s device name =
     (if \<not> s_valid s then []
      else concat (map (\<lambda>dev. map vectorToElement (List.map_filter (Snapshot_Vector s dev)
        (filter (asked name) (sort (Properties s dev))))) (filter (asked device) (Devices s))))"

text \<open>The result is false when the client was dropped, which ends the replay.\<close>

fun replay_send :: "bool \<Rightarrow> nat \<Rightarrow> Element list \<Rightarrow> 'c Server \<Rightarrow> bool \<times> 'c Server" where
  "replay_send pick c [] sv = (True, sv)"
| "replay_send pick c (el # els) sv =
     (if \<not> wants (sv_conn sv c) el then replay_send pick c els sv
      else (case encodeElement el [] of
          Inl _ \<Rightarrow> replay_send pick c els (serve_logf (LogEncode (e_Device el) (e_Name el)) sv)
        | Inr msg \<Rightarrow>
            (case conn_enqueue pick c msg sv of
               (None, sv') \<Rightarrow> replay_send pick c els sv'
             | (Some er, sv') \<Rightarrow> (False, dropf c er sv'))))"

fun replay_children :: "bool \<Rightarrow> ('c \<Rightarrow> Snapshot) \<Rightarrow> nat \<Rightarrow> string \<Rightarrow> string \<Rightarrow> nat list \<Rightarrow> 'c Server \<Rightarrow> 'c Server" where
  "replay_children pick snap c device name [] sv = sv"
| "replay_children pick snap c device name (ch # chs) sv =
     (let (go, sv') = replay_send pick c (replay_elements (snap (sv_kid sv ch)) device name) sv
      in if go then replay_children pick snap c device name chs sv' else sv')"

definition replay :: "bool \<Rightarrow> ('c \<Rightarrow> Snapshot) \<Rightarrow> nat \<Rightarrow> string \<Rightarrow> string \<Rightarrow> 'c Server \<Rightarrow> 'c Server" where
  "replay pick snap c device name sv = replay_children pick snap c device name (sv_children sv) sv"

subsection \<open>Forwarding\<close>

datatype 'e forward_error = NoSuchDevice string | ChildError 'e | CannotWrite VType

text \<open>A Go map built by assignment: the last value of a name counts.\<close>

definition member_map :: "(Member \<Rightarrow> 'v) \<Rightarrow> Member list \<Rightarrow> 'v gomap" where
  "member_map f ms = fold (\<lambda>m. AList.update (m_Name m) (f m)) ms []"

definition forward_cmd :: "Element \<Rightarrow> Cmd option" where
  "forward_cmd el =
     (case e_Type el of
        Number \<Rightarrow> Some (CNumber (e_Device el) (e_Name el) (member_map m_Value (e_Members el)))
      | Switch \<Rightarrow> Some (CSwitch (e_Device el) (e_Name el) (map m_Name (filter m_On (e_Members el)))
          (map m_Name (filter (\<lambda>m. \<not> m_On m) (e_Members el))))
      | Text \<Rightarrow> Some (CText (e_Device el) (e_Name el) (member_map m_Text (e_Members el)))
      | _ \<Rightarrow> None)"

definition forward ::
  "('c \<Rightarrow> Snapshot) \<Rightarrow> (Cmd \<Rightarrow> 'c \<Rightarrow> 'e option \<times> 'c) \<Rightarrow> Element \<Rightarrow> 'c Server \<Rightarrow> 'e forward_error option \<times> 'c Server" where
  "forward snap put el sv =
     (let (found, sv1) = childFor snap (e_Device el) sv in
      case found of
        None \<Rightarrow> (Some (NoSuchDevice (e_Device el)), sv1)
      | Some ch \<Rightarrow>
          (case forward_cmd el of
             None \<Rightarrow> (Some (CannotWrite (e_Type el)), sv1)
           | Some cmd \<Rightarrow>
               let (er, kid) = put cmd (sv_kid sv1 ch)
               in (map_option ChildError er, sv1\<lparr>sv_kid := (sv_kid sv1)(ch := kid)\<rparr>)))"

subsection \<open>The loop of a client\<close>

definition serve_element ::
  "bool \<Rightarrow> ('c \<Rightarrow> Snapshot) \<Rightarrow> (Cmd \<Rightarrow> 'c \<Rightarrow> 'e option \<times> 'c) \<Rightarrow> nat \<Rightarrow> Element \<Rightarrow> 'c Server \<Rightarrow> bool \<times> 'c Server" where
  "serve_element pick snap put c el sv =
     (case e_Kind el of
        KindGetProps \<Rightarrow> (True, replay pick snap c (e_Device el) (e_Name el) sv)
      | KindNew \<Rightarrow>
          (case forward snap put el sv of
             (None, sv') \<Rightarrow> (True, sv')
           | (Some _, sv') \<Rightarrow> (True, serve_logf (LogRefused c (e_Device el) (e_Name el)) sv'))
      | KindEnableBLOB \<Rightarrow> (True, on_conn c (setPolicy (e_Device el) (e_Name el) (parsePolicy (e_Message el))) sv)
      | KindPing \<Rightarrow>
          (case conn_enqueue pick c (EncodePingReply (e_Name el)) sv of
             (None, sv') \<Rightarrow> (True, sv')
           | (Some er, sv') \<Rightarrow> (False, dropf c er sv'))
      | _ \<Rightarrow> (True, sv))"

fun serve_loop ::
  "bool \<Rightarrow> ('c \<Rightarrow> Snapshot) \<Rightarrow> (Cmd \<Rightarrow> 'c \<Rightarrow> 'e option \<times> 'c) \<Rightarrow> nat \<Rightarrow> Element list \<Rightarrow> 'c Server \<Rightarrow> 'c Server" where
  "serve_loop pick snap put c [] sv = drop_conn c sv"
| "serve_loop pick snap put c (el # els) sv =
     (let (go, sv') = serve_element pick snap put c el sv
      in if go then serve_loop pick snap put c els sv' else drop_conn c sv')"

text \<open>All a client sends until its stream ends; the payloads of BLOBs go to a sink.\<close>

definition conn_serve ::
  "bool \<Rightarrow> ('c \<Rightarrow> Snapshot) \<Rightarrow> (Cmd \<Rightarrow> 'c \<Rightarrow> 'e option \<times> 'c) \<Rightarrow> nat \<Rightarrow> string \<Rightarrow> 'c Server \<Rightarrow> 'c Server" where
  "conn_serve pick snap put c input sv =
     serve_loop pick snap put c (fst (parse_all (new_parser False (\<lambda>_. True) input))) sv"


subsection \<open>What a client asked to see\<close>

lemma NUL_key_inj:
  assumes "NUL \<notin> set d" "NUL \<notin> set d'" shows "d @ NUL # n = d' @ NUL # n' \<longleftrightarrow> d = d' \<and> n = n'"
  using Cut1_split [OF assms(1), of n] Cut1_split [OF assms(2), of n'] by (metis option.inject prod.inject)

text \<open>The requests of a client, oldest first, and the last one made for a device and a property.\<close>

type_synonym blob_request = "string \<times> string \<times> blobPolicy"

definition after_requests :: "blob_request list \<Rightarrow> conn \<Rightarrow> conn" where
  "after_requests reqs c = fold (\<lambda>(d, n, p). setPolicy d n p) reqs c"

definition last_request :: "blob_request list \<Rightarrow> string \<Rightarrow> string \<Rightarrow> blobPolicy option" where
  "last_request reqs d n = map_of (rev (map (\<lambda>(d, n, p). ((d, n), p)) reqs)) (d, n)"

lemma after_requests_map:
  assumes "list_all (\<lambda>r. NUL \<notin> set (fst r)) reqs" "NUL \<notin> set d"
  shows "map_of (cn_policy (after_requests reqs newConn)) (d @ NUL # n) = last_request reqs d n"
  using assms(1)
proof (induction reqs rule: rev_induct)
  case Nil
  show ?case by (simp add: after_requests_def newConn_def last_request_def)
next
  case (snoc r reqs)
  obtain d' n' p where r: "r = (d', n', p)" by (cases r)
  have "NUL \<notin> set d'" using snoc.prems by (simp add: r)
  then have "d @ NUL # n = d' @ NUL # n' \<longleftrightarrow> d = d' \<and> n = n'" using assms(2) NUL_key_inj by blast
  then show ?case using snoc by (auto simp: after_requests_def last_request_def setPolicy_def r)
qed

text \<open>The policy in force: the last request for the property, else for its device, else for all.\<close>

definition policy_in_force :: "blob_request list \<Rightarrow> string \<Rightarrow> string \<Rightarrow> blobPolicy" where
  "policy_in_force reqs d n =
     (case last_request reqs d n of Some p \<Rightarrow> p
      | None \<Rightarrow> (case last_request reqs d [] of Some p \<Rightarrow> p
        | None \<Rightarrow> (case last_request reqs [] [] of Some p \<Rightarrow> p | None \<Rightarrow> blobNever)))"

text \<open>A client gets what it asked for: after any sequence of its BLOB requests a BLOB update goes
  to it exactly if the request in force for that property was \<^verbatim>\<open>Also\<close> or \<^verbatim>\<open>Only\<close>, any other update or
  definition exactly if it was not \<^verbatim>\<open>Only\<close>, and BLOB definitions and deletions always. The request in
  force is the last for the property, else the last for its device, else the last for all devices.\<close>

theorem wants_requested:
  assumes "list_all (\<lambda>r. NUL \<notin> set (fst r)) reqs" "NUL \<notin> set (e_Device el)"
  shows "wants (after_requests reqs newConn) el \<longleftrightarrow>
    (case (e_Kind el, e_Type el) of
       (KindDel, _) \<Rightarrow> True
     | (KindSet, BLOB) \<Rightarrow> policy_in_force reqs (e_Device el) (e_Name el) \<in> {blobAlso, blobOnly}
     | (KindDef, BLOB) \<Rightarrow> True
     | _ \<Rightarrow> policy_in_force reqs (e_Device el) (e_Name el) \<noteq> blobOnly)"
proof -
  let ?c = "after_requests reqs newConn" and ?d = "e_Device el" and ?n = "e_Name el"
  have k: "map_of (cn_policy ?c) (?d @ NUL # ?n) = last_request reqs ?d ?n"
    "map_of (cn_policy ?c) (?d @ [NUL]) = last_request reqs ?d []" "map_of (cn_policy ?c) [NUL] = last_request reqs [] []"
    using after_requests_map [OF assms, where n = ?n] after_requests_map [OF assms, where n = "[]"]
      after_requests_map [OF assms(1), where d = "[]" and n = "[]"] by simp_all
  have "policyFor ?c ?d ?n = policy_in_force reqs ?d ?n"
    by (simp add: policyFor_def policy_in_force_def k split: option.split)
  then show ?thesis
    by (cases "policy_in_force reqs ?d ?n"; cases "e_Kind el"; cases "e_Type el") (simp_all add: wants_def Let_def)
qed

theorem wants_requested_witness:
  "\<not> wants (after_requests [([], [], blobAlso), (''CCD'', [], blobOnly)] newConn) (zero_element\<lparr>e_Device := ''CCD'', e_Name := ''EXP''\<rparr>)"
  using wants_requested [of "[([], [], blobAlso), (''CCD'', [], blobOnly)]" "zero_element\<lparr>e_Device := ''CCD'', e_Name := ''EXP''\<rparr>"]
  by (simp add: zero_element_def policy_in_force_def last_request_def)

subsection \<open>The fan-out reaches each client on its own\<close>

lemma on_conn_simps [simp]:
  "sv_conn (on_conn c f sv) c' = (if c' = c then f (sv_conn sv c) else sv_conn sv c')"
  "sv_conns (on_conn c f sv) = sv_conns sv" "sv_children (on_conn c f sv) = sv_children sv" "sv_kid (on_conn c f sv) = sv_kid sv"
  "sv_log (on_conn c f sv) = sv_log sv" "sv_dupWarned (on_conn c f sv) = sv_dupWarned sv"
  by (simp_all add: on_conn_def)

lemma serve_logf_simps [simp]:
  "sv_conn (serve_logf l sv) = sv_conn sv" "sv_conns (serve_logf l sv) = sv_conns sv" "sv_children (serve_logf l sv) = sv_children sv"
  "sv_kid (serve_logf l sv) = sv_kid sv"
  by (simp_all add: serve_logf_def)

lemma dropf_simps [simp]:
  "sv_conn (dropf c er sv) c' = (if c' = c then closing (sv_conn sv c) else sv_conn sv c')"
  "sv_conns (dropf c er sv) = removeAll c (sv_conns sv)" "sv_children (dropf c er sv) = sv_children sv" "sv_kid (dropf c er sv) = sv_kid sv"
  by (simp_all add: dropf_def drop_conn_def)

text \<open>What sending one message does to a connection.\<close>

definition sent_conn :: "bool \<Rightarrow> string \<Rightarrow> conn \<Rightarrow> conn" where
  "sent_conn pick msg c =
     (case enqueue pick msg (cn_q c) of (None, q) \<Rightarrow> c\<lparr>cn_q := q\<rparr> | (Some er, q) \<Rightarrow> closing (c\<lparr>cn_q := q\<rparr>))"

definition overflows :: "bool \<Rightarrow> string \<Rightarrow> conn \<Rightarrow> bool" where
  "overflows pick msg c \<longleftrightarrow> fst (enqueue pick msg (cn_q c)) \<noteq> None"

lemma send_or_drop:
  assumes "(case conn_enqueue pick c msg sv of (None, sv') \<Rightarrow> sv' | (Some er, sv') \<Rightarrow> dropf c er sv') = sv2"
  shows "sv_conn sv2 = (sv_conn sv)(c := sent_conn pick msg (sv_conn sv c))"
    "sv_conns sv2 = (if overflows pick msg (sv_conn sv c) then removeAll c (sv_conns sv) else sv_conns sv)"
    "sv_children sv2 = sv_children sv" "sv_kid sv2 = sv_kid sv"
  using assms by (auto simp: conn_enqueue_def sent_conn_def overflows_def split: prod.splits option.splits)

lemma publish_to_conns:
  assumes "encodeElement el blobs = Inr msg" "distinct cs"
  shows "sv_conn (publish_to pick el blobs cs sv) c =
      (if c \<in> set cs \<and> wants (sv_conn sv c) el then sent_conn (pick c) msg (sv_conn sv c) else sv_conn sv c) \<and>
    (c \<in> set (sv_conns (publish_to pick el blobs cs sv)) \<longleftrightarrow>
      c \<in> set (sv_conns sv) \<and> \<not> (c \<in> set cs \<and> wants (sv_conn sv c) el \<and> overflows (pick c) msg (sv_conn sv c)))"
  using assms(2)
proof (induction cs arbitrary: sv)
  case (Cons x cs)
  define sv2 where "sv2 = (case conn_enqueue (pick x) x msg sv of (None, sv') \<Rightarrow> sv' | (Some er, sv') \<Rightarrow> dropf x er sv')"
  note d = send_or_drop [OF sv2_def [symmetric]]
  show ?case
  proof (cases "wants (sv_conn sv x) el")
    case True
    then have "publish_to pick el blobs (x # cs) sv = publish_to pick el blobs cs sv2"
      by (simp add: assms(1) sv2_def)
    then show ?thesis using Cons.IH [of sv2] Cons.prems d True by auto
  next
    case False
    then show ?thesis using Cons.IH [of sv] Cons.prems by auto
  qed
qed simp

text \<open>C13: One slow client does not disturb the others: publishing an element appends its one encoding
  to the queue of every connected client that wants it and has room, drops exactly those that want it
  and have none, and leaves every other connection as it was.\<close>

theorem publish_isolated:
  assumes "encodeElement el blobs = Inr msg" "distinct (sv_conns sv)"
  shows "sv_conn (serve_publish pick el blobs sv) c =
      (if c \<in> set (sv_conns sv) \<and> wants (sv_conn sv c) el then
         (if overflows (pick c) msg (sv_conn sv c) then closing (sv_conn sv c)
          else (sv_conn sv c)\<lparr>cn_q := \<lparr>q_out = q_out (cn_q (sv_conn sv c)) @ [msg],
            q_pending = q_pending (cn_q (sv_conn sv c)) + int (length msg), q_done = q_done (cn_q (sv_conn sv c))\<rparr>\<rparr>)
       else sv_conn sv c) \<and>
    (c \<in> set (sv_conns (serve_publish pick el blobs sv)) \<longleftrightarrow>
      c \<in> set (sv_conns sv) \<and> \<not> (wants (sv_conn sv c) el \<and> overflows (pick c) msg (sv_conn sv c)))"
proof -
  have "sent_conn (pick c) msg cn = (if overflows (pick c) msg cn then closing cn
      else cn\<lparr>cn_q := \<lparr>q_out = q_out (cn_q cn) @ [msg], q_pending = q_pending (cn_q cn) + int (length msg), q_done = q_done (cn_q cn)\<rparr>\<rparr>)" for cn
    using enqueue_cases [of "pick c" msg "cn_q cn"] by (auto simp: sent_conn_def overflows_def)
  then show ?thesis
    using publish_to_conns [OF assms, of pick sv c] by (auto simp: serve_publish_def)
qed


subsection \<open>Routing a write\<close>

definition shows_device :: "('c \<Rightarrow> Snapshot) \<Rightarrow> 'c Server \<Rightarrow> string \<Rightarrow> nat \<Rightarrow> bool" where
  "shows_device snap sv device ch \<longleftrightarrow> s_valid (snap (sv_kid sv ch)) \<and> device \<in> set (Devices (snap (sv_kid sv ch)))"

lemma shows_device_eq:
  "shows_device snap sv device = (\<lambda>ch. s_valid (snap (sv_kid sv ch)) \<and> device \<in> set (Devices (snap (sv_kid sv ch))))"
  by (simp add: fun_eq_iff shows_device_def)

lemma warnDup_simps [simp]:
  "sv_conn (warnDup d sv) = sv_conn sv" "sv_conns (warnDup d sv) = sv_conns sv" "sv_children (warnDup d sv) = sv_children sv"
  "sv_kid (warnDup d sv) = sv_kid sv"
  by (simp_all add: warnDup_def Let_def)

lemma childFor_in_find:
  "fst (childFor_in snap device chs found sv) = (case found of None \<Rightarrow> find (shows_device snap sv device) chs | Some ch \<Rightarrow> Some ch)"
  "sv_kid (snd (childFor_in snap device chs found sv)) = sv_kid sv"
  "sv_conn (snd (childFor_in snap device chs found sv)) = sv_conn sv"
  "sv_children (snd (childFor_in snap device chs found sv)) = sv_children sv"
proof (induction chs arbitrary: found sv)
  case (Cons ch chs)
  { case 1 show ?case using Cons(1) by (auto simp: Let_def shows_device_eq split: option.splits) }
  { case 2 show ?case using Cons(2) by (auto simp: Let_def split: option.splits) }
  { case 3 show ?case using Cons(3) by (auto simp: Let_def split: option.splits) }
  { case 4 show ?case using Cons(4) by (auto simp: Let_def split: option.splits) }
qed (simp_all split: option.split)

lemma childFor_find:
  "fst (childFor snap device sv) = find (shows_device snap sv device) (sv_children sv)"
  "sv_kid (snd (childFor snap device sv)) = sv_kid sv" "sv_conn (snd (childFor snap device sv)) = sv_conn sv"
  "sv_children (snd (childFor snap device sv)) = sv_children sv"
  by (simp_all add: childFor_def childFor_in_find)

text \<open>All outcomes of forwarding a write: no child shows the device; the vector cannot be written; or
  the first child that shows the device gets exactly one write, and no other child anything.\<close>

lemma forward_outcome:
  assumes "forward snap put el sv = (er, sv')"
  shows "sv_conn sv' = sv_conn sv" "sv_children sv' = sv_children sv"
    "case find (shows_device snap sv (e_Device el)) (sv_children sv) of
       None \<Rightarrow> er = Some (NoSuchDevice (e_Device el)) \<and> sv_kid sv' = sv_kid sv
     | Some ch \<Rightarrow> (case forward_cmd el of
         None \<Rightarrow> er = Some (CannotWrite (e_Type el)) \<and> sv_kid sv' = sv_kid sv
       | Some cmd \<Rightarrow> er = map_option ChildError (fst (put cmd (sv_kid sv ch))) \<and>
           sv_kid sv' = (sv_kid sv)(ch := snd (put cmd (sv_kid sv ch))))"
proof -
  obtain found sv1 where c: "childFor snap (e_Device el) sv = (found, sv1)" by fastforce
  note k = childFor_find [of snap "e_Device el" sv, unfolded c, simplified]
  show "sv_conn sv' = sv_conn sv" "sv_children sv' = sv_children sv"
    using assms k by (auto simp: forward_def c split: option.splits prod.splits)
  show "case find (shows_device snap sv (e_Device el)) (sv_children sv) of
       None \<Rightarrow> er = Some (NoSuchDevice (e_Device el)) \<and> sv_kid sv' = sv_kid sv
     | Some ch \<Rightarrow> (case forward_cmd el of
         None \<Rightarrow> er = Some (CannotWrite (e_Type el)) \<and> sv_kid sv' = sv_kid sv
       | Some cmd \<Rightarrow> er = map_option ChildError (fst (put cmd (sv_kid sv ch))) \<and>
           sv_kid sv' = (sv_kid sv)(ch := snd (put cmd (sv_kid sv ch))))"
    using assms k by (auto simp: forward_def c split: option.splits prod.splits)
qed

subsection \<open>The interface of a child\<close>

text \<open>What the server relies on: writing to a child does not change what the child publishes. Then no
  input of a client changes the snapshots, and with them the routing.\<close>

lemma replay_send_keeps:
  "sv_kid (snd (replay_send pick c els sv)) = sv_kid sv" "sv_children (snd (replay_send pick c els sv)) = sv_children sv"
proof (induction els arbitrary: sv)
  case (Cons el els)
  { case 1 show ?case using Cons(1) by (auto simp: conn_enqueue_def split: sum.splits option.splits prod.splits) }
  { case 2 show ?case using Cons(2) by (auto simp: conn_enqueue_def split: sum.splits option.splits prod.splits) }
qed simp_all

lemma replay_children_keeps:
  "sv_kid (replay_children pick snap c d n chs sv) = sv_kid sv" "sv_children (replay_children pick snap c d n chs sv) = sv_children sv"
proof (induction chs arbitrary: sv)
  case (Cons ch chs)
  { case 1 show ?case using Cons(1) by (simp add: case_prod_unfold Let_def replay_send_keeps) }
  { case 2 show ?case using Cons(2) by (simp add: case_prod_unfold Let_def replay_send_keeps) }
qed simp_all

lemma drop_conn_simps [simp]:
  "sv_kid (drop_conn c sv) = sv_kid sv" "sv_children (drop_conn c sv) = sv_children sv"
  by (simp_all add: drop_conn_def)

locale child_api =
  fixes snap :: "'c \<Rightarrow> Snapshot" and put :: "Cmd \<Rightarrow> 'c \<Rightarrow> 'e option \<times> 'c"
  assumes put_keeps: "snap (snd (put cmd kid)) = snap kid"
begin

lemma forward_keeps: "snap (sv_kid (snd (forward snap put el sv)) ch) = snap (sv_kid sv ch)"
  using forward_outcome(3) [of snap put el sv "fst (forward snap put el sv)" "snd (forward snap put el sv)"] put_keeps
  by (auto split: option.splits)

lemma forward_children: "sv_children (snd (forward snap put el sv)) = sv_children sv"
  using forward_outcome(2) [of snap put el sv] by (metis prod.collapse)

lemma serve_element_keeps:
  "snap (sv_kid (snd (serve_element pick snap put c el sv)) ch) = snap (sv_kid sv ch)"
  "sv_children (snd (serve_element pick snap put c el sv)) = sv_children sv"
  using forward_keeps [of el sv ch] forward_children [of el sv]
  by (auto simp: serve_element_def replay_def replay_children_keeps conn_enqueue_def
      split: Kind.split option.splits prod.splits)

lemma serve_loop_keeps:
  "snap (sv_kid (serve_loop pick snap put c els sv) ch) = snap (sv_kid sv ch)"
  "sv_children (serve_loop pick snap put c els sv) = sv_children sv"
proof (induction els arbitrary: sv)
  case (Cons el els)
  { case 1 show ?case using Cons(1) by (simp add: case_prod_unfold Let_def serve_element_keeps) }
  { case 2 show ?case using Cons(2) by (simp add: case_prod_unfold Let_def serve_element_keeps) }
qed simp_all

lemma routing_kept:
  "find (shows_device snap (conn_serve pick snap put c input sv) d) (sv_children (conn_serve pick snap put c input sv)) =
   find (shows_device snap sv d) (sv_children sv)"
  by (simp add: conn_serve_def shows_device_eq serve_loop_keeps)

end

text \<open>The supervisor is such a child.\<close>

abbreviation sup_snapshot :: "Sup \<Rightarrow> Snapshot" where
  "sup_snapshot s \<equiv> st_cur (su_store s)"

lemma Sup_Send_store: "su_store (snd (Sup_Send cmd s)) = su_store s"
  by (simp add: Sup_Send_def raw_defs rawWrite_def emit_def split: option.split Cmd.split)

interpretation sup: child_api sup_snapshot Sup_Send
  by unfold_locales (simp add: Sup_Send_store)


subsection \<open>From a client's bytes to the driver's\<close>

lemma parse_all_one:
  assumes "\<And>u ds. po_res (next_loop diag sink u ds w) = Inr (el, [NL])"
  shows "parse_all (new_parser diag sink w) = ([el], PRead)"
proof -
  define p1 where "p1 = snd (parser_next (new_parser diag sink w))"
  have n: "parser_next (new_parser diag sink w) = (Inr el, p1)" "p_err p1 = None" "p_in p1 = [NL]"
    using assms by (auto simp: p1_def parser_next_def new_parser_def Let_def)
  have "parse_all p1 = parse_all (p1\<lparr>p_in := []\<rparr>)" using n by (intro parse_all_space [of NL]) simp_all
  then have "parse_all p1 = ([], PRead)" using parse_all_stream [of "[]" "p1\<lparr>p_in := []\<rparr>"] n by simp
  then show ?thesis using n by (subst parse_all.simps) (simp add: new_parser_def)
qed

lemma member_map_distinct:
  assumes "distinct (map m_Name ms)" shows "member_map f ms = map (\<lambda>m. (m_Name m, f m)) ms"
proof -
  have new: "k \<notin> fst ` set acc \<Longrightarrow> AList.update k v acc = acc @ [(k, v)]" for k and v :: 'a and acc
    by (induction acc) auto
  have "distinct (map fst acc @ map m_Name ms) \<Longrightarrow>
      fold (\<lambda>m. AList.update (m_Name m) (f m)) ms acc = acc @ map (\<lambda>m. (m_Name m, f m)) ms" for acc
    using assms
  proof (induction ms arbitrary: acc)
    case (Cons m ms)
    then show ?case using new [of "m_Name m" acc "f m"] by auto
  qed simp
  from this [of "[]"] show ?thesis using assms by (simp add: member_map_def)
qed

text \<open>A write within the limits of the parser: what a client may send.\<close>

definition cmd_fine :: "Cmd \<Rightarrow> bool" where
  "cmd_fine cmd =
     (case cmd of
        CNumber d n vs \<Rightarrow> cmd_ok d n (map fst vs) \<and> distinct (map fst vs) \<and> list_all (\<lambda>(n, v). f64_ok v) vs
      | CSwitch d n on off \<Rightarrow> cmd_ok d n (on @ off)
      | CText d n vs \<Rightarrow> cmd_ok d n (map fst vs) \<and> distinct (map fst vs) \<and>
          list_all (\<lambda>(n, v). length v \<le> maxToken \<and> TrimSpace v = v) vs)"

fun cmd_device :: "Cmd \<Rightarrow> string" where
  "cmd_device (CNumber d n vs) = d" | "cmd_device (CSwitch d n on off) = d" | "cmd_device (CText d n vs) = d"

lemma parse_write:
  assumes "cmd_fine cmd"
  shows "\<exists>el. parse_all (new_parser diag sink (write_bytes (WCmd cmd))) = ([el], PRead) \<and> e_Kind el = KindNew \<and>
    e_Device el = cmd_device cmd \<and> forward_cmd el = Some cmd"
proof (cases cmd)
  case (CNumber d n vs)
  let ?el = "cmd_element Number d n (map (\<lambda>(n, v). (cmd_member n)\<lparr>m_Value := v, m_Text := format20g v\<rparr>) vs)"
  have ok: "cmd_ok d n (map fst vs)" "list_all (\<lambda>(n, v). f64_ok v) vs" "distinct (map fst vs)"
    using assms by (simp_all add: cmd_fine_def CNumber)
  have "parse_all (new_parser diag sink (write_bytes (WCmd cmd))) = ([?el], PRead)"
    using SetNumber_parse [OF ok(1,2), where r = "[]"] by (intro parse_all_one) (simp add: CNumber)
  moreover have "forward_cmd ?el = Some cmd"
    using ok(3) by (subst forward_cmd_def)
      (simp add: CNumber cmd_element_def cmd_member_def zero_element_def zero_member_def member_map_distinct case_prod_unfold comp_def)
  ultimately show ?thesis by (intro exI [of _ ?el]) (simp add: CNumber cmd_element_def zero_element_def)
next
  case (CSwitch d n on off)
  let ?el = "cmd_element Switch d n (map (\<lambda>n. (cmd_member n)\<lparr>m_On := True, m_Text := ''On''\<rparr>) on @
    map (\<lambda>n. (cmd_member n)\<lparr>m_On := False, m_Text := ''Off''\<rparr>) off)"
  have ok: "cmd_ok d n (on @ off)" using assms by (simp add: cmd_fine_def CSwitch)
  have "parse_all (new_parser diag sink (write_bytes (WCmd cmd))) = ([?el], PRead)"
    using SetSwitch_parse [OF ok, where r = "[]"] by (intro parse_all_one) (simp add: CSwitch)
  moreover have "forward_cmd ?el = Some cmd"
    by (simp add: forward_cmd_def CSwitch cmd_element_def cmd_member_def zero_element_def zero_member_def comp_def)
  ultimately show ?thesis by (intro exI [of _ ?el]) (simp add: CSwitch cmd_element_def zero_element_def)
next
  case (CText d n vs)
  let ?el = "cmd_element Text d n (map (\<lambda>(n, v). (cmd_member n)\<lparr>m_Text := TrimSpace v\<rparr>) vs)"
  have ok: "cmd_ok d n (map fst vs)" "list_all (\<lambda>(n, v). length v \<le> maxToken) vs" "distinct (map fst vs)"
    and trim: "list_all (\<lambda>(n, v). TrimSpace v = v) vs"
    using assms by (auto simp: cmd_fine_def CText list_all_iff)
  have "parse_all (new_parser diag sink (write_bytes (WCmd cmd))) = ([?el], PRead)"
    using SetText_parse [OF ok(1,2), where r = "[]"] by (intro parse_all_one) (simp add: CText)
  moreover have "map (\<lambda>x. (fst x, TrimSpace (snd x))) vs = vs" using trim by (induction vs) auto
  then have "forward_cmd ?el = Some cmd"
    using ok(3) by (subst forward_cmd_def)
      (simp add: CText cmd_element_def cmd_member_def zero_element_def zero_member_def member_map_distinct case_prod_unfold comp_def)
  ultimately show ?thesis by (intro exI [of _ ?el]) (simp add: CText cmd_element_def zero_element_def)
qed

text \<open>C6: A client's write reaches the driver as the client wrote it: when a client sends a command for a
  device that a serving child shows, the first such child in the order of the configuration writes
  exactly that command to its driver, no other child is touched, and what the children publish, and so
  the routing of later commands, stays as it was.\<close>

theorem client_write_reaches_driver:
  assumes "cmd_fine cmd" "find (shows_device sup_snapshot sv (cmd_device cmd)) (sv_children sv) = Some ch"
    "gate (sv_kid sv ch) = None" "su_up (sv_kid sv ch)"
  shows "su_out (sv_kid (conn_serve pick sup_snapshot Sup_Send c (write_bytes (WCmd cmd)) sv) ch) =
      su_out (sv_kid sv ch) @ [EWrite (WCmd cmd)] \<and>
    (\<forall>ch'. ch' \<noteq> ch \<longrightarrow> sv_kid (conn_serve pick sup_snapshot Sup_Send c (write_bytes (WCmd cmd)) sv) ch' = sv_kid sv ch') \<and>
    (\<forall>d. find (shows_device sup_snapshot (conn_serve pick sup_snapshot Sup_Send c (write_bytes (WCmd cmd)) sv) d) (sv_children sv) =
      find (shows_device sup_snapshot sv d) (sv_children sv))"
proof -
  let ?sv = "conn_serve pick sup_snapshot Sup_Send c (write_bytes (WCmd cmd)) sv"
  obtain el where p: "parse_all (new_parser False (\<lambda>_. True) (write_bytes (WCmd cmd))) = ([el], PRead)"
    and el: "e_Kind el = KindNew" "e_Device el = cmd_device cmd" "forward_cmd el = Some cmd"
    using parse_write [OF assms(1)] by blast
  obtain er sv' where f: "forward sup_snapshot Sup_Send el sv = (er, sv')" by fastforce
  have kid: "sv_kid sv' = (sv_kid sv)(ch := snd (Sup_Send cmd (sv_kid sv ch)))"
    using forward_outcome(3) [OF f] assms(2) el by simp
  have "sv_kid ?sv = sv_kid sv'"
    by (simp add: conn_serve_def p serve_element_def el f split: option.split)
  moreover have "su_out (snd (Sup_Send cmd (sv_kid sv ch))) = su_out (sv_kid sv ch) @ [EWrite (WCmd cmd)]"
    using assms(3,4) by (cases cmd) (simp_all add: Sup_Send_def raw_defs rawWrite_def emit_def)
  moreover have "sv_children ?sv = sv_children sv" by (simp add: conn_serve_def sup.serve_loop_keeps)
  ultimately show ?thesis using kid sup.routing_kept [of pick c "write_bytes (WCmd cmd)" sv] by simp
qed


text \<open>A serving supervisor whose driver showed the device \<^verbatim>\<open>D\<close> with the properties given.\<close>

definition demo_sup :: "Vector gomap \<Rightarrow> Sup" where
  "demo_sup vs =
     (New \<lparr>c_Device = ''D'', c_PollingPeriodMs = 0, c_PresetsBefore = [], c_PresetsAfter = [], c_HoldConnect = False,
        c_ClientManaged = False, c_OnBlob = False, c_fwdBlob = False, c_OnElement = True, c_OnServing = False\<rparr> (\<lambda>_. None)
        \<lparr>st_cur = \<lparr>s_gen = 1, s_valid = True, s_devices = [(''D'', vs)]\<rparr>, st_Ignored = 0\<rparr>)
     \<lparr>su_phase := PhaseServing, su_up := True\<rparr>"

lemma demo_sup_simps [simp]:
  "st_cur (su_store (demo_sup vs)) = \<lparr>s_gen = 1, s_valid = True, s_devices = [(''D'', vs)]\<rparr>" "gate (demo_sup vs) = None"
  "su_up (demo_sup vs)" "su_out (demo_sup vs) = []"
  by (simp_all add: demo_sup_def New_def gate_def Serving_def Let_def)

theorem client_write_reaches_driver_witness:
  "su_out (sv_kid (conn_serve True sup_snapshot Sup_Send 0 (write_bytes (WCmd (CSwitch ''D'' ''P'' [''A''] [])))
      (accept_conn 0 (new_server [3, 4] (\<lambda>_. demo_sup [])))) 3) = [EWrite (WCmd (CSwitch ''D'' ''P'' [''A''] []))]"
  using client_write_reaches_driver [of "CSwitch ''D'' ''P'' [''A''] []" "accept_conn 0 (new_server [3, 4] (\<lambda>_. demo_sup []))" 3 True 0]
  by (simp add: cmd_fine_def cmd_ok_def maxToken_def maxMembers_def accept_conn_def on_conn_def new_server_def shows_device_eq Devices_def)

subsection \<open>What a client reads of a replay\<close>

lemma wants_policy: "cn_policy c = cn_policy c' \<Longrightarrow> wants c el = wants c' el"
  by (simp add: wants_def policyFor_def)

lemma encode_def: "e_Kind el = KindDef \<Longrightarrow> encodeElement el [] = Inr (encodeVector el [] True)"
  by (simp add: encodeElement_def)

lemma replay_elements_def_kind: "el \<in> set (replay_elements s d n) \<Longrightarrow> e_Kind el = KindDef"
  by (auto simp: replay_elements_def vectorToElement_def split: if_splits)

text \<open>What is replayed: the definition of every property that is asked for.\<close>

lemma map_of_key: "map_of m k = Some x \<Longrightarrow> k \<in> fst ` set m"
  by (metis domI dom_map_of_conv_image_fst)

lemma replay_elements_set:
  "el \<in> set (replay_elements s d n) \<longleftrightarrow>
    s_valid s \<and> (\<exists>dev nm v. asked d dev \<and> asked n nm \<and> Snapshot_Vector s dev nm = Some v \<and> el = vectorToElement v)"
proof -
  have "dev \<in> set (Devices s) \<and> nm \<in> set (Properties s dev)" if "Snapshot_Vector s dev nm = Some v" for dev nm v
    using that map_of_key [of "s_devices s" dev] map_of_key [of "props_of s dev" nm]
    by (auto simp: Snapshot_Vector_def Devices_def Properties_def props_of_def split: option.splits)
  then have m: "el \<in> set (map vectorToElement (List.map_filter (Snapshot_Vector s dev) (filter (asked n) (sort (Properties s dev))))) \<longleftrightarrow>
      (\<exists>nm v. asked n nm \<and> Snapshot_Vector s dev nm = Some v \<and> el = vectorToElement v)" for dev
    by (force simp: map_filter_def)
  have "dev \<in> set (Devices s)" if "Snapshot_Vector s dev nm = Some v" for dev nm v
    using that \<open>\<And>v nm dev. Snapshot_Vector s dev nm = Some v \<Longrightarrow> dev \<in> set (Devices s) \<and> nm \<in> set (Properties s dev)\<close> by blast
  moreover have "el \<in> set (replay_elements s d n) \<longleftrightarrow> s_valid s \<and> (\<exists>dev. dev \<in> set (Devices s) \<and> asked d dev \<and>
      (\<exists>nm v. asked n nm \<and> Snapshot_Vector s dev nm = Some v \<and> el = vectorToElement v))"
    unfolding replay_elements_def m [symmetric] by auto
  ultimately show ?thesis by blast
qed

definition queued :: "nat \<Rightarrow> 'c Server \<Rightarrow> string list" where
  "queued c sv = q_out (cn_q (sv_conn sv c))"

lemma conn_enqueue_outcome:
  assumes "conn_enqueue pick c msg sv = (er, sv1)"
  shows "cn_policy (sv_conn sv1 c) = cn_policy (sv_conn sv c)" "sv_conns sv1 = sv_conns sv"
    "er = None \<Longrightarrow> queued c sv1 = queued c sv @ [msg]"
proof -
  obtain er' q where e: "enqueue pick msg (cn_q (sv_conn sv c)) = (er', q)" by fastforce
  have "er' = None \<Longrightarrow> q_out q = q_out (cn_q (sv_conn sv c)) @ [msg]"
    using enqueue_cases [of pick msg "cn_q (sv_conn sv c)"] unfolding e by auto
  then show "cn_policy (sv_conn sv1 c) = cn_policy (sv_conn sv c)" "sv_conns sv1 = sv_conns sv"
    "er = None \<Longrightarrow> queued c sv1 = queued c sv @ [msg]"
    using assms by (auto simp: conn_enqueue_def e queued_def)
qed

lemma replay_send_queued:
  assumes "replay_send pick c els sv = (go, sv')" "list_all (\<lambda>el. e_Kind el = KindDef) els"
  shows "cn_policy (sv_conn sv' c) = cn_policy (sv_conn sv c)"
    "c \<in> set (sv_conns sv) \<Longrightarrow> go = (c \<in> set (sv_conns sv'))"
    "go \<Longrightarrow> queued c sv' = queued c sv @ map (\<lambda>el. encodeVector el [] True) (filter (wants (sv_conn sv c)) els)"
proof -
  have "cn_policy (sv_conn sv' c) = cn_policy (sv_conn sv c) \<and> (c \<in> set (sv_conns sv) \<longrightarrow> go = (c \<in> set (sv_conns sv'))) \<and>
    (go \<longrightarrow> queued c sv' = queued c sv @ map (\<lambda>el. encodeVector el [] True) (filter (wants (sv_conn sv c)) els))"
    using assms
  proof (induction els arbitrary: sv)
    case (Cons el els)
    have el: "encodeElement el [] = Inr (encodeVector el [] True)" using Cons.prems(2) encode_def by simp
    obtain er sv1 where q: "conn_enqueue pick c (encodeVector el [] True) sv = (er, sv1)" by fastforce
    note sv1 = conn_enqueue_outcome [OF q]
    have w: "wants (sv_conn sv1 c) = wants (sv_conn sv c)" using wants_policy [OF sv1(1)] by (simp add: fun_eq_iff)
    show ?case
    proof (cases "wants (sv_conn sv c) el")
      case True
      then show ?thesis
        using Cons el q sv1 w by (cases er) (simp_all add: closing_def, auto simp: closing_def)
    next
      case False
      then show ?thesis using Cons by simp
    qed
  qed simp
  then show "cn_policy (sv_conn sv' c) = cn_policy (sv_conn sv c)" "c \<in> set (sv_conns sv) \<Longrightarrow> go = (c \<in> set (sv_conns sv'))"
    "go \<Longrightarrow> queued c sv' = queued c sv @ map (\<lambda>el. encodeVector el [] True) (filter (wants (sv_conn sv c)) els)" by blast+
qed

definition replayed :: "('c \<Rightarrow> Snapshot) \<Rightarrow> string \<Rightarrow> string \<Rightarrow> 'c Server \<Rightarrow> Element list" where
  "replayed snap device name sv = concat (map (\<lambda>ch. replay_elements (snap (sv_kid sv ch)) device name) (sv_children sv))"

lemma replay_children_queued:
  assumes "c \<in> set (sv_conns sv)" "c \<in> set (sv_conns (replay_children pick snap c d n chs sv))"
  shows "queued c (replay_children pick snap c d n chs sv) = queued c sv @
    map (\<lambda>el. encodeVector el [] True) (filter (wants (sv_conn sv c)) (concat (map (\<lambda>ch. replay_elements (snap (sv_kid sv ch)) d n) chs)))"
  using assms
proof (induction chs arbitrary: sv)
  case (Cons ch chs)
  let ?els = "replay_elements (snap (sv_kid sv ch)) d n"
  obtain go sv' where r: "replay_send pick c ?els sv = (go, sv')" by fastforce
  have kinds: "list_all (\<lambda>el. e_Kind el = KindDef) ?els" using replay_elements_def_kind by (auto simp: list_all_iff)
  note q = replay_send_queued [OF r kinds]
  have kid: "sv_kid sv' = sv_kid sv" using replay_send_keeps(1) [of pick c ?els sv] by (simp add: r)
  have go: "go" using Cons.prems q(2) by (auto simp: r split: if_splits)
  then have "c \<in> set (sv_conns sv')" using q(2) Cons.prems(1) by simp
  moreover have "wants (sv_conn sv' c) = wants (sv_conn sv c)" using wants_policy [OF q(1)] by (simp add: fun_eq_iff)
  ultimately show ?case using Cons q(3) [OF go] go by (simp add: r kid)
qed simp

lemma parse_definitions:
  assumes "list_all (\<lambda>el. e_Kind el = KindDef \<and> element_wf [] el) els"
  shows "parse_all (new_parser diag sink (concat (map (\<lambda>el. encodeVector el [] True) els))) = (map (element_view sink []) els, PRead)"
proof -
  have enc: "el \<in> set els \<Longrightarrow> encodeElement el [] = Inr (encodeVector el [] True)" for el
    using assms encode_def by (simp add: list_all_iff)
  then have m: "map (\<lambda>el. encodeVector el [] True) els = map (\<lambda>(el, blobs). projr (encodeElement el blobs)) (map (\<lambda>el. (el, [])) els)"
    by simp
  have "list_all (\<lambda>(el, blobs). element_wf blobs el \<and> \<not> isl (encodeElement el blobs)) (map (\<lambda>el. (el, [])) els)"
    using assms enc by (simp add: list_all_iff)
  from parse_all_stream [OF this, of "new_parser diag sink (concat (map (\<lambda>(el, blobs). projr (encodeElement el blobs)) (map (\<lambda>el. (el, [])) els)))"]
  show ?thesis unfolding m by (simp add: new_parser_def comp_def)
qed



text \<open>A server with children that show one property each, and one client.\<close>

definition demo_def :: "State \<Rightarrow> Element" where
  "demo_def s = zero_element\<lparr>e_Kind := KindDef, e_Device := ''D'', e_Name := ''P'', e_State := s\<rparr>"

definition demo_server :: "State list \<Rightarrow> Sup Server" where
  "demo_server ss = accept_conn 0 (new_server [0..<length ss] (\<lambda>i. demo_sup [(''P'', def_vector (demo_def (ss ! i)) 1)]))"

lemma demo_server_simps [simp]:
  "sv_children (demo_server ss) = [0..<length ss]" "sv_conns (demo_server ss) = [0]" "sv_conn (demo_server ss) 0 = newConn"
  "sv_kid (demo_server ss) i = demo_sup [(''P'', def_vector (demo_def (ss ! i)) 1)]"
  by (simp_all add: demo_server_def accept_conn_def new_server_def on_conn_def)

lemma demo_replayed [simp]:
  "replay_elements \<lparr>s_gen = g, s_valid = True, s_devices = [(''D'', [(''P'', def_vector (demo_def s) t)])]\<rparr> [] [] = [demo_def s]"
  by (simp add: replay_elements_def Devices_def Properties_def props_of_def Snapshot_Vector_def asked_def map_filter_def
      vectorToElement_def def_vector_def demo_def_def zero_element_def)

lemma demo_wanted [simp]: "cn_policy c = [] \<Longrightarrow> wants c (demo_def s)" "cn_policy newConn = []"
  by (simp_all add: wants_def policyFor_def demo_def_def zero_element_def newConn_def Let_def)

lemma demo_wf: "element_wf [] (demo_def s)"
  by (simp add: element_wf_def demo_def_def zero_element_def maxToken_def maxMembers_def)

lemma demo_length: "length (encodeVector (demo_def s) [] True) \<le> 200"
  by (cases s) (simp_all add: encodeVector_def demo_def_def zero_element_def vectorTag_def optAttr_def xmlEscape1_def Let_def)

text \<open>Connections with little in their queue, which take a message.\<close>

definition roomy :: "int \<Rightarrow> conn \<Rightarrow> bool" where
  "roomy n c \<longleftrightarrow> cn_policy c = [] \<and> q_pending (cn_q c) \<le> n \<and> length (q_out (cn_q c)) < 10 \<and> \<not> q_done (cn_q c)"

lemma roomy_mono: "roomy m c \<Longrightarrow> m \<le> n \<Longrightarrow> roomy n c"
  by (auto simp: roomy_def)

lemma roomy_enqueue:
  assumes "roomy 1000 (sv_conn sv 0)" "length msg \<le> 200" "conn_enqueue True 0 msg sv = (er, sv')"
  shows "er = None" "queued 0 sv' = queued 0 sv @ [msg]" "sv_conns sv' = sv_conns sv" "sv_kid sv' = sv_kid sv"
    "roomy n (sv_conn sv 0) \<Longrightarrow> length (queued 0 sv) < 9 \<Longrightarrow> roomy (n + 200) (sv_conn sv' 0)"
  using enqueue_room [of "cn_q (sv_conn sv 0)" msg True] assms
  by (auto simp: conn_enqueue_def roomy_def queueMessages_def queueBytes_def queued_def)

lemma demo_kind [simp]: "e_Kind (demo_def s) = KindDef"
  by (simp add: demo_def_def)

lemma demo_send:
  assumes "roomy n (sv_conn sv 0)" "n \<le> 1000" "length (queued 0 sv) < 9"
  shows "\<exists>sv'. replay_send True 0 [demo_def s] sv = (True, sv') \<and> queued 0 sv' = queued 0 sv @ [encodeVector (demo_def s) [] True] \<and>
    sv_conns sv' = sv_conns sv \<and> sv_kid sv' = sv_kid sv \<and> roomy (n + 200) (sv_conn sv' 0)"
proof -
  obtain er sv' where q: "conn_enqueue True 0 (encodeVector (demo_def s) [] True) sv = (er, sv')" by fastforce
  note r = roomy_enqueue [OF roomy_mono [OF assms(1,2)] demo_length q]
  have "wants (sv_conn sv 0) (demo_def s)" using assms(1) by (simp add: roomy_def)
  then show ?thesis using r assms q by (simp add: encode_def)
qed

lemma roomy_new [simp]: "roomy 0 newConn"
  by (simp add: roomy_def newConn_def new_queue_def)

lemma demo_queued: "queued 0 (demo_server ss) = []"
  by (simp add: queued_def newConn_def new_queue_def)

theorem publish_isolated_witness:
  "queued 0 (serve_publish (\<lambda>_. True) (demo_def Ok) [] (demo_server [Ok])) = [encodeVector (demo_def Ok) [] True]"
proof -
  have "\<not> overflows True (encodeVector (demo_def Ok) [] True) newConn"
    by (simp add: overflows_def enqueue_room newConn_def new_queue_def queueMessages_def)
  then show ?thesis
    using publish_isolated [of "demo_def Ok" "[]" "encodeVector (demo_def Ok) [] True" "demo_server [Ok]" "\<lambda>_. True" 0]
    by (simp add: encode_def queued_def) (simp add: newConn_def new_queue_def)
qed


subsection \<open>What a client can come to believe\<close>

text \<open>The devices as a client keeps them that treats what it reads as the snapshot store does.\<close>

definition client_mirror :: "string list \<Rightarrow> Snapshot" where
  "client_mirror msgs =
     st_cur (fold (\<lambda>el st. snd (Apply el 0 st)) (fst (parse_all (new_parser False (\<lambda>_. True) (concat msgs)))) NewStore)"

abbreviation shown_state :: "Snapshot \<Rightarrow> State option" where
  "shown_state s \<equiv> map_option v_State (Snapshot_Vector s ''D'' ''P'')"

text \<open>A replay sends the definitions of every child, not of the first as its log line says: with two
  children that show the same device, a client that asks for the properties ends with what the second
  shows, while its writes go to the first.\<close>

theorem duplicate_device_shows_last:
  "shown_state (sup_snapshot (sv_kid (demo_server [Ok, Busy]) 0)) = Some Ok \<and>
   find (shows_device sup_snapshot (demo_server [Ok, Busy]) ''D'') (sv_children (demo_server [Ok, Busy])) = Some 0 \<and>
   shown_state (client_mirror (queued 0 (replay True sup_snapshot 0 [] [] (demo_server [Ok, Busy])))) = Some Busy"
proof (intro conjI)
  show "shown_state (sup_snapshot (sv_kid (demo_server [Ok, Busy]) 0)) = Some Ok"
    by (simp add: Snapshot_Vector_def props_of_def def_vector_def demo_def_def)
  show "find (shows_device sup_snapshot (demo_server [Ok, Busy]) ''D'') (sv_children (demo_server [Ok, Busy])) = Some 0"
    by (simp add: shows_device_eq Devices_def upt_conv_Cons)
  obtain sv1 where 1: "replay_send True 0 [demo_def Ok] (demo_server [Ok, Busy]) = (True, sv1)"
      "queued 0 sv1 = [encodeVector (demo_def Ok) [] True]" "sv_kid sv1 = sv_kid (demo_server [Ok, Busy])" "roomy 200 (sv_conn sv1 0)"
    using demo_send [of 0 "demo_server [Ok, Busy]" Ok] by (auto simp: demo_queued)
  obtain sv2 where 2: "replay_send True 0 [demo_def Busy] sv1 = (True, sv2)"
      "queued 0 sv2 = map (\<lambda>el. encodeVector el [] True) [demo_def Ok, demo_def Busy]"
    using demo_send [of 200 sv1 Busy] 1 by auto
  have "replay True sup_snapshot 0 [] [] (demo_server [Ok, Busy]) = sv2"
    using 1 2 by (simp add: replay_def upt_conv_Cons)
  then have "client_mirror (queued 0 (replay True sup_snapshot 0 [] [] (demo_server [Ok, Busy]))) =
      st_cur (fold (\<lambda>el st. snd (Apply el 0 st)) (map (element_view (\<lambda>_. True) []) [demo_def Ok, demo_def Busy]) NewStore)"
    using parse_definitions [of "[demo_def Ok, demo_def Busy]" False "\<lambda>_. True"] demo_wf by (simp add: client_mirror_def 2)
  moreover have "shown_state (st_cur (fold (\<lambda>el st. snd (Apply el 0 st))
      (map (element_view (\<lambda>_. True) []) [demo_def Ok, demo_def Busy]) NewStore)) = Some Busy" by code_simp
  ultimately show "shown_state (client_mirror (queued 0 (replay True sup_snapshot 0 [] [] (demo_server [Ok, Busy])))) = Some Busy"
    by simp
qed


end
