(* ===== verification/Supervisor_Run.thy ===== *)
theory Supervisor_Run
  imports Supervisor_Core
begin

text \<open>
  The acquire loop of \<^verbatim>\<open>internal/supervisor/run.go\<close> as a state machine: \<^verbatim>\<open>Run\<close>, \<^verbatim>\<open>attempt\<close> with its
  deferred clean-up, and \<^verbatim>\<open>readLoop\<close>, interleaved with the goroutines that share the supervisor: the
  CONNECT retry timer, the shutdown watcher, and clients that send. A step is one handler, one
  write or one phase change of one goroutine; the program counter \<open>r_pc\<close> says where the \<^verbatim>\<open>Run\<close>
  goroutine is. \<open>r_seen\<close> is a ghost: the elements handled since the attempt began.
\<close>

datatype Pc = PcTop | PcSpawn | PcRead | PcCleanup | PcRetry | PcDone

record Run =
  r_sup :: Sup
  r_pc :: Pc
  r_served :: bool
  r_bo :: backoff
  r_ctx :: bool \<comment> \<open>the context has ended\<close>
  r_slept :: "int list"
  r_seen :: "(Element \<times> gotime) list"

subsection \<open>Handlers\<close>

definition attempt_begin :: "Sup \<Rightarrow> Sup" where
  "attempt_begin s =
     (let s1 = transition PhaseSpawning ''spawning'' s
      in resetPresets (s1\<lparr>su_store := Reset (su_store s1)\<rparr>))"

definition spawn_failed :: "string \<Rightarrow> Sup \<Rightarrow> Sup" where
  "spawn_failed err = transition PhaseRetrying (''spawn failed: '' @ err)"

definition spawned :: "Sup \<Rightarrow> SendError option \<times> Sup" where
  "spawned s = rawWrite WGetProperties (transition PhaseAcquiring ''acquiring'' (s\<lparr>su_up := True, su_fds := []\<rparr>))"

definition getprops_failed :: "string \<Rightarrow> Sup \<Rightarrow> Sup" where
  "getprops_failed err = transition PhaseRetrying (''getProperties write: '' @ err)"

text \<open>The end of the stream: data is invalidated before the phase is left.\<close>

definition stream_end :: "string \<Rightarrow> bool \<Rightarrow> Sup \<Rightarrow> Sup" where
  "stream_end err ctx s =
     (if ctx then s
      else let gone = Devices (st_cur (su_store s));
               s1 = s\<lparr>su_store := Invalidate (su_store s)\<rparr>
           in announceGone gone (transition PhaseRetrying (''child stream ended: '' @ err) s1))"

definition attempt_cleanup :: "Sup \<Rightarrow> Sup" where
  "attempt_cleanup s =
     (let s1 = s\<lparr>su_up := False\<rparr>;
          gone = Devices (st_cur (su_store s1));
          s2 = s1\<lparr>su_store := Invalidate (su_store s1)\<rparr>
      in announceGone gone (emit EFailWaiters s2))"

definition retry_delay :: "bool \<Rightarrow> backoff \<Rightarrow> int \<times> backoff" where
  "retry_delay served b = backoff_next (if served then backoff_reset b else b)"

subsection \<open>Steps\<close>

inductive run_step :: "Run \<Rightarrow> Run \<Rightarrow> bool" where
  begin_attempt: "\<lbrakk>r_pc r = PcTop; \<not> r_ctx r\<rbrakk> \<Longrightarrow>
    run_step r (r\<lparr>r_sup := attempt_begin (r_sup r), r_pc := PcSpawn, r_served := False, r_seen := []\<rparr>)"
| stop_top: "\<lbrakk>r_pc r = PcTop; r_ctx r\<rbrakk> \<Longrightarrow>
    run_step r (r\<lparr>r_sup := transition PhaseStopped ''shut down'' (r_sup r), r_pc := PcDone\<rparr>)"
| spawn_fails: "r_pc r = PcSpawn \<Longrightarrow>
    run_step r (r\<lparr>r_sup := spawn_failed err (r_sup r), r_pc := PcRetry\<rparr>)"
| spawn_works: "\<lbrakk>r_pc r = PcSpawn; spawned (r_sup r) = (None, s)\<rbrakk> \<Longrightarrow>
    run_step r (r\<lparr>r_sup := s, r_pc := PcRead\<rparr>)"
| greet_fails: "\<lbrakk>r_pc r = PcSpawn; spawned (r_sup r) = (Some (OtherErr e), s)\<rbrakk> \<Longrightarrow>
    run_step r (r\<lparr>r_sup := getprops_failed e s, r_pc := PcCleanup\<rparr>)"
| receive_fd: "r_pc r = PcRead \<Longrightarrow>
    run_step r (r\<lparr>r_sup := (r_sup r)\<lparr>su_fds := su_fds (r_sup r) @ [fd]\<rparr>\<rparr>)"
| element: "\<lbrakk>r_pc r = PcRead; s = sup_apply el now (r_sup r)\<rbrakk> \<Longrightarrow>
    run_step r (r\<lparr>r_sup := s, r_served := r_served r \<or> Serving s, r_seen := r_seen r @ [(el, now)]\<rparr>)"
| stream_ends: "r_pc r = PcRead \<Longrightarrow>
    run_step r (r\<lparr>r_sup := stream_end err (r_ctx r) (r_sup r), r_pc := PcCleanup\<rparr>)"
| clean_up: "r_pc r = PcCleanup \<Longrightarrow>
    run_step r (r\<lparr>r_sup := attempt_cleanup (r_sup r), r_pc := PcRetry\<rparr>)"
| retry: "\<lbrakk>r_pc r = PcRetry; \<not> r_ctx r; retry_delay (r_served r) (r_bo r) = (d, b)\<rbrakk> \<Longrightarrow>
    run_step r (r\<lparr>r_sup := transition PhaseRetrying (su_reason (r_sup r)) (r_sup r), r_pc := PcTop,
      r_bo := b, r_slept := r_slept r @ [d]\<rparr>)"
| stop_retry: "\<lbrakk>r_pc r = PcRetry; r_ctx r\<rbrakk> \<Longrightarrow>
    run_step r (r\<lparr>r_sup := transition PhaseStopped ''shut down'' (r_sup r), r_pc := PcDone\<rparr>)"
| cancel: "run_step r (r\<lparr>r_ctx := True\<rparr>)"
| timer: "r_pc r = PcRead \<Longrightarrow> run_step r (r\<lparr>r_sup := nudge (r_sup r)\<rparr>)"
| disconnect: "\<lbrakk>r_pc r = PcRead; r_ctx r\<rbrakk> \<Longrightarrow> run_step r (r\<lparr>r_sup := disconnectQuietly (r_sup r)\<rparr>)"
| client: "run_step r (r\<lparr>r_sup := snd (Sup_Send c (r_sup r))\<rparr>)"
| configure: "run_step r (r\<lparr>r_sup := snd (SetPreconnect ctx device vec kind values (r_sup r))\<rparr>)"

definition run_init :: "Config \<Rightarrow> (nat \<Rightarrow> string option) \<Rightarrow> int \<Rightarrow> int \<Rightarrow> Run" where
  "run_init cfg io base cap =
     \<lparr>r_sup = New cfg io NewStore, r_pc = PcTop, r_served = False, r_bo = newBackoff base cap,
      r_ctx = False, r_slept = [], r_seen = []\<rparr>"

inductive run_reach :: "Run \<Rightarrow> bool" where
  init: "run_reach (run_init cfg io base cap)"
| step: "\<lbrakk>run_reach r; run_step r r'\<rbrakk> \<Longrightarrow> run_reach r'"

inductive_cases run_stepE: "run_step r r'"

subsection \<open>The invariant\<close>

text \<open>The store holds what the elements of the current attempt define, and nothing once the
  stream has ended.\<close>

definition seen_store :: "(Element \<times> gotime) list \<Rightarrow> Store" where
  "seen_store es = fold apply_at es NewStore"

definition holds_seen :: "Run \<Rightarrow> bool" where
  "holds_seen r \<longleftrightarrow> store_lookup (su_store (r_sup r)) = store_lookup (seen_store (r_seen r))"

definition store_empty :: "Run \<Rightarrow> bool" where
  "store_empty r \<longleftrightarrow> s_devices (st_cur (su_store (r_sup r))) = []"

definition run_inv :: "Run \<Rightarrow> bool" where
  "run_inv r \<longleftrightarrow>
     store_ok (su_store (r_sup r)) \<and>
     (r_pc r = PcSpawn \<longrightarrow> r_seen r = []) \<and>
     (r_pc r = PcRead \<longrightarrow> holds_seen r \<and> s_valid (st_cur (su_store (r_sup r)))) \<and>
     (r_pc r = PcCleanup \<longrightarrow> holds_seen r \<or> store_empty r) \<and>
     (r_pc r \<noteq> PcRead \<and> r_pc r \<noteq> PcCleanup \<longrightarrow> store_empty r) \<and>
     (su_up (r_sup r) \<longleftrightarrow> r_pc r = PcRead \<or> r_pc r = PcCleanup) \<and>
     (Serving (r_sup r) \<longrightarrow> r_pc r = PcRead \<or> r_ctx r \<and> (r_pc r = PcCleanup \<or> r_pc r = PcRetry)) \<and>
     (r_pc r = PcSpawn \<longrightarrow> s_valid (st_cur (su_store (r_sup r))))"

lemma stable_defs: "stable s = stable s' \<Longrightarrow> su_store s = su_store s' \<and> su_up s = su_up s'"
  by (simp add: stable_def)

lemma steady_send: "steady (snd (Sup_Send c s)) = steady s"
  by (simp add: Sup_Send_def raw_defs split: option.splits Cmd.splits)

lemma steady_preconnect: "steady (snd (SetPreconnect ctx device vec kind values s)) = steady s"
  by (auto simp: SetPreconnect_def raw_defs apfst_def map_prod_def split: VType.splits sum.splits prod.splits)
    (metis core_simps(2) snd_conv)+

lemma steady_disconnect: "steady (disconnectQuietly s) = steady s"
  unfolding disconnectQuietly_def Let_def by (intro core_fold) (simp add: raw_defs)

lemma stable_nudge: "stable (nudge s) = stable s"
proof -
  have "stable (fold (\<lambda>d s. if wantDevice s d \<and> connect_is False snap d then sendConnect d s else s) ds s) = stable s"
    for snap ds by (induction ds arbitrary: s) auto
  then show ?thesis by (simp add: nudge_def connectAll_def Let_def)
qed

lemma phase_nudge: "Serving (nudge s) \<Longrightarrow> Serving s"
proof -
  have step: "\<not> Serving s \<Longrightarrow> \<not> Serving (fold (\<lambda>d s. if wantDevice s d \<and> connect_is False snap d then sendConnect d s else s) ds s)"
    for snap ds
  proof (induction ds arbitrary: s)
    case (Cons d ds)
    have "\<not> Serving (sendConnect d s)"
      using Cons.prems core_base [OF core_simps(2)] by (simp add: Serving_def sendConnect_def raw_defs)
    then show ?case using Cons by auto
  qed simp
  then show "Serving (nudge s) \<Longrightarrow> Serving s" by (auto simp: nudge_def connectAll_def Let_def split: if_splits)
qed

lemma steady_announce: "steady (announceGone ds s) = steady s"
  by (simp add: announceGone_def core_fold)

lemma steadyD: "steady s = steady s' \<Longrightarrow> su_store s = su_store s' \<and> su_up s = su_up s' \<and> su_phase s = su_phase s'"
  by (simp add: steady_def stable_def)

lemma lookup_congr:
  "\<lbrakk>store_ok st; store_ok st'; store_lookup st = store_lookup st'\<rbrakk>
    \<Longrightarrow> store_lookup (apply_at x st) = store_lookup (apply_at x st')"
  by (cases x) (rule ext, simp add: store_lookup_apply)

lemma seen_store_ok: "store_ok (seen_store es)"
  unfolding seen_store_def by (rule store.run_inv) simp

lemma empty_ok: "s_devices s = [] \<Longrightarrow> snap_ok s"
  by (simp add: snap_ok_def)

lemma empty_lookup: "s_devices (st_cur st) = [] \<Longrightarrow> store_lookup st = store_lookup (seen_store [])"
  by (simp add: store_lookup_def Snapshot_Vector_def [abs_def] props_of_def seen_store_def NewStore_def)

lemma Apply_valid: "s_valid (st_cur (snd (Apply el now st))) = s_valid (st_cur st)"
  by (cases "fst (Apply el now st)") (simp_all add: Apply_published)

lemma attempt_begin_effect:
  "s_devices (st_cur (su_store (attempt_begin s))) = []" "s_valid (st_cur (su_store (attempt_begin s)))"
  "su_up (attempt_begin s) = su_up s" "su_phase (attempt_begin s) = PhaseSpawning"
  by (simp_all add: attempt_begin_def Let_def resetPresets_def transition_def Reset_def)

lemma spawned_effect:
  "su_store (snd (spawned s)) = su_store s" "su_up (snd (spawned s))" "su_phase (snd (spawned s)) = PhaseAcquiring"
  by (simp_all add: spawned_def rawWrite_def transition_def emit_def)

lemma transition_effect:
  "su_store (transition p x s) = su_store s" "su_up (transition p x s) = su_up s" "Serving (transition p x s) \<longleftrightarrow> p = PhaseServing"
  by (simp_all add: transition_def Serving_def)

lemma stream_end_effect:
  "ctx \<Longrightarrow> stream_end err ctx s = s"
  "\<not> ctx \<Longrightarrow> s_devices (st_cur (su_store (stream_end err ctx s))) = []"
  "su_up (stream_end err ctx s) = su_up s" "Serving (stream_end err ctx s) \<Longrightarrow> ctx \<and> Serving s"
  by (cases ctx; simp add: stream_end_def Let_def Serving_def Invalidate_def transition_def
      steadyD [OF steady_announce])+

lemma cleanup_effect:
  "s_devices (st_cur (su_store (attempt_cleanup s))) = []" "\<not> su_up (attempt_cleanup s)"
  "su_phase (attempt_cleanup s) = su_phase s"
  by (simp_all add: attempt_cleanup_def Let_def Invalidate_def emit_def steadyD [OF steady_announce])

lemma run_init_inv: "run_inv (run_init cfg io base cap)"
  by (simp add: run_inv_def run_init_def New_def Let_def store_empty_def NewStore_def Serving_def empty_ok)

text \<open>A step that keeps the store, the writer, the phase and the counter keeps the invariant.\<close>

lemma run_inv_quiet:
  assumes "run_inv r" "su_store s = su_store (r_sup r)" "su_up s = su_up (r_sup r)" "Serving s \<longrightarrow> Serving (r_sup r)"
  shows "run_inv (r\<lparr>r_sup := s\<rparr>)"
  using assms by (auto simp: run_inv_def holds_seen_def store_empty_def)

lemma run_inv_element:
  assumes "run_inv r" "r_pc r = PcRead"
  shows "run_inv (r\<lparr>r_sup := sup_apply el now (r_sup r), r_served := x, r_seen := r_seen r @ [(el, now)]\<rparr>)"
proof -
  let ?s = "sup_apply el now (r_sup r)"
  have st: "su_store ?s = apply_at (el, now) (su_store (r_sup r))" "su_up ?s = su_up (r_sup r)"
    using sup_apply_base [of el now "r_sup r"] by (simp_all add: stable_def apply_at_def)
  have ok: "store_ok (su_store (r_sup r))" and seen: "holds_seen r" and valid: "s_valid (st_cur (su_store (r_sup r)))"
    and up: "su_up (r_sup r)" using assms by (auto simp: run_inv_def)
  have "store_lookup (su_store ?s) = store_lookup (seen_store (r_seen r @ [(el, now)]))"
    using lookup_congr [OF ok seen_store_ok seen [unfolded holds_seen_def]] by (simp add: st seen_store_def)
  then show ?thesis
    using assms(2) ok valid up by (simp add: run_inv_def holds_seen_def st apply_at_def Apply_ok Apply_valid)
qed

lemma run_inv_step:
  assumes "run_inv r" "run_step r r'" shows "run_inv r'"
  using assms(2)
proof cases
  case begin_attempt
  then show ?thesis using assms(1)
    by (simp add: run_inv_def store_empty_def attempt_begin_effect empty_ok Serving_def)
next
  case stop_top
  then show ?thesis using assms(1)
    by (simp add: run_inv_def store_empty_def transition_effect)
next
  case (spawn_fails err)
  then show ?thesis using assms(1)
    by (simp add: run_inv_def store_empty_def transition_effect spawn_failed_def)
next
  case (spawn_works s)
  have "su_store s = su_store (r_sup r)" "su_up s" "su_phase s = PhaseAcquiring"
    using spawned_effect [of "r_sup r"] spawn_works(3) by simp_all
  moreover have "store_lookup (su_store (r_sup r)) = store_lookup (seen_store [])"
    using assms(1) spawn_works by (intro empty_lookup) (simp add: run_inv_def store_empty_def)
  ultimately show ?thesis using assms(1) spawn_works(1,2)
    by (simp add: run_inv_def holds_seen_def Serving_def)
next
  case (greet_fails e s)
  have "su_store s = su_store (r_sup r)" "su_up s"
    using spawned_effect [of "r_sup r"] greet_fails(3) by simp_all
  then show ?thesis using assms(1) greet_fails(1,2)
    by (simp add: run_inv_def store_empty_def getprops_failed_def transition_effect)
next
  case (receive_fd fd)
  then show ?thesis using run_inv_quiet [OF assms(1), of "(r_sup r)\<lparr>su_fds := su_fds (r_sup r) @ [fd]\<rparr>"]
    by (simp add: Serving_def)
next
  case (element s el now)
  then show ?thesis using run_inv_element [OF assms(1)] by simp
next
  case (stream_ends err)
  then show ?thesis using assms(1) stream_end_effect [where ctx = "r_ctx r" and err = err and s = "r_sup r"]
    by (cases "r_ctx r") (auto simp: run_inv_def store_empty_def holds_seen_def empty_ok)
next
  case clean_up
  then show ?thesis using assms(1)
    by (auto simp: run_inv_def store_empty_def cleanup_effect empty_ok Serving_def)
next
  case (retry d b)
  then show ?thesis using assms(1) by (simp add: run_inv_def store_empty_def transition_effect)
next
  case stop_retry
  then show ?thesis using assms(1) by (simp add: run_inv_def store_empty_def transition_effect)
next
  case cancel
  then show ?thesis using assms(1) by (auto simp: run_inv_def store_empty_def holds_seen_def)
next
  case timer
  then show ?thesis
    using run_inv_quiet [OF assms(1)] stable_defs [OF stable_nudge] phase_nudge by simp
next
  case disconnect
  then show ?thesis
    using run_inv_quiet [OF assms(1)] steadyD [OF steady_disconnect] by (simp add: Serving_def)
next
  case (client c)
  then show ?thesis using run_inv_quiet [OF assms(1)] steadyD [OF steady_send] by (simp add: Serving_def)
next
  case configure
  then show ?thesis using run_inv_quiet [OF assms(1)] steadyD [OF steady_preconnect] by (simp add: Serving_def)
qed

lemma run_reach_inv: "run_reach r \<Longrightarrow> run_inv r"
  by (induction rule: run_reach.induct) (auto simp: run_init_inv run_inv_step)

text \<open>
  C19: no property outlives the child that defined it: in every reachable state, a property that can
  be looked up is one the elements read since the present child was started define, the child has
  not been torn down, and its value is exactly what those elements make it.
\<close>

theorem snapshot_is_of_this_child:
  assumes "run_reach r" "store_lookup (su_store (r_sup r)) d n = Some v"
  shows "(r_pc r = PcRead \<or> r_pc r = PcCleanup) \<and> su_up (r_sup r) \<and> store_lookup (seen_store (r_seen r)) d n = Some v"
proof -
  have inv: "run_inv r" using assms(1) by (rule run_reach_inv)
  have ne: "\<not> store_empty r"
    using assms(2) by (auto simp: store_empty_def store_lookup_def Snapshot_Vector_def props_of_def)
  then show ?thesis using inv assms(2) by (auto simp: run_inv_def holds_seen_def)
qed


subsection \<open>A concrete run\<close>

definition demo_def :: Element where
  "demo_def = connected_element\<lparr>e_Kind := KindDef\<rparr>"

definition demo_run :: Run where
  "demo_run = (run_init plain_config (\<lambda>_. None) 0 0)\<lparr>
     r_sup := sup_apply demo_def 5 (snd (spawned (attempt_begin (New plain_config (\<lambda>_. None) NewStore)))),
     r_pc := PcRead, r_served := True, r_seen := [(demo_def, 5)]\<rparr>"

lemma demo_spawned:
  "su_phase (snd (spawned s)) = PhaseAcquiring" "su_cfg (snd (spawned s)) = su_cfg s"
  "su_presets (snd (spawned s)) = su_presets s"
  by (simp_all add: spawned_def rawWrite_def transition_def emit_def)

lemma demo_serving: "Serving (r_sup demo_run)"
proof -
  have "su_cfg (attempt_begin s) = su_cfg s" for s
    by (simp add: attempt_begin_def Let_def resetPresets_def transition_def)
  then show ?thesis
    unfolding demo_run_def Serving_def
    by (simp add: phase_result demo_def_def connected_element_def connect_on_def wantDevice_def demo_spawned
        New_def Let_def plain_config_def zero_element_def zero_member_def)
qed

lemma demo_reach: "run_reach demo_run"
proof -
  let ?r0 = "run_init plain_config (\<lambda>_. None) 0 0"
  let ?s1 = "attempt_begin (r_sup ?r0)"
  let ?r1 = "?r0\<lparr>r_sup := ?s1, r_pc := PcSpawn, r_served := False, r_seen := []\<rparr>"
  let ?s2 = "snd (spawned ?s1)"
  let ?r2 = "?r1\<lparr>r_sup := ?s2, r_pc := PcRead\<rparr>"
  have io: "su_io ?s1 = (\<lambda>_. None)"
    by (simp add: attempt_begin_def Let_def resetPresets_def transition_def run_init_def New_def)
  have r1: "run_reach ?r1"
    by (rule run_reach.step [OF run_reach.init run_step.begin_attempt]) (simp_all add: run_init_def)
  have sp: "spawned ?s1 = (None, ?s2)"
    using io by (simp add: spawned_def rawWrite_def transition_def)
  have r2: "run_reach ?r2"
    by (rule run_reach.step [OF r1 run_step.spawn_works]) (use sp in simp_all)
  have "run_step ?r2 (?r2\<lparr>r_sup := sup_apply demo_def 5 ?s2,
      r_served := r_served ?r2 \<or> Serving (sup_apply demo_def 5 ?s2), r_seen := r_seen ?r2 @ [(demo_def, 5)]\<rparr>)"
    by (rule run_step.element) simp_all
  from run_reach.step [OF r2 this] show ?thesis
    using demo_serving by (simp add: demo_run_def run_init_def)
qed


theorem snapshot_is_of_this_child_witness:
  "\<exists>v. (r_pc demo_run = PcRead \<or> r_pc demo_run = PcCleanup) \<and> su_up (r_sup demo_run) \<and>
    store_lookup (seen_store (r_seen demo_run)) ''D'' ''CONNECTION'' = Some v"
proof -
  have "store_lookup (su_store (r_sup demo_run)) = store_lookup (seen_store (r_seen demo_run))"
    using run_reach_inv [OF demo_reach] by (simp add: run_inv_def holds_seen_def demo_run_def)
  moreover have "store_lookup (seen_store (r_seen demo_run)) ''D'' ''CONNECTION'' = Some (def_vector demo_def 5)"
    using store_lookup_apply [OF NewStore_ok, of demo_def 5 "''D''"]
    by (simp add: demo_run_def seen_store_def dev_step_def) (simp add: demo_def_def connected_element_def
        zero_element_def store_lookup_def Snapshot_Vector_def [abs_def] props_of_def NewStore_def maxProperties_def)
  ultimately have "store_lookup (su_store (r_sup demo_run)) ''D'' ''CONNECTION'' = Some (def_vector demo_def 5)" by simp
  from snapshot_is_of_this_child [OF demo_reach this] show ?thesis by blast
qed

subsection \<open>Announcing the death of a child\<close>

lemma announce_out:
  "su_out (announceGone ds s) =
    su_out s @ (if c_OnElement (su_cfg s) then map (\<lambda>d. EElement (zero_element\<lparr>e_Kind := KindDel, e_Device := d\<rparr>)) ds else [])"
proof -
  have "su_out (fold (\<lambda>d. emit (EElement (zero_element\<lparr>e_Kind := KindDel, e_Device := d\<rparr>))) ds s) =
      su_out s @ map (\<lambda>d. EElement (zero_element\<lparr>e_Kind := KindDel, e_Device := d\<rparr>)) ds"
    by (induction ds arbitrary: s) (auto simp: emit_def)
  then show ?thesis by (simp add: announceGone_def)
qed

text \<open>
  When the stream of a child ends, the element observer is told exactly once of each device the
  snapshot held, by a device-wide \<open>delProperty\<close>, whether the supervisor is shutting down or not, and
  the waiters are failed once.
\<close>

theorem death_announced_once:
  "\<exists>before after. before @ after =
      (if c_OnElement (su_cfg s) then map (\<lambda>d. EElement (zero_element\<lparr>e_Kind := KindDel, e_Device := d\<rparr>))
         (Devices (st_cur (su_store s))) else []) \<and>
    su_out (attempt_cleanup (stream_end err ctx s)) = su_out s @ before @ [EFailWaiters] @ after"
proof (cases ctx)
  case True
  show ?thesis
    by (insert True, rule exI [of _ "[]"], rule exI [of _ "if c_OnElement (su_cfg s) then
         map (\<lambda>d. EElement (zero_element\<lparr>e_Kind := KindDel, e_Device := d\<rparr>)) (Devices (st_cur (su_store s))) else []"])
      (simp add: stream_end_def attempt_cleanup_def Let_def announce_out emit_def Devices_def)
next
  case False
  have "su_cfg (announceGone ds t) = su_cfg t" for ds t
    using steady_announce [of ds t] by (simp add: steady_def stable_def)
  then show ?thesis using False
    by (intro exI [of _ "if c_OnElement (su_cfg s) then map (\<lambda>d. EElement (zero_element\<lparr>e_Kind := KindDel, e_Device := d\<rparr>))
         (Devices (st_cur (su_store s))) else []"] exI [of _ "[]"])
      (simp add: stream_end_def attempt_cleanup_def Let_def announce_out emit_def steadyD [OF steady_announce]
        transition_def Invalidate_def Devices_def)
qed

end
