(* ===== verification/Supervisor_Wait.thy ===== *)
theory Supervisor_Wait
  imports Supervisor_Core
begin

text \<open>
  Waiting for the driver (\<^verbatim>\<open>WaitSettle\<close>, \<^verbatim>\<open>WaitUpdate\<close> and \<^verbatim>\<open>waiters\<close> in
  \<^verbatim>\<open>internal/supervisor/sender.go\<close>) as a system of goroutines: any number of callers, each at one of
  the points of its loop, and the run loop, which publishes an element or loses the child and then
  wakes the callers. Every step is one access to shared memory; \<open>waiters\<close> is guarded by its mutex, so
  each of its operations is one step.

  A channel of capacity one is the list of the messages in it; sending to a full channel blocks, which
  here is the operation returning \<^const>\<open>None\<close>.
\<close>

subsection \<open>The table of waiters\<close>

record waiters =
  ws_m :: "nat list gomap"
  ws_chan :: "nat \<Rightarrow> SendError option list" \<comment> \<open>the buffer of each channel\<close>
  ws_made :: nat \<comment> \<open>channels made so far\<close>

definition wkey :: "string \<Rightarrow> string \<Rightarrow> string" where
  "wkey device vec = device @ NUL # vec"

definition chans_of :: "waiters \<Rightarrow> string \<Rightarrow> nat list" where
  "chans_of ws key = (case map_of (ws_m ws) key of None \<Rightarrow> [] | Some cs \<Rightarrow> cs)"

definition ws_register :: "string \<Rightarrow> string \<Rightarrow> waiters \<Rightarrow> nat \<times> waiters" where
  "ws_register device vec ws =
     (let ch = ws_made ws; k = wkey device vec in
      (ch, ws\<lparr>ws_m := AList.update k (chans_of ws k @ [ch]) (ws_m ws), ws_chan := (ws_chan ws)(ch := []), ws_made := Suc ch\<rparr>))"

definition chan_send :: "SendError option \<Rightarrow> nat \<Rightarrow> waiters \<Rightarrow> waiters option" where
  "chan_send m ch ws = (if ws_chan ws ch \<noteq> [] then None else Some (ws\<lparr>ws_chan := (ws_chan ws)(ch := [m])\<rparr>))"

fun send_all :: "SendError option \<Rightarrow> nat list \<Rightarrow> waiters \<Rightarrow> waiters option" where
  "send_all m [] ws = Some ws"
| "send_all m (ch # chs) ws = Option.bind (chan_send m ch ws) (send_all m chs)"

definition ws_notify :: "string \<Rightarrow> string \<Rightarrow> waiters \<Rightarrow> waiters option" where
  "ws_notify device vec ws =
     (let k = wkey device vec in
      map_option (\<lambda>ws. ws\<lparr>ws_m := AList.delete k (ws_m ws)\<rparr>) (send_all None (chans_of ws k) ws))"

text \<open>\<^verbatim>\<open>failAll\<close> ranges over the map and deletes each entry once its channels are served.\<close>

fun fail_entries :: "SendError \<Rightarrow> nat list gomap \<Rightarrow> waiters \<Rightarrow> waiters option" where
  "fail_entries er [] ws = Some ws"
| "fail_entries er ((k, chs) # m) ws =
     Option.bind (send_all (Some er) chs ws) (\<lambda>ws. fail_entries er m (ws\<lparr>ws_m := AList.delete k (ws_m ws)\<rparr>))"

definition ws_failAll :: "SendError \<Rightarrow> waiters \<Rightarrow> waiters option" where
  "ws_failAll er ws = fail_entries er (ws_m ws) ws"

subsection \<open>The callers\<close>

type_synonym wait_result = "State \<times> string \<times> SendError option"

text \<open>One turn of the loop up to the registration: the result, or \<^const>\<open>None\<close> to go on waiting. \<open>settle\<close>
  distinguishes \<^verbatim>\<open>WaitSettle\<close> from \<^verbatim>\<open>WaitUpdate\<close>, which returns an error only.\<close>

definition wait_check :: "bool \<Rightarrow> string \<Rightarrow> Snapshot \<Rightarrow> string \<Rightarrow> string \<Rightarrow> gotime \<Rightarrow> wait_result option" where
  "wait_check settle reason snap device vec since =
     (if \<not> s_valid snap then Some (Alert, [], Some (NotServing reason))
      else (case Snapshot_Vector snap device vec of
          None \<Rightarrow> Some (Alert, [], Some (OtherErr (''supervisor: '' @ device @ ''.'' @ vec @ '' is not defined'')))
        | Some v \<Rightarrow>
            if (settle \<longrightarrow> v_State v \<noteq> Busy) \<and> since < v_Updated v
            then Some (if settle then (v_State v, v_Message v, None) else (Ok, [], None))
            else None))"

datatype wait_pc = AtCheck | AtRegister | AtSelect nat | Returned wait_result

record waiter =
  wt_settle :: bool
  wt_device :: string
  wt_prop :: string
  wt_since :: gotime
  wt_pc :: wait_pc

datatype wake = Wake string string | FailAll SendError

record WaitSys =
  y_store :: Store
  y_reason :: string
  y_ws :: waiters
  y_pend :: "wake option" \<comment> \<open>what the run loop does next\<close>
  y_callers :: "waiter list"

definition wake_up :: "wake \<Rightarrow> waiters \<Rightarrow> waiters option" where
  "wake_up w ws = (case w of Wake d p \<Rightarrow> ws_notify d p ws | FailAll er \<Rightarrow> ws_failAll er ws)"

abbreviation caller_at :: "WaitSys \<Rightarrow> nat \<Rightarrow> waiter \<Rightarrow> bool" where
  "caller_at y i w \<equiv> i < length (y_callers y) \<and> y_callers y ! i = w"

definition go_on :: "nat \<Rightarrow> wait_pc \<Rightarrow> WaitSys \<Rightarrow> WaitSys" where
  "go_on i pc y = y\<lparr>y_callers := (y_callers y)[i := (y_callers y ! i)\<lparr>wt_pc := pc\<rparr>]\<rparr>"

text \<open>The steps. The run loop applies an element and wakes when it changed something; when it loses
  the child it invalidates the store and fails every caller; a new attempt resets the store. A caller
  checks, registers, and then sleeps until its channel has a message, its deadline passes or its
  context is cancelled.\<close>

inductive wait_step :: "WaitSys \<Rightarrow> WaitSys \<Rightarrow> bool" where
  publish: "\<lbrakk>y_pend y = None; Apply el now (y_store y) = (changed, st)\<rbrakk> \<Longrightarrow>
    wait_step y (y\<lparr>y_store := st, y_pend := (if changed then Some (Wake (e_Device el) (e_Name el)) else None)\<rparr>)"
| child_gone: "y_pend y = None \<Longrightarrow>
    wait_step y (y\<lparr>y_store := Invalidate (y_store y), y_pend := Some (FailAll er), y_reason := reason\<rparr>)"
| attempt: "y_pend y = None \<Longrightarrow> wait_step y (y\<lparr>y_store := Reset (y_store y)\<rparr>)"
| wakes: "\<lbrakk>y_pend y = Some w; wake_up w (y_ws y) = Some ws\<rbrakk> \<Longrightarrow> wait_step y (y\<lparr>y_ws := ws, y_pend := None\<rparr>)"
| call: "wait_step y (y\<lparr>y_callers := y_callers y @
    [\<lparr>wt_settle = settle, wt_device = d, wt_prop = p, wt_since = since, wt_pc = AtCheck\<rparr>]\<rparr>)"
| check: "\<lbrakk>caller_at y i w; wt_pc w = AtCheck\<rbrakk> \<Longrightarrow>
    wait_step y (go_on i (case wait_check (wt_settle w) (y_reason y) (st_cur (y_store y)) (wt_device w) (wt_prop w) (wt_since w) of
      Some r \<Rightarrow> Returned r | None \<Rightarrow> AtRegister) y)"
| register: "\<lbrakk>caller_at y i w; wt_pc w = AtRegister; ws_register (wt_device w) (wt_prop w) (y_ws y) = (ch, ws)\<rbrakk> \<Longrightarrow>
    wait_step y (go_on i (AtSelect ch) (y\<lparr>y_ws := ws\<rparr>))"
| receive: "\<lbrakk>caller_at y i w; wt_pc w = AtSelect ch; ws_chan (y_ws y) ch = m # ms\<rbrakk> \<Longrightarrow>
    wait_step y (go_on i (if m = None then AtCheck else Returned (Alert, [], m))
      (y\<lparr>y_ws := (y_ws y)\<lparr>ws_chan := (ws_chan (y_ws y))(ch := ms)\<rparr>\<rparr>))"
| deadline: "\<lbrakk>caller_at y i w; wt_pc w = AtSelect ch\<rbrakk> \<Longrightarrow>
    wait_step y (go_on i (Returned (if wt_settle w then Busy else Ok, [], Some (OtherErr msg))) y)"
| cancelled: "\<lbrakk>caller_at y i w; wt_pc w = AtSelect ch\<rbrakk> \<Longrightarrow>
    wait_step y (go_on i (Returned (Alert, [], Some (OtherErr msg))) y)"

definition wait_init :: WaitSys where
  "wait_init = \<lparr>y_store = NewStore, y_reason = ''not started'',
     y_ws = \<lparr>ws_m = [], ws_chan = (\<lambda>_. []), ws_made = 0\<rparr>, y_pend = None, y_callers = []\<rparr>"

inductive wait_reach :: "WaitSys \<Rightarrow> bool" where
  init: "wait_reach wait_init"
| step: "\<lbrakk>wait_reach y; wait_step y y'\<rbrakk> \<Longrightarrow> wait_reach y'"

subsection \<open>The invariant of the table\<close>

text \<open>A registered channel was made, is registered once, and is empty.\<close>

definition registered :: "waiters \<Rightarrow> nat list" where
  "registered ws = concat (map snd (ws_m ws))"

definition ws_ok :: "waiters \<Rightarrow> bool" where
  "ws_ok ws \<longleftrightarrow> gomap_ok (ws_m ws) \<and> distinct (registered ws) \<and>
     list_all (\<lambda>ch. ch < ws_made ws \<and> ws_chan ws ch = []) (registered ws)"

text \<open>A set of channels that got a message.\<close>

definition filled :: "SendError option \<Rightarrow> nat list \<Rightarrow> waiters \<Rightarrow> waiters" where
  "filled m chs ws = ws\<lparr>ws_chan := (\<lambda>ch. if ch \<in> set chs then [m] else ws_chan ws ch)\<rparr>"

lemma filled_simps [simp]:
  "ws_m (filled m chs ws) = ws_m ws" "ws_made (filled m chs ws) = ws_made ws"
  "ws_chan (filled m chs ws) ch = (if ch \<in> set chs then [m] else ws_chan ws ch)" "filled m [] ws = ws"
  by (simp_all add: filled_def)

lemma send_all_ok:
  "distinct chs \<Longrightarrow> (\<And>ch. ch \<in> set chs \<Longrightarrow> ws_chan ws ch = []) \<Longrightarrow> send_all m chs ws = Some (filled m chs ws)"
proof (induction chs arbitrary: ws)
  case (Cons ch chs)
  have "chan_send m ch ws = Some (filled m [ch] ws)"
    using Cons.prems by (simp add: chan_send_def filled_def fun_upd_def)
  moreover have "send_all m chs (filled m [ch] ws) = Some (filled m chs (filled m [ch] ws))"
    using Cons.prems by (intro Cons.IH) auto
  moreover have "filled m chs (filled m [ch] ws) = filled m (ch # chs) ws"
    by (auto simp: filled_def fun_eq_iff intro: arg_cong [of _ _ "\<lambda>f. ws_chan_update f ws"] cong: if_cong)
  ultimately show ?case by simp
qed simp

lemma chans_of_registered: "set (chans_of ws k) \<subseteq> set (registered ws)"
  by (cases "map_of (ws_m ws) k") (auto simp: chans_of_def registered_def dest!: map_of_SomeD)

lemma distinct_concatD: "distinct (concat xss) \<Longrightarrow> xs \<in> set xss \<Longrightarrow> distinct xs"
  by (induction xss) auto

lemma ws_ok_chans:
  assumes "ws_ok ws" shows "distinct (chans_of ws k)" "ch \<in> set (chans_of ws k) \<Longrightarrow> ws_chan ws ch = []"
proof -
  show "distinct (chans_of ws k)"
    using assms distinct_concatD [of "map snd (ws_m ws)"]
    by (force simp: chans_of_def ws_ok_def registered_def split: option.splits dest!: map_of_SomeD)
  show "ch \<in> set (chans_of ws k) \<Longrightarrow> ws_chan ws ch = []"
    using assms chans_of_registered by (fastforce simp: ws_ok_def list_all_iff)
qed

lemma ws_notify_ok:
  assumes "ws_ok ws"
  shows "ws_notify d p ws = Some ((filled None (chans_of ws (wkey d p)) ws)\<lparr>ws_m := AList.delete (wkey d p) (ws_m ws)\<rparr>)"
proof -
  have "send_all None (chans_of ws (wkey d p)) ws = Some (filled None (chans_of ws (wkey d p)) ws)"
    by (intro send_all_ok ws_ok_chans [OF assms])
  then show ?thesis by (simp add: ws_notify_def Let_def)
qed

text \<open>Splitting the table at a key.\<close>

lemma registered_split:
  assumes "gomap_ok m" "map_of m k = Some cs"
  shows "\<exists>a b. m = a @ (k, cs) # b \<and> AList.delete k m = a @ b \<and> AList.update k cs' m = a @ (k, cs') # b"
  using assms
proof (induction m)
  case (Cons x m)
  obtain k' c where x: "x = (k', c)" by fastforce
  show ?case
  proof (cases "k' = k")
    case True
    then have "k \<notin> fst ` set m" using Cons.prems by (simp add: x)
    then have "AList.delete k m = m" by (rule AList.delete_id)
    then show ?thesis using True Cons.prems by (intro exI [of _ "[]"] exI [of _ m]) (simp add: x)
  next
    case False
    then obtain a b where m: "m = a @ (k, cs) # b" and d: "AList.delete k m = a @ b"
      and u: "AList.update k cs' m = a @ (k, cs') # b"
      using Cons by (auto simp: x)
    have "x # m = (x # a) @ (k, cs) # b" by (simp add: m)
    moreover have "AList.delete k (x # m) = (x # a) @ b" "AList.update k cs' (x # m) = (x # a) @ (k, cs') # b"
      using False d u by (simp_all add: x)
    ultimately show ?thesis by blast
  qed
qed simp

lemma update_new: "k \<notin> fst ` set m \<Longrightarrow> AList.update k v m = m @ [(k, v)]"
  by (induction m) auto

text \<open>Every operation keeps the invariant, and the sends never block.\<close>

lemma ws_register_ok:
  assumes "ws_ok ws" "ws_register d p ws = (ch, ws')"
  shows "ws_ok ws'" "ch \<in> set (chans_of ws' (wkey d p))" "ws_chan ws' = (ws_chan ws)(ch := [])"
    "set (registered ws') = insert ch (set (registered ws))" "ws_made ws \<le> ch"
    "set (chans_of ws k) \<subseteq> set (chans_of ws' k)"
proof -
  let ?k = "wkey d p"
  have ch: "ch = ws_made ws" and m: "ws_m ws' = AList.update ?k (chans_of ws ?k @ [ch]) (ws_m ws)"
    and c: "ws_chan ws' = (ws_chan ws)(ch := [])" and made: "ws_made ws' = Suc ch"
    using assms(2) by (auto simp: ws_register_def Let_def)
  have new: "ch \<notin> set (registered ws)" using assms(1) by (auto simp: ws_ok_def list_all_iff ch)
  have reg: "set (registered ws') = insert ch (set (registered ws)) \<and> distinct (registered ws')"
  proof (cases "map_of (ws_m ws) ?k")
    case None
    then have "?k \<notin> fst ` set (ws_m ws)" by (simp add: map_of_eq_None_iff)
    then have "ws_m ws' = ws_m ws @ [(?k, [ch])]" by (simp add: m chans_of_def None update_new)
    then show ?thesis using new assms(1) by (auto simp: registered_def ws_ok_def)
  next
    case (Some cs)
    have "gomap_ok (ws_m ws)" using assms(1) by (simp add: ws_ok_def)
    then obtain a b where "ws_m ws = a @ (?k, cs) # b" "AList.update ?k (cs @ [ch]) (ws_m ws) = a @ (?k, cs @ [ch]) # b"
      using registered_split [OF _ Some] by blast
    moreover have "chans_of ws ?k = cs" by (simp add: chans_of_def Some)
    ultimately have "ws_m ws = a @ (?k, cs) # b" "ws_m ws' = a @ (?k, cs @ [ch]) # b" using m by simp_all
    then show ?thesis using new assms(1) by (auto simp: registered_def ws_ok_def)
  qed
  then show "set (registered ws') = insert ch (set (registered ws))" by simp
  show "ws_ok ws'" using reg assms(1) by (auto simp: ws_ok_def list_all_iff m c made ch)
  show "ch \<in> set (chans_of ws' ?k)" by (simp add: chans_of_def m)
  show "ws_chan ws' = (ws_chan ws)(ch := [])" by (rule c)
  show "ws_made ws \<le> ch" by (simp add: ch)
  show "set (chans_of ws k) \<subseteq> set (chans_of ws' k)" by (cases "k = ?k") (auto simp: chans_of_def m)
qed

lemma ws_notify_keeps:
  assumes "ws_ok ws" "ws_notify d p ws = Some ws'"
  shows "ws_ok ws'" "chans_of ws' k = (if k = wkey d p then [] else chans_of ws k)" "ws_made ws' = ws_made ws"
    "ws_chan ws' ch = (if ch \<in> set (chans_of ws (wkey d p)) then [None] else ws_chan ws ch)"
proof -
  let ?k = "wkey d p"
  have ws': "ws' = (filled None (chans_of ws ?k) ws)\<lparr>ws_m := AList.delete ?k (ws_m ws)\<rparr>"
    using assms ws_notify_ok by simp
  show "chans_of ws' k = (if k = ?k then [] else chans_of ws k)" by (simp add: ws' chans_of_def)
  show "ws_made ws' = ws_made ws" "ws_chan ws' ch = (if ch \<in> set (chans_of ws ?k) then [None] else ws_chan ws ch)"
    by (simp_all add: ws')
  have "distinct (registered ws') \<and> set (registered ws') \<subseteq> set (registered ws) - set (chans_of ws ?k)"
  proof (cases "map_of (ws_m ws) ?k")
    case None
    then have "?k \<notin> fst ` set (ws_m ws)" by (simp add: map_of_eq_None_iff)
    then show ?thesis using assms(1) by (simp add: ws' registered_def chans_of_def None ws_ok_def)
  next
    case (Some cs)
    have "gomap_ok (ws_m ws)" using assms(1) by (simp add: ws_ok_def)
    then obtain a b where "ws_m ws = a @ (?k, cs) # b" "AList.delete ?k (ws_m ws) = a @ b"
      using registered_split [OF _ Some] by blast
    then have "ws_m ws = a @ (?k, cs) # b" "ws_m ws' = a @ b" by (simp_all add: ws')
    moreover have "chans_of ws ?k = cs" by (simp add: chans_of_def Some)
    ultimately show ?thesis using assms(1) by (auto simp: registered_def ws_ok_def)
  qed
  then show "ws_ok ws'" using assms(1) by (auto simp: ws_ok_def ws' list_all_iff)
qed

lemma fail_entries_ok:
  assumes "gomap_ok m" "distinct (concat (map snd m))" "\<And>ch. ch \<in> set (concat (map snd m)) \<Longrightarrow> ws_chan ws ch = []"
    "ws_m ws = m"
  shows "\<exists>ws'. fail_entries er m ws = Some ws' \<and> ws_m ws' = [] \<and> ws_made ws' = ws_made ws \<and>
    (\<forall>ch. ws_chan ws' ch = (if ch \<in> set (concat (map snd m)) then [Some er] else ws_chan ws ch))"
  using assms
proof (induction m arbitrary: ws)
  case (Cons x m)
  obtain k chs where x: "x = (k, chs)" by fastforce
  define ws1 where "ws1 = (filled (Some er) chs ws)\<lparr>ws_m := m\<rparr>"
  have s: "send_all (Some er) chs ws = Some (filled (Some er) chs ws)"
    using Cons.prems by (intro send_all_ok) (auto simp: x)
  have "AList.delete k (ws_m ws) = m" using Cons.prems(1,4) by (simp add: x)
  moreover have "\<exists>ws'. fail_entries er m ws1 = Some ws' \<and> ws_m ws' = [] \<and> ws_made ws' = ws_made ws1 \<and>
      (\<forall>ch. ws_chan ws' ch = (if ch \<in> set (concat (map snd m)) then [Some er] else ws_chan ws1 ch))"
    using Cons.prems by (intro Cons.IH) (auto simp: x ws1_def)
  ultimately show ?case using s by (auto simp: x ws1_def)
qed simp

lemma ws_failAll_ok:
  assumes "ws_ok ws"
  shows "\<exists>ws'. ws_failAll er ws = Some ws' \<and> ws_ok ws' \<and> ws_m ws' = [] \<and> ws_made ws' = ws_made ws \<and>
    (\<forall>ch. ws_chan ws' ch = (if ch \<in> set (registered ws) then [Some er] else ws_chan ws ch))"
proof -
  obtain ws' where "fail_entries er (ws_m ws) ws = Some ws'" "ws_m ws' = []" "ws_made ws' = ws_made ws"
      "\<forall>ch. ws_chan ws' ch = (if ch \<in> set (registered ws) then [Some er] else ws_chan ws ch)"
    using fail_entries_ok [of "ws_m ws" ws er] assms by (auto simp: ws_ok_def registered_def list_all_iff)
  moreover have "ws_ok ws'" using \<open>ws_m ws' = []\<close> by (simp add: ws_ok_def registered_def)
  ultimately show ?thesis by (auto simp: ws_failAll_def)
qed

subsection \<open>The invariant of the system\<close>

text \<open>A caller asleep on a channel, and the key it is registered under.\<close>

definition sleeping :: "WaitSys \<Rightarrow> nat \<Rightarrow> nat \<Rightarrow> bool" where
  "sleeping y i ch \<longleftrightarrow> i < length (y_callers y) \<and> wt_pc (y_callers y ! i) = AtSelect ch"

definition caller_key :: "WaitSys \<Rightarrow> nat \<Rightarrow> string" where
  "caller_key y i = wkey (wt_device (y_callers y ! i)) (wt_prop (y_callers y ! i))"

text \<open>A sleeping caller is registered or has its message, and no other sleeps on its channel.\<close>

definition sys_ok :: "WaitSys \<Rightarrow> bool" where
  "sys_ok y \<longleftrightarrow> ws_ok (y_ws y) \<and>
     (\<forall>i ch. sleeping y i ch \<longrightarrow> ch < ws_made (y_ws y) \<and>
        (ws_chan (y_ws y) ch \<noteq> [] \<or> ch \<in> set (chans_of (y_ws y) (caller_key y i)))) \<and>
     (\<forall>i j ch. sleeping y i ch \<longrightarrow> sleeping y j ch \<longrightarrow> i = j)"

lemma sleeping_go_on: "i < length (y_callers y) \<Longrightarrow>
    sleeping (go_on i pc y) j ch \<longleftrightarrow> (if j = i then pc = AtSelect ch else sleeping y j ch)"
  by (auto simp: sleeping_def go_on_def)

lemma key_go_on [simp]: "caller_key (go_on i pc y) j = caller_key y j"
  by (cases "i < length (y_callers y)"; cases "j = i") (auto simp: caller_key_def go_on_def list_update_beyond)

lemma go_on_simps [simp]: "y_ws (go_on i pc y) = y_ws y" "y_pend (go_on i pc y) = y_pend y" "y_store (go_on i pc y) = y_store y"
  by (simp_all add: go_on_def)

lemma sleeping_ws [simp]: "sleeping (y\<lparr>y_ws := ws\<rparr>) i ch = sleeping y i ch" "caller_key (y\<lparr>y_ws := ws\<rparr>) i = caller_key y i"
  by (simp_all add: sleeping_def caller_key_def)

text \<open>A caller that stops sleeping keeps the invariant.\<close>

lemma sys_ok_go_on:
  assumes "sys_ok y" "i < length (y_callers y)" "\<And>ch. pc \<noteq> AtSelect ch"
  shows "sys_ok (go_on i pc y)"
  using assms by (auto simp: sys_ok_def sleeping_go_on)

lemma sys_ok_same:
  assumes "sys_ok y" "y_ws y' = y_ws y" "\<And>i ch. sleeping y' i ch \<Longrightarrow> sleeping y i ch \<and> caller_key y' i = caller_key y i"
  shows "sys_ok y'"
  using assms unfolding sys_ok_def by metis

lemma sys_ok_register:
  assumes "sys_ok y" "i < length (y_callers y)" "ws_register (wt_device (y_callers y ! i)) (wt_prop (y_callers y ! i)) (y_ws y) = (ch, ws)"
  shows "sys_ok (go_on i (AtSelect ch) (y\<lparr>y_ws := ws\<rparr>))"
proof -
  have ok: "ws_ok (y_ws y)" using assms(1) by (simp add: sys_ok_def)
  note r = ws_register_ok [OF ok assms(3), folded caller_key_def]
  have made: "ws_made ws = Suc (ws_made (y_ws y))" "ch = ws_made (y_ws y)"
    using assms(3) by (auto simp: ws_register_def Let_def)
  have len: "i < length (y_callers (y\<lparr>y_ws := ws\<rparr>))" using assms(2) by simp
  have old: "c < ws_made (y_ws y) \<and> (ws_chan (y_ws y) c \<noteq> [] \<or> c \<in> set (chans_of (y_ws y) (caller_key y j)))"
    if "sleeping y j c" for j c using assms(1) that by (simp add: sys_ok_def)
  have uniq: "j = j'" if "sleeping y j c" "sleeping y j' c" for j j' c using assms(1) that by (auto simp: sys_ok_def)
  show ?thesis
    unfolding sys_ok_def
  proof (intro conjI allI impI)
    show "ws_ok (y_ws (go_on i (AtSelect ch) (y\<lparr>y_ws := ws\<rparr>)))" using r(1) by simp
    fix j c assume s: "sleeping (go_on i (AtSelect ch) (y\<lparr>y_ws := ws\<rparr>)) j c"
    show "c < ws_made (y_ws (go_on i (AtSelect ch) (y\<lparr>y_ws := ws\<rparr>)))"
      using s old made by (fastforce simp: sleeping_go_on [OF len] split: if_splits)
    show "ws_chan (y_ws (go_on i (AtSelect ch) (y\<lparr>y_ws := ws\<rparr>))) c \<noteq> [] \<or>
        c \<in> set (chans_of (y_ws (go_on i (AtSelect ch) (y\<lparr>y_ws := ws\<rparr>))) (caller_key (go_on i (AtSelect ch) (y\<lparr>y_ws := ws\<rparr>)) j))"
      using s old [of j c] r(2,3) r(6) [of "caller_key y j"] made(2)
      by (auto simp: sleeping_go_on [OF len] split: if_splits)
    fix j' assume "sleeping (go_on i (AtSelect ch) (y\<lparr>y_ws := ws\<rparr>)) j' c"
    then show "j = j'" using s old uniq made(2) by (fastforce simp: sleeping_go_on [OF len] split: if_splits)
  qed
qed

lemma sys_ok_receive:
  assumes "sys_ok y" "sleeping y i ch" "ws_chan (y_ws y) ch = m # ms" "\<And>c. pc \<noteq> AtSelect c"
  shows "sys_ok (go_on i pc (y\<lparr>y_ws := (y_ws y)\<lparr>ws_chan := (ws_chan (y_ws y))(ch := ms)\<rparr>\<rparr>))"
proof -
  let ?ws = "(y_ws y)\<lparr>ws_chan := (ws_chan (y_ws y))(ch := ms)\<rparr>"
  have ok: "ws_ok (y_ws y)" using assms(1) by (simp add: sys_ok_def)
  have "ch \<notin> set (registered (y_ws y))" using ok assms(3) by (auto simp: ws_ok_def list_all_iff)
  then have "ws_ok ?ws" using ok by (auto simp: ws_ok_def registered_def list_all_iff)
  moreover have "i < length (y_callers (y\<lparr>y_ws := ?ws\<rparr>))" using assms(2) by (simp add: sleeping_def)
  moreover have "chans_of ?ws k = chans_of (y_ws y) k" for k by (simp add: chans_of_def)
  ultimately show ?thesis
    using assms(1,2,4) by (auto simp: sys_ok_def sleeping_go_on)
qed

lemma sys_ok_wake:
  assumes "sys_ok y" "wake_up w (y_ws y) = Some ws"
  shows "sys_ok (y\<lparr>y_ws := ws, y_pend := None\<rparr>)"
proof -
  have ok: "ws_ok (y_ws y)" using assms(1) by (simp add: sys_ok_def)
  have "ws_ok ws \<and> ws_made ws = ws_made (y_ws y) \<and> (\<forall>ch k. ws_chan (y_ws y) ch \<noteq> [] \<or> ch \<in> set (chans_of (y_ws y) k) \<longrightarrow>
      ws_chan ws ch \<noteq> [] \<or> ch \<in> set (chans_of ws k))"
  proof (cases w)
    case (Wake d p)
    then have n: "ws_notify d p (y_ws y) = Some ws" using assms(2) by (simp add: wake_up_def)
    show ?thesis using ws_notify_keeps [OF ok n] by auto
  next
    case (FailAll er)
    then show ?thesis
      using assms(2) ws_failAll_ok [OF ok, of er] chans_of_registered [of "y_ws y"] by (auto simp: wake_up_def)
  qed
  then show ?thesis using assms(1) by (simp add: sys_ok_def sleeping_def caller_key_def)
qed

lemma sys_ok_step:
  assumes "sys_ok y" "wait_step y y'" shows "sys_ok y'"
  using assms(2)
proof (cases rule: wait_step.cases)
  case wakes
  then show ?thesis using sys_ok_wake [OF assms(1)] by simp
next
  case (register i w ch ws)
  then show ?thesis using sys_ok_register [OF assms(1)] by auto
next
  case (receive i w ch m ms)
  then show ?thesis
    using sys_ok_receive [OF assms(1), of i ch m ms "if m = None then AtCheck else Returned (Alert, [], m)"]
    by (auto simp: sleeping_def)
next
  case (call settle d p since)
  show ?thesis
    by (rule sys_ok_same [OF assms(1)])
      (auto simp: call sleeping_def caller_key_def nth_append split: if_splits)
next
  case (check i w)
  then show ?thesis using sys_ok_go_on [OF assms(1)] by (auto split: option.splits)
next
  case (deadline i w ch msg)
  then show ?thesis using sys_ok_go_on [OF assms(1)] by auto
next
  case (cancelled i w ch msg)
  then show ?thesis using sys_ok_go_on [OF assms(1)] by auto
qed (rule sys_ok_same [OF assms(1)]; auto simp: sleeping_def caller_key_def)+

lemma sys_ok_reach: "wait_reach y \<Longrightarrow> sys_ok y"
proof (induction rule: wait_reach.induct)
  case init
  show ?case by (simp add: sys_ok_def wait_init_def ws_ok_def registered_def sleeping_def)
next
  case (step y y')
  then show ?case using sys_ok_step by blast
qed


subsection \<open>What a wake reaches\<close>

definition concerns :: "wake \<Rightarrow> string \<Rightarrow> bool" where
  "concerns w key = (case w of Wake d p \<Rightarrow> key = wkey d p | FailAll _ \<Rightarrow> True)"

lemma wake_up_total:
  assumes "ws_ok ws"
  shows "\<exists>ws'. wake_up w ws = Some ws' \<and>
    (\<forall>k ch. concerns w k \<and> (ws_chan ws ch \<noteq> [] \<or> ch \<in> set (chans_of ws k)) \<longrightarrow> ws_chan ws' ch \<noteq> [])"
proof (cases w)
  case (Wake d p)
  then show ?thesis
    using ws_notify_ok [OF assms, of d p] by (auto simp: wake_up_def concerns_def)
next
  case (FailAll er)
  then show ?thesis
    using ws_failAll_ok [OF assms, of er] chans_of_registered [of ws] by (fastforce simp: wake_up_def concerns_def)
qed

text \<open>C10: In every reachable state the wake that the run loop owes goes through without blocking, and
  afterwards every caller asleep on what was woken has a message: a notification of a property reaches
  each caller asleep under it, and losing the child reaches every caller.\<close>

theorem wake_reaches_sleepers:
  assumes "wait_reach y" "y_pend y = Some w"
  shows "\<exists>ws. wake_up w (y_ws y) = Some ws \<and>
    (\<forall>i ch. sleeping y i ch \<and> concerns w (caller_key y i) \<longrightarrow> ws_chan ws ch \<noteq> [])"
proof -
  have ok: "sys_ok y" using assms(1) by (rule sys_ok_reach)
  then obtain ws where "wake_up w (y_ws y) = Some ws" and
    ws: "\<And>k ch. concerns w k \<Longrightarrow> ws_chan (y_ws y) ch \<noteq> [] \<or> ch \<in> set (chans_of (y_ws y) k) \<Longrightarrow> ws_chan ws ch \<noteq> []"
    using wake_up_total [of "y_ws y" w] by (auto simp: sys_ok_def)
  moreover have "ws_chan ws ch \<noteq> []" if "sleeping y i ch" "concerns w (caller_key y i)" for i ch
    using ok that by (intro ws) (auto simp: sys_ok_def)
  ultimately show ?thesis by blast
qed

text \<open>A run in which a property is defined Busy, a caller waits for it, and it settles. The element
  that settles it is published either while the caller sleeps or between its check and its
  registration.\<close>

definition lamp :: "Kind \<Rightarrow> State \<Rightarrow> Element" where
  "lamp k s = zero_element\<lparr>e_Kind := k, e_Device := ''D'', e_Name := ''P'', e_State := s\<rparr>"

definition lamp_busy :: Store where "lamp_busy = snd (Apply (lamp KindDef Busy) 1 NewStore)"
definition lamp_ok :: Store where "lamp_ok = snd (Apply (lamp KindSet Ok) 2 lamp_busy)"

definition lamp_waiter :: "wait_pc \<Rightarrow> waiter" where
  "lamp_waiter pc = \<lparr>wt_settle = True, wt_device = ''D'', wt_prop = ''P'', wt_since = 0, wt_pc = pc\<rparr>"

lemma lamp_applied:
  "Apply (lamp KindDef Busy) 1 NewStore = (True, lamp_busy)" "Apply (lamp KindSet Ok) 2 lamp_busy = (True, lamp_ok)"
proof -
  have "fst (Apply (lamp KindDef Busy) 1 NewStore)" "fst (Apply (lamp KindSet Ok) 2 lamp_busy)" by code_simp+
  then show "Apply (lamp KindDef Busy) 1 NewStore = (True, lamp_busy)" "Apply (lamp KindSet Ok) 2 lamp_busy = (True, lamp_ok)"
    by (simp_all add: lamp_busy_def lamp_ok_def prod_eq_iff)
qed

lemma lamp_checks:
  "wait_check True r (st_cur lamp_busy) ''D'' ''P'' 0 = None"
  "wait_check True r (st_cur lamp_ok) ''D'' ''P'' 0 = Some (Ok, [], None)"
proof -
  have "s_valid (st_cur lamp_busy)" "s_valid (st_cur lamp_ok)"
    "map_option (\<lambda>v. (v_State v, v_Message v, v_Updated v)) (Snapshot_Vector (st_cur lamp_busy) ''D'' ''P'') = Some (Busy, [], 1)"
    "map_option (\<lambda>v. (v_State v, v_Message v, v_Updated v)) (Snapshot_Vector (st_cur lamp_ok) ''D'' ''P'') = Some (Ok, [], 2)"
    by code_simp+
  then show "wait_check True r (st_cur lamp_busy) ''D'' ''P'' 0 = None"
    "wait_check True r (st_cur lamp_ok) ''D'' ''P'' 0 = Some (Ok, [], None)"
    by (auto simp: wait_check_def)
qed

definition lamp_sys :: "Store \<Rightarrow> waiters \<Rightarrow> wake option \<Rightarrow> wait_pc \<Rightarrow> WaitSys" where
  "lamp_sys st ws pend pc = \<lparr>y_store = st, y_reason = ''not started'', y_ws = ws, y_pend = pend, y_callers = [lamp_waiter pc]\<rparr>"

definition no_waiters :: waiters where "no_waiters = y_ws wait_init"
definition one_waiter :: waiters where "one_waiter = snd (ws_register ''D'' ''P'' no_waiters)"

lemma lamp_registers: "ws_register ''D'' ''P'' no_waiters = (0, one_waiter)"
  by (simp add: one_waiter_def no_waiters_def wait_init_def ws_register_def Let_def)

lemma lamp_reach_register: "wait_reach (lamp_sys lamp_busy no_waiters None AtRegister)"
proof -
  let ?y0 = "wait_init\<lparr>y_store := lamp_busy, y_pend := Some (Wake ''D'' ''P'')\<rparr>"
  have 0: "wait_reach ?y0"
    using wait_reach.step [OF wait_reach.init wait_step.publish [of _ "lamp KindDef Busy" 1 True lamp_busy]] lamp_applied(1)
    by (simp add: wait_init_def lamp_def)
  have "wake_up (Wake ''D'' ''P'') no_waiters = Some no_waiters"
    by (simp add: wake_up_def ws_notify_def chans_of_def no_waiters_def wait_init_def Let_def)
  then have "wait_reach (wait_init\<lparr>y_store := lamp_busy\<rparr>)"
    using wait_reach.step [OF 0 wait_step.wakes [of ?y0 "Wake ''D'' ''P''" no_waiters]]
    by (simp add: no_waiters_def wait_init_def)
  then have "wait_reach (lamp_sys lamp_busy no_waiters None AtCheck)"
    using wait_reach.step [OF _ wait_step.call [of _ True "''D''" "''P''" 0]]
    by (fastforce simp: lamp_sys_def lamp_waiter_def no_waiters_def wait_init_def)
  then show ?thesis
    using wait_reach.step [OF _ wait_step.check [of 0 "lamp_sys lamp_busy no_waiters None AtCheck" "lamp_waiter AtCheck"]]
    by (simp add: lamp_sys_def lamp_waiter_def go_on_def lamp_checks)
qed

lemma lamp_reach_asleep: "wait_reach (lamp_sys lamp_busy one_waiter None (AtSelect 0))"
  using wait_reach.step [OF lamp_reach_register wait_step.register [of 0 _ "lamp_waiter AtRegister" 0 one_waiter]] lamp_registers
  by (simp add: lamp_sys_def lamp_waiter_def go_on_def)

lemma lamp_reach_settled: "wait_reach (lamp_sys lamp_ok one_waiter (Some (Wake ''D'' ''P'')) (AtSelect 0))"
  using wait_reach.step [OF lamp_reach_asleep wait_step.publish [of _ "lamp KindSet Ok" 2 True lamp_ok]] lamp_applied(2)
  by (simp add: lamp_sys_def lamp_def)

theorem wake_reaches_sleepers_witness:
  "\<exists>ws. wake_up (Wake ''D'' ''P'') one_waiter = Some ws \<and> ws_chan ws 0 \<noteq> []"
  using wake_reaches_sleepers [OF lamp_reach_settled, of "Wake ''D'' ''P''"]
  by (fastforce simp: lamp_sys_def sleeping_def lamp_waiter_def concerns_def caller_key_def)

lemma lamp_reach_lost: "wait_reach (lamp_sys lamp_ok one_waiter None (AtSelect 0))"
proof -
  have 1: "wait_reach (lamp_sys lamp_ok no_waiters (Some (Wake ''D'' ''P'')) AtRegister)"
    using wait_reach.step [OF lamp_reach_register wait_step.publish [of _ "lamp KindSet Ok" 2 True lamp_ok]] lamp_applied(2)
    by (simp add: lamp_sys_def lamp_def)
  have "wake_up (Wake ''D'' ''P'') no_waiters = Some no_waiters"
    by (simp add: wake_up_def ws_notify_def chans_of_def no_waiters_def wait_init_def Let_def)
  then have 2: "wait_reach (lamp_sys lamp_ok no_waiters None AtRegister)"
    using wait_reach.step [OF 1 wait_step.wakes [of _ "Wake ''D'' ''P''" no_waiters]] by (simp add: lamp_sys_def)
  show ?thesis
    using wait_reach.step [OF 2 wait_step.register [of 0 _ "lamp_waiter AtRegister" 0 one_waiter]] lamp_registers
    by (simp add: lamp_sys_def lamp_waiter_def go_on_def)
qed

text \<open>C22: The registration does not look at the snapshot again, so a wake can be lost: there is a
  reachable state with nothing left for the run loop to do, in which a caller sleeps on an empty channel
  although the property it waits for has settled and its check would return at once. Unless the
  driver sends the property again, that caller returns only at its deadline, with an error.\<close>

theorem wake_can_be_lost:
  "\<exists>y ch. wait_reach y \<and> y_pend y = None \<and> sleeping y 0 ch \<and> ws_chan (y_ws y) ch = [] \<and>
     wait_check (wt_settle (y_callers y ! 0)) (y_reason y) (st_cur (y_store y)) (wt_device (y_callers y ! 0))
       (wt_prop (y_callers y ! 0)) (wt_since (y_callers y ! 0)) = Some (Ok, [], None)"
  by (intro exI [of _ "lamp_sys lamp_ok one_waiter None (AtSelect 0)"] exI [of _ 0])
    (use lamp_reach_lost in \<open>simp add: lamp_checks sleeping_def lamp_sys_def lamp_waiter_def one_waiter_def no_waiters_def
       wait_init_def ws_register_def Let_def\<close>)

end
