(* ===== verification/Go_Convert.thy ===== *)
theory Go_Convert
  imports Float_Roundtrip
begin

text \<open>
  Conversions between \<^verbatim>\<open>int\<close> and \<^verbatim>\<open>float64\<close> and the float operations the device types use.

  The conversion \<^verbatim>\<open>int(f)\<close> truncates toward zero. The Go specification leaves it
  implementation-dependent when the value does not fit; \<open>f_int\<close> is what the compiler emits on
  amd64, the smallest integer.
\<close>

definition trunc :: "rat \<Rightarrow> int" where
  "trunc q = (if 0 \<le> q then \<lfloor>q\<rfloor> else \<lceil>q\<rceil>)"

definition fits64 :: "int \<Rightarrow> bool" where
  "fits64 n \<longleftrightarrow> - (2 ^ 63) \<le> n \<and> n < 2 ^ 63"

fun f_int :: "f64 \<Rightarrow> int" where
  "f_int (Fin q) = (if fits64 (trunc q) then trunc q else - (2 ^ 63))"
| "f_int _ = - (2 ^ 63)"

definition f_of_int :: "int \<Rightarrow> f64" where
  "f_of_int n = rnd (of_int n)"

definition f_sub :: "f64 \<Rightarrow> f64 \<Rightarrow> f64" where
  "f_sub a b = f_add a (f_neg b)"

definition f_le :: "f64 \<Rightarrow> f64 \<Rightarrow> bool" where
  "f_le a b \<longleftrightarrow> f_lt a b \<or> (a = b \<and> a \<noteq> NaN)"

text \<open>\<^verbatim>\<open>==\<close> on floats: NaN differs from itself.\<close>

definition f_eq :: "f64 \<Rightarrow> f64 \<Rightarrow> bool" where
  "f_eq a b \<longleftrightarrow> a = b \<and> a \<noteq> NaN"

text \<open>\<^verbatim>\<open>math.Mod\<close> with a positive constant: exact, with the sign of the dividend.\<close>

fun f_modc :: "f64 \<Rightarrow> rat \<Rightarrow> f64" where
  "f_modc (Fin a) c = Fin (a - c * of_int (trunc (a / c)))"
| "f_modc _ _ = NaN"

text \<open>Multiplication by a constant.\<close>

fun f_mulc :: "f64 \<Rightarrow> rat \<Rightarrow> f64" where
  "f_mulc (Fin a) c = rnd (a * c)"
| "f_mulc (FInf s) c = (if c = 0 then NaN else FInf (s \<noteq> (c < 0)))"
| "f_mulc NaN _ = NaN"

text \<open>Multiplication and division. The two zeros being one, a quotient by zero has the sign of the
  dividend.\<close>

fun f_mul :: "f64 \<Rightarrow> f64 \<Rightarrow> f64" where
  "f_mul (Fin a) (Fin b) = rnd (a * b)"
| "f_mul (FInf s) (FInf t) = FInf (s \<noteq> t)"
| "f_mul (FInf s) (Fin b) = (if b = 0 then NaN else FInf (s \<noteq> (b < 0)))"
| "f_mul (Fin a) (FInf t) = (if a = 0 then NaN else FInf (t \<noteq> (a < 0)))"
| "f_mul _ _ = NaN"

fun f_div :: "f64 \<Rightarrow> f64 \<Rightarrow> f64" where
  "f_div (Fin a) (Fin b) = (if b = 0 then if a = 0 then NaN else FInf (a < 0) else rnd (a / b))"
| "f_div (FInf s) (Fin b) = FInf (s \<noteq> (b < 0))"
| "f_div (Fin a) (FInf t) = Fin 0"
| "f_div _ _ = NaN"

text \<open>The quotient of integers is truncated towards zero.\<close>

definition go_quot :: "int \<Rightarrow> int \<Rightarrow> int" where
  "go_quot a b = trunc (of_int a / of_int b)"

definition Atoi :: "string \<Rightarrow> int option" where
  "Atoi s = (case strip_sign s of (neg, t) \<Rightarrow>
     let n = (if neg then - int (val10 t) else int (val10 t)) in
     if t \<noteq> [] \<and> list_all is_digit t \<and> fits64 n then Some n else None)"

subsection \<open>Exact integers\<close>

lemma ilog2_less:
  assumes "0 < q" "q < 2 powi n" shows "ilog 2 q < n"
proof (rule ccontr)
  assume "\<not> ilog 2 q < n"
  then have "(2 :: rat) powi n \<le> 2 powi ilog 2 q" by (simp add: power_int_increasing)
  then show False using ilog2_bounds [OF assms(1)] assms(2) by linarith
qed

lemma ulp_exp_le:
  assumes "0 < q" "q < 2 ^ n" "n \<le> 53" shows "ulp_exp q \<le> int n - 53"
  using ilog2_less [OF assms(1), of "int n"] assms by (simp add: ulp_exp_def)

lemma rnd_of_int:
  assumes "\<bar>n\<bar> < 2 ^ 53" shows "rnd (of_int n) = Fin (of_int n)"
proof -
  have pos: "rnd (of_int m) = Fin (of_int m)" if m: "0 < m" "m < 2 ^ 53" for m :: int
  proof -
    define u where "u = ulp_exp (of_int m)"
    have "(of_int m :: rat) < of_int (2 ^ 53)" using m by (simp only: of_int_less_iff)
    then have mq: "(of_int m :: rat) < 2 ^ 53" by simp
    have u: "u \<le> 0" using ulp_exp_le [of "of_int m" 53] m mq by (simp add: u_def)
    have "of_int m / 2 powi u = (of_int (m * 2 ^ nat (- u)) :: rat)"
      using u by (simp add: power_int_def field_simps)
    then have "rne (of_int m / 2 powi u) = m * 2 ^ nat (- u)" by (simp only: rne_of_int)
    then have "of_int (rne (of_int m / 2 powi u)) * 2 powi u = (of_int m :: rat)"
      using u by (simp add: power_int_def field_simps)
    moreover have "\<not> f64_limit \<le> of_int m"
    proof -
      have "(2 :: rat) ^ 53 < f64_limit" by (simp add: f64_limit_def)
      then show ?thesis using mq by linarith
    qed
    ultimately show ?thesis using m by (simp add: rnd_def Let_def u_def)
  qed
  consider "n = 0" | "0 < n" | "n < 0" by linarith
  then show ?thesis
  proof cases
    case 3
    then have "rnd (of_int (- n)) = Fin (of_int (- n))" using assms by (intro pos) auto
    then show ?thesis using rnd_minus [of "of_int (- n)"] by simp
  qed (use pos assms in auto)
qed

lemma trunc_of_int [simp]: "trunc (of_int n) = n"
  by (simp add: trunc_def)

lemma f_int_of_int: "fits64 n \<Longrightarrow> f_int (Fin (of_int n)) = n"
  by simp

lemma rnd_upto:
  assumes "0 \<le> q" "q \<le> of_int n" "0 < n" "n < 2 ^ 53"
  shows "\<exists>r. rnd q = Fin r \<and> 0 \<le> r \<and> r \<le> of_int n"
proof (cases "q = 0")
  case True
  then show ?thesis using assms by (intro exI [of _ 0]) simp
next
  case False
  then have q: "0 < q" using assms by simp
  define u where "u = ulp_exp q"
  define m where "m = rne (q / 2 powi u)"
  have q53: "q < 2 ^ 53"
  proof -
    have "(of_int n :: rat) < of_int (2 ^ 53)" using assms by (simp only: of_int_less_iff)
    then show ?thesis using assms by simp
  qed
  have u: "u \<le> 0" using ulp_exp_le [OF q q53] by (simp add: u_def)
  have "q / 2 powi u \<le> of_int n / 2 powi u"
    using assms(2) by (simp add: divide_right_mono)
  also have "\<dots> = of_int (n * 2 ^ nat (- u))"
    using u by (simp add: power_int_def field_simps)
  finally have "m \<le> n * 2 ^ nat (- u)" unfolding m_def by (rule rne_le_int)
  then have "of_int m \<le> (of_int (n * 2 ^ nat (- u)) :: rat)" by (simp only: of_int_le_iff)
  then have "of_int m * 2 powi u \<le> of_int (n * 2 ^ nat (- u)) * (2 :: rat) powi u"
    by (rule mult_right_mono) simp
  also have "\<dots> = of_int n" using u by (simp add: power_int_def field_simps)
  finally have le: "of_int m * 2 powi u \<le> (of_int n :: rat)" .
  have "0 \<le> m" unfolding m_def using q by (intro rne_mono_int) simp
  moreover have "\<not> f64_limit \<le> \<bar>of_int m * 2 powi u\<bar>"
  proof -
    have "(of_int n :: rat) < of_int (2 ^ 53)" using assms by (simp only: of_int_less_iff)
    moreover have "(2 :: rat) ^ 53 < f64_limit" by (simp add: f64_limit_def)
    ultimately have "(of_int n :: rat) < f64_limit" by simp
    then show ?thesis using le \<open>0 \<le> m\<close> by (simp add: abs_mult)
  qed
  ultimately show ?thesis
    using q le by (intro exI [of _ "of_int m * 2 powi u"]) (simp add: rnd_def Let_def u_def m_def)
qed

subsection \<open>Reading whole numbers\<close>

lemma rnd_pow2:
  assumes "n < 1024" shows "rnd (2 ^ n) = Fin (2 ^ n)"
proof -
  have "ilog 2 (2 ^ n) = int n" by (rule ilog_unique) (simp_all add: power_int_def)
  then have u: "ulp_exp (2 ^ n) = int n - 52" by (simp add: ulp_exp_def)
  have m: "(2 :: rat) ^ n / 2 powi (int n - 52) = of_int (2 ^ 52)"
    by (simp add: power_int_diff)
  have "(2 :: rat) ^ 52 * 2 powi (int n - 52) = 2 ^ n" by (simp add: power_int_diff)
  moreover have "\<not> f64_limit \<le> 2 ^ n"
    using assms power_strict_increasing [of n 1024 "2 :: rat"] by (simp only: f64_limit_def not_le)
  ultimately show ?thesis by (simp only: rnd_def u m rne_of_int Let_def power_abs abs_numeral) simp
qed

lemma ParseFloat_digits:
  assumes "digits ds" "ds \<noteq> []"
  shows "ParseFloat ds = (case rnd (of_nat (val10 ds)) of Fin r \<Rightarrow> (Fin r, True) | v \<Rightarrow> (v, False))"
proof -
  have p: "plain_number ds" using plain_mant_text [of ds "[]" "[]"] assms by (simp add: mant_text_def)
  have "readFloat ds = Some (of_nat (val10 ds))"
    using readFloat_plain [of ds False ds "val10 ds" 0 "[]" 0] p scan_mant_text [of ds "[]" "[]"] assms
    by (simp add: mant_text_def)
  then show ?thesis using special_plain [OF p] by (simp add: ParseFloat_def)
qed

end
