(* ===== verification/Image_Path.thy ===== *)
theory Image_Path
  imports Wire_Blob Go_Convert "HOL-Library.Word"
begin

unbundle bit_operations_syntax

text \<open>
  The image path (\<^verbatim>\<open>internal/imagepath\<close>): \<^verbatim>\<open>ParseHeader\<close> reads the cards of a FITS header and
  \<^verbatim>\<open>Transcode\<close> turns the frame behind it into the row-major little-endian pixels of an Alpaca image.

  Go's \<^verbatim>\<open>int\<close> is 64 bits wide and its products wrap (\<^const>\<open>wrap64\<close>); a slice expression out of
  bounds panics, which is a result of its own. \<open>spare\<close> stands for the bytes of the backing array
  behind the slice \<open>fits\<close>: slicing may reach into them. The enumeration of element types is the one
  of the Alpaca library.
\<close>

subsection \<open>Headers\<close>

definition blockSize :: nat where "blockSize = 2880"
definition cardSize :: nat where "cardSize = 80"

record Header =
  h_Bitpix :: int
  h_Naxis :: int
  h_Axes :: "int list"
  h_BZero :: f64
  h_BScale :: f64
  h_RowOrder :: string
  h_BayerPat :: string
  h_DataOffset :: nat

datatype img_error =
    NoSimple
  | NoEndCard nat
  | NaxisUnsupported int
  | BadDimensions int int
  | BscaleUnsupported f64
  | BitpixUnsupported int
  | TruncatedData nat int
  | BzeroUnsupported f64 int

definition atoi :: "string \<Rightarrow> int" where
  "atoi s = (case ParseFloat s of (f, ok) \<Rightarrow> if ok then f_int f else 0)"

definition unquote :: "string \<Rightarrow> string" where
  "unquote s0 =
     (let s = TrimSpace s0 in
      if length s < 2 \<or> hd s \<noteq> SQUOTE then s
      else TrimRight1 (takeWhile (\<lambda>c. c \<noteq> SQUOTE) (tl s)) (CHR '' ''))"

text \<open>The key of a card, and its value without the comment.\<close>

definition card_key :: "string \<Rightarrow> string" where
  "card_key cd = TrimRight1 (take 8 cd) (CHR '' '')"

definition card_value :: "string \<Rightarrow> string" where
  "card_value cd =
     (let v = drop 10 cd in
      TrimSpace (if HasPrefix (TrimSpace v) [SQUOTE] then v else takeWhile (\<lambda>c. c \<noteq> CHR ''/'') v))"

definition read_field :: "string \<Rightarrow> string \<Rightarrow> Header \<Rightarrow> Header" where
  "read_field key v h =
     (if key = ''BITPIX'' then h\<lparr>h_Bitpix := atoi v\<rparr>
      else if key = ''NAXIS'' then h\<lparr>h_Naxis := atoi v\<rparr>
      else if key = ''NAXIS1'' then h\<lparr>h_Axes := (h_Axes h)[0 := atoi v]\<rparr>
      else if key = ''NAXIS2'' then h\<lparr>h_Axes := (h_Axes h)[1 := atoi v]\<rparr>
      else if key = ''NAXIS3'' then h\<lparr>h_Axes := (h_Axes h)[2 := atoi v]\<rparr>
      else if key = ''BZERO'' then h\<lparr>h_BZero := fst (ParseFloat v)\<rparr>
      else if key = ''BSCALE'' then h\<lparr>h_BScale := fst (ParseFloat v)\<rparr>
      else if key = ''ROWORDER'' then h\<lparr>h_RowOrder := ToUpper (unquote v)\<rparr>
      else if key = ''BAYERPAT'' then h\<lparr>h_BayerPat := ToUpper (unquote v)\<rparr>
      else h)"

definition read_card :: "string \<Rightarrow> Header \<Rightarrow> Header" where
  "read_card cd h = (if cd ! 8 \<noteq> CHR ''='' then h else read_field (card_key cd) (card_value cd) h)"

text \<open>The loop over the cards; \<open>s\<close> is the header from \<open>off\<close> on.\<close>

function cards :: "nat \<Rightarrow> nat \<Rightarrow> string \<Rightarrow> Header \<Rightarrow> Header \<times> img_error option" where
  "cards tot off s h =
     (if length s < cardSize then (h, Some (NoEndCard tot))
      else if card_key (take cardSize s) = ''END'' then
        (h\<lparr>h_DataOffset := (off + cardSize + blockSize - 1) div blockSize * blockSize\<rparr>, None)
      else cards tot (off + cardSize) (drop cardSize s) (read_card (take cardSize s) h))"
  by pat_completeness auto
termination
  by (relation "measure (\<lambda>(tot, off, s, h). length s)") (auto simp: cardSize_def)

declare cards.simps [simp del]

definition new_header :: Header where
  "new_header = \<lparr>h_Bitpix = 0, h_Naxis = 0, h_Axes = [0, 0, 0], h_BZero = Fin 0, h_BScale = Fin 1,
     h_RowOrder = [], h_BayerPat = [], h_DataOffset = 0\<rparr>"

definition ParseHeader :: "string \<Rightarrow> Header \<times> img_error option" where
  "ParseHeader fits =
     (if length fits < cardSize \<or> \<not> HasPrefix (take 8 fits) ''SIMPLE'' then (new_header, Some NoSimple)
      else cards (length fits) 0 fits new_header)"

subsection \<open>Pixels\<close>

definition of_byte :: "char \<Rightarrow> 'w::len word" where
  "of_byte c = word_of_nat (of_char c)"

definition to_byte :: "'w::len word \<Rightarrow> char" where
  "to_byte w = char_of (unat w)"

definition BigEndian_Uint16 :: "char \<Rightarrow> char \<Rightarrow> 16 word" where
  "BigEndian_Uint16 a b = of_byte b OR push_bit 8 (of_byte a)"

definition LittleEndian_Put16 :: "16 word \<Rightarrow> string" where
  "LittleEndian_Put16 v = [to_byte v, to_byte (drop_bit 8 v)]"

definition BigEndian_Uint32 :: "char \<Rightarrow> char \<Rightarrow> char \<Rightarrow> char \<Rightarrow> 32 word" where
  "BigEndian_Uint32 a b c d = ((of_byte d OR push_bit 8 (of_byte c)) OR push_bit 16 (of_byte b)) OR push_bit 24 (of_byte a)"

definition LittleEndian_Put32 :: "32 word \<Rightarrow> string" where
  "LittleEndian_Put32 v = [to_byte v, to_byte (drop_bit 8 v), to_byte (drop_bit 16 v), to_byte (drop_bit 24 v)]"

text \<open>The loops over one row. The row has a multiple of the element size in bytes.\<close>

fun row16 :: "32 word \<Rightarrow> string \<Rightarrow> string" where
  "row16 xr (a # b # s) = LittleEndian_Put16 (BigEndian_Uint16 a b XOR ucast xr) @ row16 xr s"
| "row16 xr _ = []"

fun row32 :: "32 word \<Rightarrow> string \<Rightarrow> string" where
  "row32 xr (a # b # c # d # s) = LittleEndian_Put32 (BigEndian_Uint32 a b c d XOR xr) @ row32 xr s"
| "row32 xr _ = []"

definition convert_row :: "int \<Rightarrow> 32 word \<Rightarrow> string \<Rightarrow> string" where
  "convert_row es xr s = (if es = 1 then s else if es = 2 then row16 xr s else if es = 4 then row32 xr s else [])"

text \<open>A slice of an array that has \<open>cap\<close> elements: \<^const>\<open>None\<close> is the panic.\<close>

definition slice :: "string \<Rightarrow> int \<Rightarrow> int \<Rightarrow> string option" where
  "slice xs lo hi = (if 0 \<le> lo \<and> lo \<le> hi \<and> hi \<le> int (length xs) then Some (take (nat (hi - lo)) (drop (nat lo) xs)) else None)"

definition overwrite :: "string \<Rightarrow> int \<Rightarrow> string \<Rightarrow> string" where
  "overwrite xs lo ys = take (nat lo) xs @ ys @ drop (nat lo + length ys) xs"

text \<open>The loop over the rows, from row \<open>y\<close> on.\<close>

function convert_rows :: "bool \<Rightarrow> int \<Rightarrow> 32 word \<Rightarrow> int \<Rightarrow> int \<Rightarrow> string \<Rightarrow> int \<Rightarrow> string \<Rightarrow> string option" where
  "convert_rows flip es xr row ht src y out =
     (if ht \<le> y then Some out
      else let sy = (if flip then ht - 1 - y else y) in
        (case slice src (wrap64 (sy * row)) (wrap64 (wrap64 (sy * row) + row)) of None \<Rightarrow> None
         | Some s \<Rightarrow>
            (case slice out (wrap64 (y * row)) (wrap64 (wrap64 (y * row) + row)) of None \<Rightarrow> None
             | Some _ \<Rightarrow> convert_rows flip es xr row ht src (y + 1)
                 (overwrite out (wrap64 (y * row)) (convert_row es xr s)))))"
  by pat_completeness auto
termination
  by (relation "measure (\<lambda>(flip, es, xr, row, ht, src, y, out). nat (ht - y))") auto

declare convert_rows.simps [simp del]

datatype ImageElementType = ImgByte | ImgInt16 | ImgInt32 | ImgUInt16 | ImgUInt32

record ImageFrame =
  f_Rank :: int
  f_Width :: int
  f_Height :: int
  f_ElementType :: ImageElementType
  f_TransmissionElementType :: ImageElementType
  f_Pixels :: string

datatype transcoded = Panics | Failed img_error Header | Decoded ImageFrame Header

text \<open>The element types and the sign-bit flip for a depth and an offset.\<close>

definition pixel_types :: "int \<Rightarrow> f64 \<Rightarrow> (ImageElementType \<times> ImageElementType \<times> 32 word) option" where
  "pixel_types bitpix bzero =
     (if bitpix = 8 \<and> f_eq bzero (Fin 0) then Some (ImgInt32, ImgByte, 0)
      else if bitpix = 16 \<and> f_eq bzero (Fin 0) then Some (ImgInt32, ImgInt16, 0)
      else if bitpix = 16 \<and> f_eq bzero (Fin 32768) then Some (ImgInt32, ImgUInt16, 0x8000)
      else if bitpix = 32 \<and> f_eq bzero (Fin 0) then Some (ImgInt32, ImgInt32, 0)
      else if bitpix = 32 \<and> f_eq bzero (Fin 2147483648) then Some (ImgUInt32, ImgUInt32, 0x80000000)
      else None)"

text \<open>The most a slice of bytes can hold: \<^verbatim>\<open>make\<close> panics beyond it.\<close>

definition make_bytes :: "int \<Rightarrow> string option" where
  "make_bytes n = (if n < 0 \<or> maxAlloc < n then None else Some (replicate (nat n) NUL))"

text \<open>The second half of \<^verbatim>\<open>Transcode\<close>, once the header is accepted.\<close>

definition transcode_data :: "string \<Rightarrow> string \<Rightarrow> Header \<Rightarrow> int \<Rightarrow> int \<Rightarrow> int \<Rightarrow> transcoded" where
  "transcode_data spare fits h w ht es =
     (let size = wrap64 (wrap64 (w * ht) * es); need = wrap64 (int (h_DataOffset h) + size) in
      if int (length fits) < need then Failed (TruncatedData (length fits) need) h
      else (case pixel_types (h_Bitpix h) (h_BZero h) of
          None \<Rightarrow> Failed (BzeroUnsupported (h_BZero h) (h_Bitpix h)) h
        | Some (elem, tx, xr) \<Rightarrow>
            (case slice (fits @ spare) (int (h_DataOffset h)) need of None \<Rightarrow> Panics
             | Some _ \<Rightarrow>
                (case make_bytes size of None \<Rightarrow> Panics
                 | Some out \<Rightarrow>
                    (case convert_rows (h_RowOrder h = ''BOTTOM-UP'') es xr (wrap64 (w * es)) ht
                        (drop (h_DataOffset h) (fits @ spare)) 0 out of
                       None \<Rightarrow> Panics
                     | Some pixels \<Rightarrow> Decoded \<lparr>f_Rank = 2, f_Width = w, f_Height = ht, f_ElementType = elem,
                         f_TransmissionElementType = tx, f_Pixels = pixels\<rparr> h)))))"

definition Transcode :: "string \<Rightarrow> string \<Rightarrow> transcoded" where
  "Transcode spare fits =
     (case ParseHeader fits of (h, Some e) \<Rightarrow> Failed e h
      | (h, None) \<Rightarrow>
          let w = h_Axes h ! 0; ht = h_Axes h ! 1 in
          if h_Naxis h \<noteq> 2 then Failed (NaxisUnsupported (h_Naxis h)) h
          else if w \<le> 0 \<or> ht \<le> 0 then Failed (BadDimensions w ht) h
          else if \<not> f_eq (h_BScale h) (Fin 1) then Failed (BscaleUnsupported (h_BScale h)) h
          else if h_Bitpix h \<noteq> 8 \<and> h_Bitpix h \<noteq> 16 \<and> h_Bitpix h \<noteq> 32 then Failed (BitpixUnsupported (h_Bitpix h)) h
          else transcode_data spare fits h w ht (h_Bitpix h div 8))"

subsection \<open>Bytes of a number\<close>

fun le_value :: "string \<Rightarrow> nat" where
  "le_value [] = 0"
| "le_value (c # s) = of_char c + 256 * le_value s"

definition be_value :: "string \<Rightarrow> nat" where
  "be_value s = le_value (rev s)"

definition signed :: "nat \<Rightarrow> nat \<Rightarrow> int" where
  "signed n v = (if v < 2 ^ (n - 1) then int v else int v - 2 ^ n)"

lemma of_char_less: "(of_char c :: nat) < 256"
  by (metis of_char_mod_256 mod_less_divisor zero_less_numeral)

lemma le_value_less: "le_value s < 256 ^ length s"
proof (induction s)
  case (Cons c s)
  have "of_char c + 256 * le_value s < 256 * Suc (le_value s)" using of_char_less [of c] by simp
  also have "\<dots> \<le> 256 * 256 ^ length s" using Cons by (intro mult_le_mono2) simp
  finally show ?case by simp
qed simp

lemma unat_of_byte: "LENGTH('w::len) \<ge> 8 \<Longrightarrow> unat (of_byte c :: 'w word) = of_char c"
proof -
  assume "LENGTH('w) \<ge> 8"
  then have "(2::nat) ^ 8 \<le> 2 ^ LENGTH('w)" by (rule power_increasing) simp
  then have "of_char c < (2::nat) ^ LENGTH('w)" by (intro less_le_trans [OF of_char_less]) simp
  then show ?thesis by (simp add: of_byte_def unat_of_nat)
qed

lemma or_shift: "a < 2 ^ n \<Longrightarrow> (a :: nat) OR push_bit n b = a + 2 ^ n * b"
proof -
  assume "a < 2 ^ n"
  then have a: "a = take_bit n a" by (simp add: take_bit_nat_eq_self)
  have "a AND push_bit n b = 0"
    by (subst a, rule bit_eqI) (simp add: bit_simps)
  then show ?thesis by (simp flip: disjunctive_add_eq_or add: push_bit_eq_mult)
qed

lemma unat_BigEndian16: "unat (BigEndian_Uint16 a b) = be_value [a, b]"
proof -
  have "take_bit 16 (push_bit 8 (of_char a :: nat)) = push_bit 8 (of_char a)"
    using of_char_less [of a] by (intro take_bit_nat_eq_self) (simp add: push_bit_eq_mult)
  then show ?thesis
    using or_shift [of "of_char b" 8 "of_char a"] of_char_less [of b]
    by (simp add: BigEndian_Uint16_def unsigned_or_eq unsigned_push_bit_eq unat_of_byte be_value_def)
qed

lemma unat_BigEndian32: "unat (BigEndian_Uint32 a b c d) = be_value [a, b, c, d]"
proof -
  have t: "take_bit 32 (push_bit k (of_char x :: nat)) = push_bit k (of_char x)" if "k \<le> 24" for k x
  proof (rule take_bit_nat_eq_self)
    have "(of_char x :: nat) * 2 ^ k < 256 * 2 ^ k" using of_char_less [of x] by simp
    also have "\<dots> \<le> 256 * 2 ^ 24" using that by (intro mult_le_mono2 power_increasing) auto
    finally show "push_bit k (of_char x :: nat) < 2 ^ 32" by (simp add: push_bit_eq_mult)
  qed
  note l = of_char_less [of a] of_char_less [of b] of_char_less [of c] of_char_less [of d]
  have 1: "(of_char d :: nat) OR push_bit 8 (of_char c) = of_char d + 256 * of_char c"
    using or_shift [of "of_char d" 8 "of_char c"] l by simp
  have 2: "(of_char d + 256 * of_char c :: nat) OR push_bit 16 (of_char b) = of_char d + 256 * of_char c + 65536 * of_char b"
    using or_shift [of "of_char d + 256 * of_char c" 16 "of_char b"] l by simp
  have 3: "(of_char d + 256 * of_char c + 65536 * of_char b :: nat) OR push_bit 24 (of_char a) =
      of_char d + 256 * of_char c + 65536 * of_char b + 16777216 * of_char a"
    using or_shift [of "of_char d + 256 * of_char c + 65536 * of_char b" 24 "of_char a"] l by simp
  show ?thesis
    by (simp add: BigEndian_Uint32_def unsigned_or_eq unsigned_push_bit_eq unat_of_byte be_value_def t 1 2 3)
qed

lemma of_char_to_byte: "of_char (to_byte w) = unat w mod 256"
  by (simp add: to_byte_def)

lemma unat_drop: "unat (drop_bit k v) = unat v div 2 ^ k"
  by (subst unat_drop_bit_eq) (simp add: drop_bit_eq_div)

lemma le_LittleEndian16: "le_value (LittleEndian_Put16 v) = unat v"
proof -
  have "unat v < 2 ^ 16" using unsigned_less [of v] by simp
  then show ?thesis
    by (simp add: LittleEndian_Put16_def of_char_to_byte unat_drop)
qed

lemma le_LittleEndian32: "le_value (LittleEndian_Put32 v) = unat v"
proof -
  have v: "unat v < 2 ^ 32" using unsigned_less [of v] by simp
  define q where "q = unat v div 256 div 256 div 256"
  have "q < 256" using v unfolding q_def by (simp add: less_mult_imp_div_less)
  then have "unat v mod 256 + 256 * (unat v div 256 mod 256 + 256 * (unat v div 256 div 256 mod 256 + 256 * q)) = unat v" "q mod 256 = q"
    by (simp_all add: q_def)
  then show ?thesis
    by (simp add: LittleEndian_Put32_def of_char_to_byte unat_drop q_def flip: div_mult2_eq)
qed

text \<open>Flipping the sign bit of a two's complement number adds half the range to it.\<close>

lemma xor_top_bit:
  assumes "v < 2 ^ Suc n" shows "int (v XOR 2 ^ n) = signed (Suc n) v + 2 ^ n"
proof -
  have "int (v XOR 2 ^ n) = flip_bit n (int v)"
    by (simp add: flip_bit_eq_xor of_nat_xor_eq push_bit_eq_mult)
  then have x: "int (v XOR 2 ^ n) = (if bit v n then int v - 2 ^ n else int v + 2 ^ n)"
    by (simp add: flip_bit_eq_if set_bit_eq unset_bit_eq bit_of_nat_iff)
  have "v div 2 ^ n < 2" using assms by (simp add: less_mult_imp_div_less)
  moreover have "1 \<le> v div 2 ^ n \<longleftrightarrow> 2 ^ n \<le> v" by (simp add: less_eq_div_iff_mult_less_eq)
  ultimately have "bit v n \<longleftrightarrow> 2 ^ n \<le> v" by (cases "v div 2 ^ n = 1") (auto simp: bit_iff_odd)
  then show ?thesis
    using assms unfolding x by (simp add: signed_def)
qed

subsection \<open>Rows\<close>

text \<open>The \<open>i\<close>-th element of \<open>es\<close> bytes.\<close>

definition elem_at :: "nat \<Rightarrow> string \<Rightarrow> nat \<Rightarrow> string" where
  "elem_at es s i = take es (drop (es * i) s)"

lemma row16_elem:
  "length s = 2 * n \<Longrightarrow> length (row16 x s) = 2 * n \<and> (\<forall>i<n. elem_at 2 (row16 x s) i = row16 x (elem_at 2 s i))"
proof (induction n arbitrary: s)
  case (Suc n)
  obtain a b s' where s: "s = a # b # s'" "length s' = 2 * n"
    using Suc.prems by (auto simp: length_Suc_conv numeral_2_eq_2)
  show ?case
  proof (intro conjI allI impI)
    fix i assume "i < Suc n"
    then show "elem_at 2 (row16 x s) i = row16 x (elem_at 2 s i)"
      using Suc.IH [OF s(2)] by (cases i) (auto simp: s elem_at_def LittleEndian_Put16_def numeral_2_eq_2)
  qed (use Suc.IH [OF s(2)] in \<open>simp add: s LittleEndian_Put16_def\<close>)
qed simp

lemma row32_elem:
  "length s = 4 * n \<Longrightarrow> length (row32 x s) = 4 * n \<and> (\<forall>i<n. elem_at 4 (row32 x s) i = row32 x (elem_at 4 s i))"
proof (induction n arbitrary: s)
  case (Suc n)
  obtain a b c d s' where s: "s = a # b # c # d # s'" "length s' = 4 * n"
    using Suc.prems by (auto simp: length_Suc_conv eval_nat_numeral)
  show ?case
  proof (intro conjI allI impI)
    fix i assume "i < Suc n"
    then show "elem_at 4 (row32 x s) i = row32 x (elem_at 4 s i)"
      using Suc.IH [OF s(2)] by (cases i) (auto simp: s elem_at_def LittleEndian_Put32_def eval_nat_numeral)
  qed (use Suc.IH [OF s(2)] in \<open>simp add: s LittleEndian_Put32_def\<close>)
qed simp

lemma convert_row_elem:
  assumes "es \<in> {1, 2, 4}" "length s = es * n"
  shows "length (convert_row (int es) x s) = es * n"
    "i < n \<Longrightarrow> elem_at es (convert_row (int es) x s) i = convert_row (int es) x (elem_at es s i)"
  using assms row16_elem [of s n x] row32_elem [of s n x] by (auto simp: convert_row_def)

lemma slice_nat: "lo + n \<le> length xs \<Longrightarrow> slice xs (int lo) (int lo + int n) = Some (take n (drop lo xs))"
  by (simp add: slice_def)

lemma wrap64_nat: "n < 2 ^ 62 \<Longrightarrow> wrap64 (int n) = int n"
  by (rule wrap64_id) auto

definition source_row :: "bool \<Rightarrow> nat \<Rightarrow> nat \<Rightarrow> nat" where
  "source_row flip ht y = (if flip then ht - 1 - y else y)"

lemma convert_rows_ok:
  assumes conv: "\<And>s. length s = r \<Longrightarrow> length (convert_row es x s) = r"
    and "y \<le> ht" "length out = ht * r" "ht * r \<le> length src" "ht * r < 2 ^ 62"
  shows "convert_rows flip es x (int r) (int ht) src (int y) out =
    Some (take (y * r) out @ concat (map (\<lambda>j. convert_row es x (take r (drop (source_row flip ht j * r) src))) [y..<ht]))"
  using assms(2,3)
proof (induction "ht - y" arbitrary: y out)
  case 0
  then show ?case by (simp add: convert_rows.simps)
next
  case (Suc n)
  define sy where "sy = source_row flip ht y"
  define new where "new = convert_row es x (take r (drop (sy * r) src))"
  have lt: "y < ht" "sy < ht" using Suc by (auto simp: sy_def source_row_def)
  have row: "k * r + r \<le> ht * r" if "k < ht" for k
    using mult_le_mono1 [of "Suc k" ht r] that by simp
  have wr: "wrap64 (int k * int r) = int (k * r)" "wrap64 (int (k * r) + int r) = int (k * r) + int r" if "k < ht" for k
    using row [OF that] assms(5) wrap64_nat [of "k * r"] wrap64_nat [of "k * r + r"] by simp_all
  have s1: "slice src (int (sy * r)) (int (sy * r) + int r) = Some (take r (drop (sy * r) src))"
    using row [OF lt(2)] assms(4) by (intro slice_nat) simp
  have s2: "slice out (int (y * r)) (int (y * r) + int r) = Some (take r (drop (y * r) out))"
    using row [OF lt(1)] Suc.prems(2) by (intro slice_nat) simp
  have new: "length new = r" using row [OF lt(2)] assms(4) unfolding new_def by (intro conv) simp
  define out' where "out' = overwrite out (int (y * r)) new"
  have out': "out' = take (y * r) out @ new @ drop (y * r + r) out" by (simp add: out'_def overwrite_def new del: of_nat_mult)
  have y_le: "y * r \<le> length out" using row [OF lt(1)] Suc.prems(2) by linarith
  have "length out' = ht * r" using row [OF lt(1)] Suc.prems(2) by (simp add: out' new)
  then have ih: "convert_rows flip es x (int r) (int ht) src (int (Suc y)) out' =
      Some (take (Suc y * r) out' @ concat (map (\<lambda>j. convert_row es x (take r (drop (source_row flip ht j * r) src))) [Suc y..<ht]))"
    using Suc.hyps(1) [of "Suc y" out'] Suc.hyps(2) lt by simp
  have "take (Suc y * r) out' = take (y * r) out @ new" using y_le by (simp add: out' new)
  moreover have "[y..<ht] = y # [Suc y..<ht]" using lt by (simp add: upt_conv_Cons)
  moreover have sy_int: "int sy = (if flip then int ht - 1 - int y else int y)"
    using lt by (auto simp: sy_def source_row_def)
  moreover have "convert_rows flip es x (int r) (int ht) src (int y) out =
      convert_rows flip es x (int r) (int ht) src (int y + 1) out'"
    using lt wr [OF lt(1)] wr [OF lt(2)] s1 s2
    by (subst convert_rows.simps) (simp add: Let_def out'_def new_def flip: sy_int)
  ultimately show ?case using ih by (simp add: new_def sy_def add.commute)
qed

lemma elem_concat:
  assumes "\<And>s. s \<in> set rows \<Longrightarrow> length s = es * w" "y < length rows" "x < w"
  shows "elem_at es (concat rows) (y * w + x) = elem_at es (rows ! y) x"
proof -
  have split: "concat rows = concat (take y rows) @ rows ! y @ concat (drop (Suc y) rows)"
    by (metis assms(2) concat.simps(2) concat_append id_take_nth_drop)
  have "length (concat (take y rows)) = y * (es * w)"
    using assms(1,2)
  proof (induction rows arbitrary: y)
    case (Cons r rows)
    then show ?case by (cases y) auto
  qed simp
  then have "drop (es * (y * w + x)) (concat rows) = drop (es * x) (rows ! y @ concat (drop (Suc y) rows))"
    unfolding split by (simp add: algebra_simps)
  moreover have "length (rows ! y) = es * w" using assms(1,2) by simp
  moreover have "es * x + es \<le> es * w" using mult_le_mono2 [of "Suc x" w es] assms(3) by simp
  ultimately show ?thesis by (simp add: elem_at_def)
qed

subsection \<open>Properties\<close>

text \<open>The number an element of the transmitted type shows, and the one FITS stores: unsigned for 8
  bits, two's complement otherwise, plus \<^verbatim>\<open>BZERO\<close>.\<close>

definition shown :: "ImageElementType \<Rightarrow> string \<Rightarrow> int" where
  "shown tx e = (case tx of ImgByte \<Rightarrow> int (le_value e) | ImgInt16 \<Rightarrow> signed 16 (le_value e)
     | ImgInt32 \<Rightarrow> signed 32 (le_value e) | ImgUInt16 \<Rightarrow> int (le_value e) | ImgUInt32 \<Rightarrow> int (le_value e))"

definition stored :: "int \<Rightarrow> string \<Rightarrow> int" where
  "stored bitpix e = (if bitpix = 8 then int (be_value e) else signed (nat bitpix) (be_value e))"

lemma convert16: "le_value (convert_row 2 x [a, b]) = unat (BigEndian_Uint16 a b XOR ucast x)"
  by (simp add: convert_row_def le_LittleEndian16)

lemma convert32: "le_value (convert_row 4 x [a, b, c, d]) = unat (BigEndian_Uint32 a b c d XOR x)"
  by (simp add: convert_row_def le_LittleEndian32)

lemma pixel_value:
  assumes "pixel_types bitpix bzero = Some (elem, tx, x)" "length e = nat (bitpix div 8)"
  shows "Fin (of_int (shown tx (convert_row (bitpix div 8) x e) - stored bitpix e)) = bzero"
proof -
  have be: "be_value e < 256 ^ length e" using le_value_less [of "rev e"] by (simp add: be_value_def)
  have top16: "int (be_value [a, b] XOR 32768) = signed 16 (be_value [a, b]) + 32768" for a b
    using xor_top_bit [of "be_value [a, b]" 15] le_value_less [of "rev [a, b]"] by (simp add: be_value_def)
  have top32: "int (be_value [a, b, c, d] XOR 2147483648) = signed 32 (be_value [a, b, c, d]) + 2147483648" for a b c d
    using xor_top_bit [of "be_value [a, b, c, d]" 31] le_value_less [of "rev [a, b, c, d]"] by (simp add: be_value_def)
  consider (b) a where "bitpix = 8" "e = [a]" "tx = ImgByte" "bzero = Fin 0"
    | (s) a b where "bitpix = 16" "e = [a, b]" "tx = ImgInt16" "x = 0" "bzero = Fin 0"
    | (us) a b where "bitpix = 16" "e = [a, b]" "tx = ImgUInt16" "x = 0x8000" "bzero = Fin 32768"
    | (l) a b c d where "bitpix = 32" "e = [a, b, c, d]" "tx = ImgInt32" "x = 0" "bzero = Fin 0"
    | (ul) a b c d where "bitpix = 32" "e = [a, b, c, d]" "tx = ImgUInt32" "x = 0x80000000" "bzero = Fin 2147483648"
    using assms
    by (auto simp: pixel_types_def f_eq_def length_Suc_conv eval_nat_numeral split: if_splits)
  then show ?thesis
  proof cases
    case b
    then show ?thesis by (simp add: shown_def stored_def convert_row_def be_value_def)
  next
    case s
    then show ?thesis by (simp add: shown_def stored_def convert16 unat_BigEndian16)
  next
    case us
    then show ?thesis by (simp add: shown_def stored_def convert16 unsigned_xor_eq unat_BigEndian16 top16)
  next
    case l
    then show ?thesis by (simp add: shown_def stored_def convert32 unat_BigEndian32)
  next
    case ul
    then show ?thesis by (simp add: shown_def stored_def convert32 unsigned_xor_eq unat_BigEndian32 top32)
  qed
qed

lemma accepted_types:
  assumes "(bitpix, bzero) \<in> {(8, Fin 0), (16, Fin 0), (16, Fin 32768), (32, Fin 0), (32, Fin 2147483648)}"
  obtains elem tx x where "pixel_types bitpix bzero = Some (elem, tx, x)" "bitpix = 8 * int (nat (bitpix div 8))"
    "nat (bitpix div 8) \<in> {1, 2, 4}"
  using assms by (auto simp: pixel_types_def f_eq_def)

text \<open>The rows of the output: each source row converted, top-down.\<close>

definition source_bytes :: "bool \<Rightarrow> nat \<Rightarrow> nat \<Rightarrow> nat \<Rightarrow> string \<Rightarrow> nat \<Rightarrow> string" where
  "source_bytes flip es w ht data j = take (es * w) (drop (source_row flip ht j * (es * w)) data)"

definition frame_rows :: "bool \<Rightarrow> nat \<Rightarrow> 32 word \<Rightarrow> nat \<Rightarrow> nat \<Rightarrow> string \<Rightarrow> string list" where
  "frame_rows flip es x w ht data = map (\<lambda>j. convert_row (int es) x (source_bytes flip es w ht data j)) [0..<ht]"

lemma source_bytes_elem:
  assumes "ht * (es * w) \<le> length data" "j < ht"
  shows "length (source_bytes flip es w ht data j) = es * w"
    "i < w \<Longrightarrow> elem_at es (source_bytes flip es w ht data j) i = elem_at es data (source_row flip ht j * w + i)"
proof -
  define sy where "sy = source_row flip ht j"
  have "sy < ht" using assms(2) by (auto simp: sy_def source_row_def)
  then have fit: "sy * (es * w) + es * w \<le> length data"
    using mult_le_mono1 [of "Suc sy" ht "es * w"] assms(1) by simp
  then show "length (source_bytes flip es w ht data j) = es * w" by (simp add: source_bytes_def sy_def)
  assume "i < w"
  then have "es * i + es \<le> es * w" using mult_le_mono2 [of "Suc i" w es] by simp
  then show "elem_at es (source_bytes flip es w ht data j) i = elem_at es data (source_row flip ht j * w + i)"
    by (simp add: source_bytes_def elem_at_def drop_take take_take algebra_simps min_def flip: sy_def)
qed

lemma frame_rows_length:
  assumes "es \<in> {1, 2, 4}" "ht * (es * w) \<le> length data"
  shows "s \<in> set (frame_rows flip es x w ht data) \<Longrightarrow> length s = es * w"
    "length (concat (frame_rows flip es x w ht data)) = ht * (es * w)"
proof -
  have row: "length (convert_row (int es) x (source_bytes flip es w ht data j)) = es * w" if "j < ht" for j
    by (rule convert_row_elem(1) [OF assms(1) source_bytes_elem(1) [OF assms(2) that]])
  then show "s \<in> set (frame_rows flip es x w ht data) \<Longrightarrow> length s = es * w" by (auto simp: frame_rows_def)
  have "map length (frame_rows flip es x w ht data) = replicate ht (es * w)"
    using row by (intro nth_equalityI) (simp_all add: frame_rows_def)
  then show "length (concat (frame_rows flip es x w ht data)) = ht * (es * w)"
    by (simp add: length_concat sum_list_replicate)
qed

lemma frame_rows_pixel:
  assumes "es \<in> {1, 2, 4}" "ht * (es * w) \<le> length data" "i < w" "y < ht"
  shows "elem_at es (concat (frame_rows flip es x w ht data)) (y * w + i) =
      convert_row (int es) x (elem_at es data (source_row flip ht y * w + i))"
    "length (elem_at es data (source_row flip ht y * w + i)) = es"
proof -
  note src = source_bytes_elem [OF assms(2,4)]
  have "elem_at es (concat (frame_rows flip es x w ht data)) (y * w + i) = elem_at es (frame_rows flip es x w ht data ! y) i"
    using assms by (intro elem_concat frame_rows_length(1)) (auto simp: frame_rows_def)
  then show "elem_at es (concat (frame_rows flip es x w ht data)) (y * w + i) =
      convert_row (int es) x (elem_at es data (source_row flip ht y * w + i))"
    using assms convert_row_elem(2) [OF assms(1) src(1)] src(2) by (simp add: frame_rows_def)
  have "es * i + es \<le> es * w" using mult_le_mono2 [of "Suc i" w es] assms(3) by simp
  then have "length (elem_at es (source_bytes flip es w ht data y) i) = es" using src(1) by (simp add: elem_at_def)
  then show "length (elem_at es data (source_row flip ht y * w + i)) = es" using src(2) [OF assms(3)] by simp
qed

lemma elem_at_append: "length (elem_at es xs i) = es \<Longrightarrow> elem_at es (xs @ ys) i = elem_at es xs i"
  by (cases "es = 0") (auto simp: elem_at_def)

lemma transcode_data_ok:
  fixes w ht es :: nat
  assumes types: "pixel_types (h_Bitpix h) (h_BZero h) = Some (elem, tx, x)" and es: "es \<in> {1, 2, 4}"
    and fits: "h_DataOffset h + w * ht * es \<le> length fits" "length fits < 2 ^ 48" and ht: "0 < ht"
  shows "transcode_data spare fits h (int w) (int ht) (int es) =
    Decoded \<lparr>f_Rank = 2, f_Width = int w, f_Height = int ht, f_ElementType = elem, f_TransmissionElementType = tx,
      f_Pixels = concat (frame_rows (h_RowOrder h = ''BOTTOM-UP'') es x w ht (drop (h_DataOffset h) (fits @ spare)))\<rparr> h"
proof -
  have small: "n < 2 ^ 62" if "n \<le> length fits" for n using that fits(2) by simp
  have "w * ht \<le> w * ht * es" "es * w \<le> w * ht * es" using es ht by auto
  then have le: "w * ht \<le> length fits" "es * w \<le> length fits" using fits(1) by linarith+
  have w1: "wrap64 (int w * int ht) = int (w * ht)" "wrap64 (int w * int es) = int (es * w)"
    using wrap64_nat [OF small [OF le(1)]] wrap64_nat [OF small [OF le(2)]] by (simp_all add: mult.commute)
  have w2: "wrap64 (int (w * ht) * int es) = int (w * ht * es)"
    "wrap64 (int (h_DataOffset h) + int (w * ht * es)) = int (h_DataOffset h + w * ht * es)"
    using small fits(1) by (simp_all add: wrap64_nat flip: of_nat_mult of_nat_add)
  have s: "slice (fits @ spare) (int (h_DataOffset h)) (int (h_DataOffset h) + int (w * ht * es)) \<noteq> None"
    using fits(1) by (subst slice_nat) auto
  have c: "convert_rows (h_RowOrder h = ''BOTTOM-UP'') (int es) x (int (es * w)) (int ht)
      (drop (h_DataOffset h) (fits @ spare)) (int 0) (replicate (w * ht * es) NUL) =
      Some (concat (frame_rows (h_RowOrder h = ''BOTTOM-UP'') es x w ht (drop (h_DataOffset h) (fits @ spare))))"
    using fits es small [of "w * ht * es"]
    by (subst convert_rows_ok) (auto simp: convert_row_elem frame_rows_def source_bytes_def algebra_simps)
  have "make_bytes (int (w * ht * es)) = Some (replicate (w * ht * es) NUL)"
    using fits by (simp add: make_bytes_def maxAlloc_def flip: of_nat_mult)
  then show ?thesis
    using fits types s c by (auto simp: transcode_data_def w1 w2 Let_def simp del: of_nat_mult)
qed

lemma Transcode_decoded:
  assumes "ParseHeader fits = (h, None)" "h_Naxis h = 2" "h_Axes h ! 0 = int w" "h_Axes h ! 1 = int ht"
    "0 < w" "0 < ht" "h_BScale h = Fin 1" "pixel_types (h_Bitpix h) (h_BZero h) = Some (elem, tx, x)"
    "h_Bitpix h = 8 * int es" "es \<in> {1, 2, 4}" "h_DataOffset h + w * ht * es \<le> length fits" "length fits < 2 ^ 48"
  shows "Transcode spare fits = Decoded \<lparr>f_Rank = 2, f_Width = int w, f_Height = int ht, f_ElementType = elem,
    f_TransmissionElementType = tx, f_Pixels = concat (frame_rows (h_RowOrder h = ''BOTTOM-UP'') es x w ht (drop (h_DataOffset h) (fits @ spare)))\<rparr> h"
proof -
  have "Transcode spare fits = transcode_data spare fits h (int w) (int ht) (int es)"
    using assms(1-7,9,10) by (auto simp: Transcode_def Let_def f_eq_def)
  then show ?thesis using transcode_data_ok [OF assms(8,10-12,6)] by simp
qed

text \<open>
  C9: the image a client gets is the image the camera stored: when the header describes a supported
  two-axis frame whose data is there, transcoding returns a frame of that width and height, and the
  element at column \<open>x\<close> and row \<open>y\<close> of it, read little-endian in the transmitted type, is the
  big-endian two's complement number FITS holds for that pixel plus \<^verbatim>\<open>BZERO\<close>, the rows taken from
  the bottom up when the header says so.
\<close>

theorem Transcode_pixels:
  assumes "ParseHeader fits = (h, None)" "h_Naxis h = 2" "h_Axes h ! 0 = int w" "h_Axes h ! 1 = int ht"
    "0 < w" "0 < ht" "h_BScale h = Fin 1"
    "(h_Bitpix h, h_BZero h) \<in> {(8, Fin 0), (16, Fin 0), (16, Fin 32768), (32, Fin 0), (32, Fin 2147483648)}"
    "h_DataOffset h + w * ht * nat (h_Bitpix h div 8) \<le> length fits" "length fits < 2 ^ 48"
  shows "\<exists>fr. Transcode spare fits = Decoded fr h \<and> f_Width fr = int w \<and> f_Height fr = int ht \<and>
    length (f_Pixels fr) = w * ht * nat (h_Bitpix h div 8) \<and>
    (\<forall>x<w. \<forall>y<ht. Fin (of_int (shown (f_TransmissionElementType fr) (elem_at (nat (h_Bitpix h div 8)) (f_Pixels fr) (y * w + x)) -
       stored (h_Bitpix h) (elem_at (nat (h_Bitpix h div 8)) (drop (h_DataOffset h) fits)
         ((if h_RowOrder h = ''BOTTOM-UP'' then ht - 1 - y else y) * w + x)))) = h_BZero h)"
proof -
  define es where "es = nat (h_Bitpix h div 8)"
  obtain elem tx x where t: "pixel_types (h_Bitpix h) (h_BZero h) = Some (elem, tx, x)"
    "h_Bitpix h = 8 * int es" "es \<in> {1, 2, 4}"
    using accepted_types [OF assms(8)] unfolding es_def by blast
  let ?flip = "h_RowOrder h = ''BOTTOM-UP''" and ?data = "drop (h_DataOffset h) (fits @ spare)"
  define px where "px = concat (frame_rows ?flip es x w ht ?data)"
  note fits = assms(9) [folded es_def]
  have run: "Transcode spare fits = Decoded \<lparr>f_Rank = 2, f_Width = int w, f_Height = int ht, f_ElementType = elem,
      f_TransmissionElementType = tx, f_Pixels = px\<rparr> h"
    using Transcode_decoded [OF assms(1-7) t fits assms(10)] by (simp add: px_def)
  have fit: "ht * (es * w) \<le> length ?data" "ht * (es * w) \<le> length (drop (h_DataOffset h) fits)"
    using fits by (simp_all add: algebra_simps)
  have "length px = w * ht * es" using frame_rows_length(2) [OF t(3) fit(1)] by (simp add: px_def algebra_simps)
  moreover have "Fin (of_int (shown tx (elem_at es px (y * w + i)) -
      stored (h_Bitpix h) (elem_at es (drop (h_DataOffset h) fits) (source_row ?flip ht y * w + i)))) = h_BZero h"
    if "i < w" "y < ht" for i y
  proof -
    have "elem_at es ?data (source_row ?flip ht y * w + i) = elem_at es (drop (h_DataOffset h) fits) (source_row ?flip ht y * w + i)"
      using elem_at_append [OF frame_rows_pixel(2) [OF t(3) fit(2) that]] fits by simp
    then show ?thesis
      using pixel_value [OF t(1), of "elem_at es (drop (h_DataOffset h) fits) (source_row ?flip ht y * w + i)"]
        frame_rows_pixel(1) [OF t(3) fit(1) that] frame_rows_pixel(2) [OF t(3) fit(2) that] t(2)
      by (simp add: px_def)
  qed
  ultimately show ?thesis unfolding run es_def [symmetric] by (auto simp: source_row_def)
qed

subsection \<open>Headers on concrete frames\<close>

definition fits_card :: "string \<Rightarrow> string" where
  "fits_card s = s @ replicate (cardSize - length s) (CHR '' '')"

definition fits_header :: "string list \<Rightarrow> string" where
  "fits_header cs = concat (map fits_card cs) @ fits_card ''END'' @ replicate (2800 - cardSize * length cs) (CHR '' '')"

definition header_of :: "string list \<Rightarrow> Header" where
  "header_of cs = fold (\<lambda>c. read_card (fits_card c)) cs new_header"

definition cards_ok :: "string list \<Rightarrow> bool" where
  "cards_ok cs \<longleftrightarrow> list_all (\<lambda>c. length c \<le> cardSize \<and> card_key (fits_card c) \<noteq> ''END'') cs \<and> length cs \<le> 35 \<and>
     (case cs of [] \<Rightarrow> False | c # _ \<Rightarrow> HasPrefix (take 8 (fits_card c)) ''SIMPLE'')"

lemma length_fits_card: "length c \<le> cardSize \<Longrightarrow> length (fits_card c) = cardSize"
  by (simp add: fits_card_def)

lemma cards_step:
  "length c = cardSize \<Longrightarrow> cards tot off (c @ s) h =
    (if card_key c = ''END'' then (h\<lparr>h_DataOffset := (off + cardSize + blockSize - 1) div blockSize * blockSize\<rparr>, None)
     else cards tot (off + cardSize) s (read_card c h))"
  by (subst cards.simps) simp

lemma end_card: "length (fits_card ''END'') = cardSize" "card_key (fits_card ''END'') = ''END''"
  by code_simp+

lemma cards_fold:
  assumes "list_all (\<lambda>c. length c \<le> cardSize \<and> card_key (fits_card c) \<noteq> ''END'') cs"
  shows "cards tot off (concat (map fits_card cs) @ fits_card ''END'' @ r) h =
    ((fold (\<lambda>c. read_card (fits_card c)) cs h)\<lparr>h_DataOffset :=
        (off + cardSize * length cs + cardSize + blockSize - 1) div blockSize * blockSize\<rparr>, None)"
  using assms
proof (induction cs arbitrary: off h)
  case Nil
  then show ?case by (simp add: cards_step end_card)
next
  case (Cons c cs)
  then show ?case by (simp add: cards_step length_fits_card algebra_simps)
qed

lemma length_fits_header: "cards_ok cs \<Longrightarrow> length (fits_header cs) = 2880"
proof -
  assume ok: "cards_ok cs"
  then have "map length (map fits_card cs) = replicate (length cs) cardSize"
    by (intro nth_equalityI) (auto simp: cards_ok_def length_fits_card list_all_length)
  then have "length (concat (map fits_card cs)) = cardSize * length cs"
    by (simp add: length_concat sum_list_replicate comp_def)
  with ok show ?thesis by (simp add: fits_header_def end_card(1) cardSize_def cards_ok_def)
qed

lemma ParseHeader_rendered:
  assumes "cards_ok cs"
  shows "ParseHeader (fits_header cs @ s) = ((header_of cs)\<lparr>h_DataOffset := 2880\<rparr>, None)"
proof -
  obtain c cs' where cs: "cs = c # cs'" using assms by (auto simp: cards_ok_def split: list.splits)
  have "length (fits_card c) = cardSize" using assms by (simp add: cs cards_ok_def length_fits_card)
  then have "HasPrefix (take 8 (fits_header cs @ s)) ''SIMPLE''"
    using assms by (simp add: cs cards_ok_def fits_header_def cardSize_def)
  moreover have "(cardSize * length cs + cardSize + blockSize - 1) div blockSize * blockSize = 2880"
  proof -
    have "length cs \<le> 35" using assms by (simp add: cards_ok_def)
    then have "(2959 + 80 * length cs) div 2880 = 1" by (intro div_nat_eqI) auto
    then show ?thesis by (simp add: cardSize_def blockSize_def)
  qed
  moreover have "cardSize \<le> length (fits_header cs @ s)" using length_fits_header [OF assms] by (simp add: cardSize_def)
  moreover have "cards tot 0 (fits_header cs @ s) new_header =
      ((header_of cs)\<lparr>h_DataOffset := (cardSize * length cs + cardSize + blockSize - 1) div blockSize * blockSize\<rparr>, None)" for tot
    using assms cards_fold [of cs tot 0 "replicate (2800 - cardSize * length cs) (CHR '' '') @ s" new_header]
    by (simp add: fits_header_def header_of_def cards_ok_def)
  ultimately show ?thesis by (simp add: ParseHeader_def)
qed

definition small_cards :: "string list" where
  "small_cards = [''SIMPLE  =                    T'', ''BITPIX  =                   16'', ''NAXIS   =                    2'',
     ''NAXIS1  =                    2'', ''NAXIS2  =                    2'', ''BZERO   =                32768'',
     ''ROWORDER= '' @ [SQUOTE] @ ''BOTTOM-UP'' @ [SQUOTE] @ '' / row order'']"

definition small_data :: string where
  "small_data = [CHR 0x80, CHR 0x01, CHR 0x80, CHR 0x02, CHR 0x00, CHR 0x03, CHR 0xFF, CHR 0x04]"

text \<open>The fields of the cards a reader sees, evaluated before their numbers.\<close>

definition fields_of :: "string list \<Rightarrow> (string \<times> string) list" where
  "fields_of cs = map (\<lambda>c. (card_key (fits_card c), card_value (fits_card c)))
     (filter (\<lambda>c. fits_card c ! 8 = CHR ''='') cs)"

lemma header_of_fields: "header_of cs = fold (\<lambda>(key, v). read_field key v) (fields_of cs) new_header"
proof -
  have "fold (\<lambda>c. read_card (fits_card c)) cs h = fold (\<lambda>(key, v). read_field key v) (fields_of cs) h" for h
    by (induction cs arbitrary: h) (simp_all add: fields_of_def read_card_def)
  then show ?thesis by (simp add: header_of_def)
qed

lemma small_ok: "cards_ok small_cards"
  "fields_of small_cards = [(''SIMPLE'', ''T''), (''BITPIX'', ''16''), (''NAXIS'', ''2''), (''NAXIS1'', ''2''), (''NAXIS2'', ''2''),
     (''BZERO'', ''32768''), (''ROWORDER'', [SQUOTE] @ ''BOTTOM-UP'' @ [SQUOTE] @ '' / row order'')]"
  "ToUpper (unquote ([SQUOTE] @ ''BOTTOM-UP'' @ [SQUOTE] @ '' / row order'')) = ''BOTTOM-UP''"
  by code_simp+

lemma small_numbers: "ParseFloat ''2'' = (Fin 2, True)" "ParseFloat ''16'' = (Fin 16, True)" "ParseFloat ''32768'' = (Fin 32768, True)"
proof -
  have vals: "val10 ''2'' = 2" "val10 ''16'' = 16" "val10 ''32768'' = 32768"
    by (simp_all add: val10_def digit_val_def is_digit_def byte_between_def)
  show "ParseFloat ''2'' = (Fin 2, True)" "ParseFloat ''16'' = (Fin 16, True)" "ParseFloat ''32768'' = (Fin 32768, True)"
    using rnd_of_int [of 2] rnd_of_int [of 16] rnd_of_int [of 32768] by (simp_all add: ParseFloat_digits is_digit_def byte_between_def vals)
qed

lemma small_header: "header_of small_cards = \<lparr>h_Bitpix = 16, h_Naxis = 2, h_Axes = [2, 2, 0],
    h_BZero = Fin 32768, h_BScale = Fin 1, h_RowOrder = ''BOTTOM-UP'', h_BayerPat = [], h_DataOffset = 0\<rparr>"
  using f_int_of_int [of 2] f_int_of_int [of 16] small_ok(3)
  by (simp add: header_of_fields small_ok(2) read_field_def atoi_def small_numbers new_header_def fits64_def del: f_int.simps)

lemma small_decoded: "\<exists>fr. Transcode [] (fits_header small_cards @ small_data) = Decoded fr ((header_of small_cards)\<lparr>h_DataOffset := 2880\<rparr>)"
  by (subst Transcode_decoded [OF ParseHeader_rendered [OF small_ok(1)], where w = 2 and ht = 2 and es = 2 and x = "0x8000"
        and elem = ImgInt32 and tx = ImgUInt16])
    (simp_all add: small_header length_fits_header [OF small_ok(1)] small_data_def pixel_types_def f_eq_def)

theorem Transcode_pixels_witness:
  "\<exists>fr. Transcode [] (fits_header small_cards @ small_data) = Decoded fr ((header_of small_cards)\<lparr>h_DataOffset := 2880\<rparr>) \<and>
    f_Width fr = 2 \<and> f_Height fr = 2 \<and> length (f_Pixels fr) = 8"
proof -
  have "\<exists>fr. Transcode [] (fits_header small_cards @ small_data) = Decoded fr ((header_of small_cards)\<lparr>h_DataOffset := 2880\<rparr>) \<and>
      f_Width fr = int 2 \<and> f_Height fr = int 2 \<and> length (f_Pixels fr) = 2 * 2 * nat (h_Bitpix ((header_of small_cards)\<lparr>h_DataOffset := 2880\<rparr>) div 8)"
    by (rule exE [OF Transcode_pixels [OF ParseHeader_rendered [OF small_ok(1)], of 2 2 small_data]])
      (auto simp: small_header length_fits_header [OF small_ok(1)] small_data_def)
  then show ?thesis by (simp add: small_header)
qed

definition wide_cards :: "string list" where
  "wide_cards = [''SIMPLE  =                    T'', ''BITPIX  =                   32'', ''NAXIS   =                    2'',
     ''NAXIS1  =  4611686018427387904'', ''NAXIS2  =                    1'']"

lemma wide_ok: "cards_ok wide_cards"
  "fields_of wide_cards = [(''SIMPLE'', ''T''), (''BITPIX'', ''32''), (''NAXIS'', ''2''), (''NAXIS1'', ''4611686018427387904''), (''NAXIS2'', ''1'')]"
  by code_simp+

lemma wide_numbers: "ParseFloat ''1'' = (Fin 1, True)" "ParseFloat ''32'' = (Fin 32, True)" "ParseFloat ''4611686018427387904'' = (Fin (2 ^ 62), True)"
proof -
  have vals: "val10 ''1'' = 1" "val10 ''32'' = 32" "val10 ''4611686018427387904'' = 2 ^ 62"
    by (simp_all add: val10_def digit_val_def is_digit_def byte_between_def)
  show "ParseFloat ''1'' = (Fin 1, True)" "ParseFloat ''32'' = (Fin 32, True)" "ParseFloat ''4611686018427387904'' = (Fin (2 ^ 62), True)"
    using rnd_of_int [of 1] rnd_of_int [of 32] rnd_pow2 [of 62] by (simp_all add: ParseFloat_digits is_digit_def byte_between_def vals)
qed

lemma wide_header: "header_of wide_cards = \<lparr>h_Bitpix = 32, h_Naxis = 2, h_Axes = [2 ^ 62, 1, 0],
    h_BZero = Fin 0, h_BScale = Fin 1, h_RowOrder = [], h_BayerPat = [], h_DataOffset = 0\<rparr>"
  using f_int_of_int [of 1] f_int_of_int [of 2] f_int_of_int [of 32] f_int_of_int [of "2 ^ 62"]
  by (simp add: header_of_fields wide_ok(2) read_field_def atoi_def wide_numbers small_numbers new_header_def fits64_def del: f_int.simps)

text \<open>
  The truncation check wraps: a header declaring one row of two to the sixty-second 32-bit
  pixels, with no data at all behind it, passes the check, because the byte count is zero modulo two
  to the sixty-fourth, and transcodes to a frame of that width with no pixels and no error.
\<close>

theorem Transcode_wraps:
  "Transcode [] (fits_header wide_cards) =
    Decoded \<lparr>f_Rank = 2, f_Width = 2 ^ 62, f_Height = 1, f_ElementType = ImgInt32,
      f_TransmissionElementType = ImgInt32, f_Pixels = []\<rparr> ((header_of wide_cards)\<lparr>h_DataOffset := 2880\<rparr>)"
proof -
  define h where "h = (header_of wide_cards)\<lparr>h_DataOffset := 2880\<rparr>"
  have p: "ParseHeader (fits_header wide_cards) = (h, None)"
    using ParseHeader_rendered [OF wide_ok(1), of "[]"] by (simp add: h_def)
  have "transcode_data [] (fits_header wide_cards) h (2 ^ 62) 1 4 = Decoded \<lparr>f_Rank = 2, f_Width = 2 ^ 62, f_Height = 1,
      f_ElementType = ImgInt32, f_TransmissionElementType = ImgInt32, f_Pixels = []\<rparr> h"
    unfolding transcode_data_def Let_def h_def
    by (simp add: wrap64_def wide_header length_fits_header [OF wide_ok(1)] pixel_types_def f_eq_def slice_def make_bytes_def maxAlloc_def
        convert_rows.simps overwrite_def convert_row_def)
  then show ?thesis by (simp add: Transcode_def p Let_def f_eq_def) (simp add: h_def wide_header)
qed

end
