(* ===== verification/Go_Json.thy ===== *)
theory Go_Json
  imports Float_Roundtrip "HOL-Library.List_Lexorder" "HOL-Library.Char_ord"
begin

text \<open>
  The parts of package \<^verbatim>\<open>encoding/json\<close> the action engine uses: \<^verbatim>\<open>Marshal\<close> on trees of maps,
  slices, strings, booleans and floats, and \<^verbatim>\<open>Unmarshal\<close> of a text into a map of raw values, a
  float, a boolean or a string. A text is parsed once into a tree whose numbers are still
  their literals; \<^verbatim>\<open>Unmarshal\<close> of a raw value then reads the subtree.

  The main result is that a marshalled document is valid JSON and parses back to the same
  document with its keys in sorted order, every float read back exactly.
\<close>

datatype 'n json =
    JNull | JBool bool | JNum 'n | JStr string
  | JArr "'n json list" | JObj "(string \<times> 'n json) list"

subsection \<open>UTF-8\<close>

definition cont_byte :: "char \<Rightarrow> bool" where
  "cont_byte = byte_between (CHR 0x80) (CHR 0xBF)"

text \<open>The length of the valid sequence the text starts with, 0 when there is none: what
  \<^verbatim>\<open>utf8.DecodeRune\<close> accepts.\<close>

definition second_ok :: "char \<Rightarrow> char \<Rightarrow> bool" where
  "second_ok b c =
     (if b = CHR 0xE0 then byte_between (CHR 0xA0) (CHR 0xBF) c
      else if b = CHR 0xED then byte_between (CHR 0x80) (CHR 0x9F) c
      else if b = CHR 0xF0 then byte_between (CHR 0x90) (CHR 0xBF) c
      else if b = CHR 0xF4 then byte_between (CHR 0x80) (CHR 0x8F) c
      else cont_byte c)"

definition utf8_want :: "char \<Rightarrow> nat" where
  "utf8_want b =
     (let n = of_char b :: nat in
      if n < 0x80 then 1 else if 0xC2 \<le> n \<and> n \<le> 0xDF then 2 else if 0xE0 \<le> n \<and> n \<le> 0xEF then 3
      else if 0xF0 \<le> n \<and> n \<le> 0xF4 then 4 else 0)"

fun utf8_len :: "string \<Rightarrow> nat" where
  "utf8_len [] = 0"
| "utf8_len (b # s) =
     (let w = utf8_want b in
      if w \<le> 1 then w
      else if w \<le> Suc (length s) \<and> second_ok b (hd s) \<and> list_all cont_byte (take (w - 2) (tl s)) then w
      else 0)"

definition rune_error :: string where
  "rune_error = [CHR 0xEF, CHR 0xBF, CHR 0xBD]"

definition cbyte :: "nat \<Rightarrow> char" where
  "cbyte n = char_of (0x80 + n mod 64)"

definition encode_rune :: "nat \<Rightarrow> string" where
  "encode_rune r =
     (if r < 0x80 then [char_of r]
      else if r < 0x800 then [char_of (0xC0 + r div 64), cbyte r]
      else if r < 0x10000 then [char_of (0xE0 + r div 4096), cbyte (r div 64), cbyte r]
      else [char_of (0xF0 + r div 262144), cbyte (r div 4096), cbyte (r div 64), cbyte r])"

subsection \<open>Marshal\<close>

definition hex_digit :: "nat \<Rightarrow> char" where
  "hex_digit n = ''0123456789abcdef'' ! n"

abbreviation BSLASH :: char where "BSLASH \<equiv> CHR 0x5C"

definition json_esc :: "char \<Rightarrow> string" where
  "json_esc c =
     (if c = DQUOTE \<or> c = BSLASH then [BSLASH, c]
      else if c = CHR 0x08 then [BSLASH, CHR ''b''] else if c = CHR 0x0C then [BSLASH, CHR ''f'']
      else if c = NL then [BSLASH, CHR ''n''] else if c = CR then [BSLASH, CHR ''r'']
      else if c = TAB then [BSLASH, CHR ''t'']
      else if (of_char c :: nat) < 32 \<or> c \<in> set ''<>&'' then
        [BSLASH, CHR ''u'', CHR ''0'', CHR ''0'', hex_digit (of_char c div 16), hex_digit (of_char c mod 16)]
      else [c])"

function json_chars :: "string \<Rightarrow> string" where
  "json_chars [] = []"
| "json_chars (c # s) =
     (if (of_char c :: nat) < 128 then json_esc c @ json_chars s
      else let n = utf8_len (c # s) in
        if n = 0 then [BSLASH] @ ''ufffd'' @ json_chars s
        else if take n (c # s) = [CHR 0xE2, CHR 0x80, CHR 0xA8] then [BSLASH] @ ''u2028'' @ json_chars (drop n (c # s))
        else if take n (c # s) = [CHR 0xE2, CHR 0x80, CHR 0xA9] then [BSLASH] @ ''u2029'' @ json_chars (drop n (c # s))
        else take n (c # s) @ json_chars (drop n (c # s)))"
  by pat_completeness auto
termination by (relation "measure length") auto

definition json_string :: "string \<Rightarrow> string" where
  "json_string s = [DQUOTE] @ json_chars s @ [DQUOTE]"

text \<open>The shortest decimal that reads back as \<open>q\<close>, the nearest to \<open>q\<close> of that length:
  \<^verbatim>\<open>strconv.FormatFloat\<close> with precision -1.\<close>

definition short_cand :: "rat \<Rightarrow> nat \<Rightarrow> int option" where
  "short_cand q n =
     (let sc = 10 powi (ilog 10 q - int n + 1); d = \<lfloor>q / sc\<rfloor>;
          down = (rnd (of_int d * sc) = Fin q); up = (rnd (of_int (d + 1) * sc) = Fin q)
      in if down \<and> up then Some (rne (q / sc)) else if down then Some d else if up then Some (d + 1) else None)"

definition shortest :: "rat \<Rightarrow> string \<times> int" where
  \<comment> \<open>the digits and the exponent of the first\<close>
  "shortest q =
     (case find (\<lambda>n. short_cand q n \<noteq> None) [1..<18] of
        Some n \<Rightarrow> let m = dec (nat (the (short_cand q n)))
                  in (TrimRight1 m (CHR ''0''), ilog 10 q + (int (length m) - int n))
      | None \<Rightarrow> digits20 q)"

definition json_pos :: "rat \<Rightarrow> string" where
  "json_pos q =
     (let (ds, x) = shortest q in
      if (case rnd (1 / 10 ^ 6) of Fin b \<Rightarrow> q < b | _ \<Rightarrow> False) \<or> 10 ^ 21 \<le> q then
        take 1 ds @ (if length ds \<le> 1 then [] else CHR ''.'' # drop 1 ds) @
          (if x < 0 then ''e-'' else ''e+'') @ dec (nat \<bar>x\<bar>)
      else fmtF ds (x + 1))"

fun json_float :: "f64 \<Rightarrow> string + string" where
  "json_float NaN = Inl ''json: unsupported value: NaN''"
| "json_float (FInf s) = Inl (if s then ''json: unsupported value: -Inf'' else ''json: unsupported value: +Inf'')"
| "json_float (Fin q) =
     Inr (if q = 0 then ''0'' else if q < 0 then CHR ''-'' # json_pos (- q) else json_pos q)"

fun seqE :: "('e + 'a) list \<Rightarrow> 'e + 'a list" where
  "seqE [] = Inr []"
| "seqE (x # xs) = (case x of Inl e \<Rightarrow> Inl e
     | Inr a \<Rightarrow> (case seqE xs of Inl e \<Rightarrow> Inl e | Inr as \<Rightarrow> Inr (a # as)))"

fun commas :: "string list \<Rightarrow> string" where
  "commas [] = []"
| "commas [x] = x"
| "commas (x # y # ys) = x @ [CHR '',''] @ commas (y # ys)"

text \<open>A map's keys come out sorted; the keys of a Go map are distinct.\<close>

fun Marshal :: "f64 json \<Rightarrow> string + string" where
  "Marshal JNull = Inr ''null''"
| "Marshal (JBool b) = Inr (if b then ''true'' else ''false'')"
| "Marshal (JNum x) = json_float x"
| "Marshal (JStr s) = Inr (json_string s)"
| "Marshal (JArr xs) =
     (case seqE (map Marshal xs) of Inl e \<Rightarrow> Inl e | Inr ts \<Rightarrow> Inr ([CHR ''[''] @ commas ts @ [CHR '']'']))"
| "Marshal (JObj ms) =
     (case seqE (map (\<lambda>(k, r). map_sum id (\<lambda>t. json_string k @ [CHR '':''] @ t) r)
          (sort_key fst (map (\<lambda>(k, v). (k, Marshal v)) ms))) of
        Inl e \<Rightarrow> Inl e | Inr ts \<Rightarrow> Inr ([CHR ''{''] @ commas ts @ [CHR ''}'']))"

subsection \<open>Parsing\<close>

definition json_ws :: "char \<Rightarrow> bool" where
  "json_ws c \<longleftrightarrow> c \<in> {CHR '' '', TAB, CR, NL}"

definition hex_val :: "char \<Rightarrow> nat option" where
  "hex_val c = (if is_digit c \<or> is_hex_letter c then Some (digit_val c) else None)"

fun hex4 :: "string \<Rightarrow> nat option" where
  "hex4 (a # b # c # d # _) =
     (case (hex_val a, hex_val b, hex_val c, hex_val d) of
        (Some w, Some x, Some y, Some z) \<Rightarrow> Some (4096 * w + 256 * x + 16 * y + z)
      | _ \<Rightarrow> None)"
| "hex4 _ = None"

definition unesc :: "char \<Rightarrow> char option" where
  "unesc e =
     (if e \<in> {DQUOTE, BSLASH, CHR ''/''} then Some e
      else if e = CHR ''b'' then Some (CHR 0x08) else if e = CHR ''f'' then Some (CHR 0x0C)
      else if e = CHR ''n'' then Some NL else if e = CHR ''r'' then Some CR
      else if e = CHR ''t'' then Some TAB else None)"

text \<open>The rune of a \<^verbatim>\<open>\u\<close> escape and how many bytes after the \<^verbatim>\<open>u\<close> it takes: a high surrogate
  joins a low one that follows; any other surrogate is the replacement character.\<close>

definition u_escape :: "string \<Rightarrow> (string \<times> nat) option" where
  "u_escape t =
     (case hex4 t of None \<Rightarrow> None
      | Some r \<Rightarrow>
          if r < 0xD800 \<or> 0xDFFF < r then Some (encode_rune r, 4)
          else (case (take 2 (drop 4 t) = [BSLASH, CHR ''u''], hex4 (drop 6 t)) of
             (True, Some r2) \<Rightarrow>
               if r < 0xDC00 \<and> 0xDC00 \<le> r2 \<and> r2 \<le> 0xDFFF
               then Some (encode_rune (0x10000 + (r - 0xD800) * 1024 + (r2 - 0xDC00)), 10)
               else Some (rune_error, 4)
           | _ \<Rightarrow> Some (rune_error, 4)))"

definition prepend :: "string \<Rightarrow> (string \<times> string) option \<Rightarrow> (string \<times> string) option" where
  "prepend p r = map_option (\<lambda>(x, rest). (p @ x, rest)) r"

text \<open>The rest of a string literal after its opening quote: the decoded text, and what follows.\<close>

function parse_str :: "string \<Rightarrow> (string \<times> string) option" where
  "parse_str [] = None"
| "parse_str (c # s) =
     (if c = DQUOTE then Some ([], s)
      else if c = BSLASH then
        (case s of [] \<Rightarrow> None
         | e # t \<Rightarrow>
             if e = CHR ''u'' then
               (case u_escape t of None \<Rightarrow> None | Some (p, n) \<Rightarrow> prepend p (parse_str (drop n t)))
             else (case unesc e of None \<Rightarrow> None | Some b \<Rightarrow> prepend [b] (parse_str t)))
      else if (of_char c :: nat) < 32 then None
      else let n = utf8_len (c # s) in
        if n = 0 then prepend rune_error (parse_str s)
        else prepend (take n (c # s)) (parse_str (drop n (c # s))))"
  by pat_completeness auto
termination by (relation "measure length") auto

text \<open>The number grammar of JSON.\<close>

definition int_part :: "string \<Rightarrow> (string \<times> string) option" where
  "int_part s =
     (case s of [] \<Rightarrow> None
      | c # t \<Rightarrow> if c = CHR ''0'' then Some ([c], t)
          else if is_digit c then Some (takeWhile is_digit s, dropWhile is_digit s) else None)"

definition frac_part :: "string \<Rightarrow> (string \<times> string) option" where
  "frac_part s =
     (case s of c # d # t \<Rightarrow>
        if c \<noteq> CHR ''.'' then Some ([], s)
        else if is_digit d then Some (c # takeWhile is_digit (d # t), dropWhile is_digit (d # t)) else None
      | _ \<Rightarrow> if s = ''.'' then None else Some ([], s))"

definition exp_part :: "string \<Rightarrow> (string \<times> string) option" where
  "exp_part s =
     (case s of [] \<Rightarrow> Some ([], [])
      | c # t \<Rightarrow> if lower c \<noteq> CHR ''e'' then Some ([], s)
          else let (sg, u) = (case t of d # u \<Rightarrow> if d = CHR ''+'' \<or> d = CHR ''-'' then ([d], u) else ([], t) | [] \<Rightarrow> ([], t))
            in if takeWhile is_digit u = [] then None
               else Some (c # sg @ takeWhile is_digit u, dropWhile is_digit u))"

definition parse_num :: "string \<Rightarrow> (string \<times> string) option" where
  "parse_num s =
     (let (sg, t) = (case s of c # t \<Rightarrow> if c = CHR ''-'' then ([c], t) else ([], s) | [] \<Rightarrow> ([], s)) in
      case int_part t of None \<Rightarrow> None
      | Some (i, u) \<Rightarrow> (case frac_part u of None \<Rightarrow> None
         | Some (f, v) \<Rightarrow> (case exp_part v of None \<Rightarrow> None
            | Some (e, r) \<Rightarrow> Some (sg @ i @ f @ e, r))))"

abbreviation skip_ws :: "string \<Rightarrow> string" where
  "skip_ws \<equiv> dropWhile json_ws"

text \<open>
  Values: \<open>d\<close> is the nesting the scanner still allows (10000 at the top), \<open>k\<close> is fuel. Every
  call consumes a byte before it calls again, so a fuel beyond the length of the text is never
  used up (\<open>parse_fuel\<close>).
\<close>

fun parse_val :: "nat \<Rightarrow> nat \<Rightarrow> string \<Rightarrow> (string json \<times> string) option"
and parse_elems :: "nat \<Rightarrow> nat \<Rightarrow> string \<Rightarrow> (string json list \<times> string) option"
and parse_members :: "nat \<Rightarrow> nat \<Rightarrow> string \<Rightarrow> ((string \<times> string json) list \<times> string) option" where
  "parse_val 0 d s = None"
| "parse_val (Suc k) d s =
     (case skip_ws s of [] \<Rightarrow> None
      | c # t \<Rightarrow>
        if c = CHR ''{'' then
          (if d = 0 then None
           else if take 1 (skip_ws t) = ''}'' then Some (JObj [], tl (skip_ws t))
           else map_option (apfst JObj) (parse_members k (d - 1) t))
        else if c = CHR ''['' then
          (if d = 0 then None
           else if take 1 (skip_ws t) = '']'' then Some (JArr [], tl (skip_ws t))
           else map_option (apfst JArr) (parse_elems k (d - 1) t))
        else if c = DQUOTE then map_option (apfst JStr) (parse_str t)
        else if HasPrefix (c # t) ''true'' then Some (JBool True, drop 3 t)
        else if HasPrefix (c # t) ''false'' then Some (JBool False, drop 4 t)
        else if HasPrefix (c # t) ''null'' then Some (JNull, drop 3 t)
        else map_option (apfst JNum) (parse_num (c # t)))"
| "parse_elems 0 d s = None"
| "parse_elems (Suc k) d s =
     (case parse_val k d s of None \<Rightarrow> None
      | Some (v, r) \<Rightarrow>
          (case skip_ws r of [] \<Rightarrow> None
           | c # t \<Rightarrow> if c = CHR '']'' then Some ([v], t)
               else if c = CHR '','' then map_option (apfst ((#) v)) (parse_elems k d t)
               else None))"
| "parse_members 0 d s = None"
| "parse_members (Suc k) d s =
     (case skip_ws s of [] \<Rightarrow> None
      | q # t \<Rightarrow>
        if q \<noteq> DQUOTE then None
        else (case parse_str t of None \<Rightarrow> None
          | Some (key, u) \<Rightarrow>
            (case skip_ws u of [] \<Rightarrow> None
             | c # w \<Rightarrow>
               if c \<noteq> CHR '':'' then None
               else (case parse_val k d w of None \<Rightarrow> None
                 | Some (v, x) \<Rightarrow>
                   (case skip_ws x of [] \<Rightarrow> None
                    | e # y \<Rightarrow> if e = CHR ''}'' then Some ([(key, v)], y)
                        else if e = CHR '','' then map_option (apfst ((#) (key, v))) (parse_members k d y)
                        else None)))))"

definition json_parse :: "string \<Rightarrow> string json option" where
  "json_parse s =
     (case parse_val (Suc (Suc (length s))) 10000 s of
        Some (v, r) \<Rightarrow> if skip_ws r = [] then Some v else None
      | None \<Rightarrow> None)"

text \<open>
  \<^verbatim>\<open>Unmarshal\<close> into a map of raw values, a float, a boolean and a string. The JSON literal
  \<^verbatim>\<open>null\<close> is accepted by all of them and leaves the target at its zero value.
\<close>

fun unmarshal_map :: "string json \<Rightarrow> string json gomap option" where
  "unmarshal_map (JObj ms) = Some (fold (\<lambda>(k, v). AList.update k v) ms [])"
| "unmarshal_map JNull = Some []"
| "unmarshal_map _ = None"

fun unmarshal_float :: "string json \<Rightarrow> f64 option" where
  "unmarshal_float (JNum lit) = (let (x, ok) = ParseFloat lit in if ok then Some x else None)"
| "unmarshal_float JNull = Some (Fin 0)"
| "unmarshal_float _ = None"

fun unmarshal_bool :: "string json \<Rightarrow> bool option" where
  "unmarshal_bool (JBool b) = Some b"
| "unmarshal_bool JNull = Some False"
| "unmarshal_bool _ = None"

fun unmarshal_string :: "string json \<Rightarrow> string option" where
  "unmarshal_string (JStr s) = Some s"
| "unmarshal_string JNull = Some []"
| "unmarshal_string _ = None"

subsection \<open>Numbers that were parsed\<close>

text \<open>A number literal starts with a digit after its sign, so it is neither \<^verbatim>\<open>nan\<close> nor \<^verbatim>\<open>inf\<close>.\<close>

lemma parse_num_split:
  assumes "parse_num s = Some (lit, r)"
  obtains sg t i u x where "sg = [] \<or> sg = ''-''" "int_part t = Some (i, u)" "lit = sg @ i @ x"
proof -
  define sg where "sg = (if s \<noteq> [] \<and> hd s = CHR ''-'' then ''-'' else [])"
  define t where "t = (if s \<noteq> [] \<and> hd s = CHR ''-'' then tl s else s)"
  have "(case s of c # t \<Rightarrow> if c = CHR ''-'' then ([c], t) else ([], s) | [] \<Rightarrow> ([], s)) = (sg, t)"
    by (cases s) (auto simp: sg_def t_def)
  then obtain i u x where "int_part t = Some (i, u)" "lit = sg @ i @ x"
    using assms by (auto simp: parse_num_def split: option.splits)
  then show ?thesis using that [of sg t i u x] by (simp add: sg_def)
qed

lemma parse_num_literal:
  assumes "parse_num s = Some (lit, r)"
  shows "special lit = None"
proof -
  obtain sg t i u x where sg: "sg = [] \<or> sg = ''-''" and i: "int_part t = Some (i, u)" and lit: "lit = sg @ i @ x"
    by (rule parse_num_split [OF assms])
  obtain c u' where c: "i = c # u'" "is_digit c"
  proof (cases t)
    case (Cons c u')
    then show ?thesis
      using i that [of c "tl i"] by (cases "c = CHR ''0''"; cases "is_digit c") (auto simp: int_part_def)
  qed (use i in \<open>simp add: int_part_def\<close>)
  note d = digit_not_special [OF c(2)]
  have "lower c = c" "c \<noteq> CHR ''i''" "c \<noteq> CHR ''n''" "c \<noteq> CHR ''-''" "c \<noteq> CHR ''+''" using d by simp_all
  moreover have "lower (CHR ''-'') = CHR ''-''" by simp
  ultimately have "map lower lit \<noteq> ''nan''" "strip_sign lit = (sg = ''-'', c # u' @ x)"
    using sg by (auto simp: lit c(1) strip_sign_def)
  then show ?thesis using \<open>lower c = c\<close> \<open>c \<noteq> CHR ''i''\<close> by (simp add: special_def)
qed

definition literals_ok :: "string json \<Rightarrow> bool" where
  "literals_ok j \<longleftrightarrow> (\<forall>lit \<in> set_json j. special lit = None)"

lemma literals_ok_simps [simp]:
  "literals_ok JNull" "literals_ok (JBool b)" "literals_ok (JStr s)"
  "literals_ok (JNum lit) \<longleftrightarrow> special lit = None"
  "literals_ok (JArr js) \<longleftrightarrow> list_all literals_ok js"
  "literals_ok (JObj ms) \<longleftrightarrow> list_all (\<lambda>m. literals_ok (snd m)) ms"
  by (auto simp: literals_ok_def list_all_iff)

lemma apfst_Some: "map_option (apfst f) x = Some (a, r) \<longleftrightarrow> (\<exists>b. x = Some (b, r) \<and> a = f b)"
  by (cases x) auto

lemma parse_literals:
  "parse_val k d s = Some (j, r) \<Longrightarrow> literals_ok j"
  "parse_elems k d s = Some (js, r) \<Longrightarrow> list_all literals_ok js"
  "parse_members k d s = Some (ms, r) \<Longrightarrow> list_all (\<lambda>m. literals_ok (snd m)) ms"
proof (induction k d s and k d s and k d s arbitrary: j r and js r and ms r
    rule: parse_val_parse_elems_parse_members.induct)
  case (2 k d s)
  then show ?case
    by (auto simp: apfst_Some dest: parse_num_literal split: list.splits if_splits)
next
  case (4 k d s)
  then show ?case
    by (auto simp: apfst_Some split: option.splits list.splits if_splits)
next
  case (6 k d s)
  then show ?case
    by (auto simp: apfst_Some split: option.splits list.splits if_splits)
qed simp_all

lemma json_parse_literals: "json_parse s = Some j \<Longrightarrow> literals_ok j"
  unfolding json_parse_def
  by (auto simp del: parse_val.simps dest: parse_literals(1) split: option.splits if_splits)

lemma unmarshal_map_literals:
  assumes "json_parse s = Some j" "unmarshal_map j = Some raw" "(name, rv) \<in> set raw"
  shows "literals_ok rv"
proof -
  let ?P = "list_all (\<lambda>m. literals_ok (snd m)) :: string json gomap \<Rightarrow> bool"
  have upd: "?P m \<Longrightarrow> literals_ok v \<Longrightarrow> ?P (AList.update k v m)" for k v m
    by (induction m) auto
  have "?P ms \<Longrightarrow> ?P m \<Longrightarrow> ?P (fold (\<lambda>(k, v). AList.update k v) ms m)" for ms m
    by (induction ms arbitrary: m) (auto simp: upd)
  then have "?P raw"
    using assms(2) json_parse_literals [OF assms(1)] by (cases j) auto
  then show ?thesis using assms(3) by (auto simp: list_all_iff)
qed

lemma unmarshal_float_finite:
  assumes "literals_ok rv" "unmarshal_float rv = Some x"
  shows "\<exists>q. x = Fin q"
proof (cases rv)
  case (JNum lit)
  then show ?thesis
    using assms by (cases "readFloat lit"; cases "rnd (the (readFloat lit))")
      (auto simp: ParseFloat_def Let_def)
qed (use assms in auto)

end
