(* ===== verification/Action_Engine.thy ===== *)
theory Action_Engine
  imports Binding_Kit Go_Json
begin

text \<open>
  The passthrough actions (\<^verbatim>\<open>internal/actions/actions.go\<close>): every property the typed mapping of a
  device does not consume is readable and writable as an Alpaca action \<^verbatim>\<open>INDI:\<close>\<open>property\<close>. A
  document is a JSON tree, its text is that of \<open>Go_Json\<close>. An iteration over a Go map is
  an iteration over its association list in the order of the list.
\<close>

subsection \<open>Which properties are exposed\<close>

definition introspect :: string where
  "introspect = ''INDI:_PROPERTIES''"

definition bridgeManaged :: "string list" where
  "bridgeManaged = [''CONNECTION'', ''CONNECTION_MODE'', ''DRIVER_INFO'', ''DEBUG'', ''DEBUG_LEVEL'',
     ''LOGGING_LEVEL'', ''LOG_OUTPUT'', ''FILE_DEBUG'', ''SIMULATION'', ''CONFIG_PROCESS'',
     ''POLLING_PERIOD'', ''NICKNAME'']"

definition videoReserved :: "string list" where
  "videoReserved = [''CCD_VIDEO_STREAM'', ''STREAMING_EXPOSURE'', ''FPS'', ''LIMITS'']"

definition reservedVideo :: "string \<Rightarrow> bool" where
  "reservedVideo vec \<longleftrightarrow> vec \<in> set videoReserved \<or> HasPrefix vec ''CCD_STREAM_'' \<or> HasPrefix vec ''RECORD_''"

record Engine =
  en_kit :: Kit
  en_consumed :: "string \<Rightarrow> bool"

definition reachable :: "Engine \<Rightarrow> Vector \<Rightarrow> bool" where
  "reachable e v \<longleftrightarrow>
     \<not> (en_consumed e (v_Name v) \<or> v_Name v \<in> set bridgeManaged \<or> reservedVideo (v_Name v)) \<and>
     \<not> (v_Type v = Light \<or> v_Type v = BLOB)"

definition exposed :: "Engine \<Rightarrow> Snapshot \<Rightarrow> string \<Rightarrow> string list" where
  \<comment> \<open>the properties of a device whose vector is exposed\<close>
  "exposed e snap dev =
     filter (\<lambda>vec. case Snapshot_Vector snap dev vec of Some v \<Rightarrow> reachable e v | None \<Rightarrow> False)
       (Properties snap dev)"

definition Supported :: "Engine \<Rightarrow> ('d, string list) kitM" where
  "Supported e = do {
     (ok, _) \<leftarrow> Avail;
     if ok then do {
       snap \<leftarrow> Snap;
       dev \<leftarrow> DeviceName (en_kit e);
       ret (sort (introspect # map (\<lambda>vec. ''INDI:'' @ vec) (exposed e snap dev)))
     }
     else ret [introspect]
   }"

subsection \<open>Documents\<close>

fun ruleName :: "Rule \<Rightarrow> string" where
  "ruleName OneOfMany = ''OneOfMany''"
| "ruleName AtMostOne = ''AtMostOne''"
| "ruleName AnyOfMany = ''AnyOfMany''"

definition member_doc :: "VType \<Rightarrow> Member \<Rightarrow> f64 json" where
  "member_doc t m = JObj
     ([(''name'', JStr (m_Name m))] @
      (if m_Label m \<noteq> [] then [(''label'', JStr (m_Label m))] else []) @
      (case t of
         Number \<Rightarrow> [(''value'', JNum (m_Value m))] @
           (if m_HasRange m then [(''min'', JNum (m_Min m)), (''max'', JNum (m_Max m)), (''step'', JNum (m_Step m))] else []) @
           (if m_Format m \<noteq> [] then [(''format'', JStr (m_Format m))] else [])
       | Switch \<Rightarrow> [(''on'', JBool (m_On m))]
       | Text \<Rightarrow> [(''text'', JStr (m_Text m))]
       | _ \<Rightarrow> []))"

definition propertyDoc :: "Vector \<Rightarrow> f64 json" where
  "propertyDoc v = JObj
     ([(''name'', JStr (v_Name v)), (''type'', JStr (VType_String (v_Type v))),
       (''state'', JStr (State_String (v_State v))), (''perm'', JStr (Perm_String (v_Perm v)))] @
      (if v_Label v \<noteq> [] then [(''label'', JStr (v_Label v))] else []) @
      (if v_Group v \<noteq> [] then [(''group'', JStr (v_Group v))] else []) @
      (if v_Type v = Switch then [(''rule'', JStr (ruleName (v_Rule v)))] else []) @
      (if v_Message v \<noteq> [] then [(''message'', JStr (v_Message v))] else []) @
      [(''members'', JArr (map (\<lambda>mv. member_doc (v_Type v) (mv_Member mv)) (v_Members v)))])"

definition marshalDoc :: "f64 json \<Rightarrow> AlpacaError + string" where
  "marshalDoc doc =
     (case Marshal doc of
        Inl er \<Rightarrow> Inl (DriverError [Lit ''action encode failed''] [Lit er])
      | Inr b \<Rightarrow> Inr b)"

definition doc_result :: "f64 json \<Rightarrow> string \<times> bool \<times> AlpacaError option" where
  "doc_result doc = (case marshalDoc doc of Inl er \<Rightarrow> ([], True, Some er) | Inr b \<Rightarrow> (b, True, None))"

definition introspect_tree :: "Engine \<Rightarrow> Snapshot \<Rightarrow> string \<Rightarrow> f64 json" where
  "introspect_tree e snap dev =
     JObj (map (\<lambda>vec. (vec, propertyDoc (the (Snapshot_Vector snap dev vec)))) (exposed e snap dev))"

definition introspectDoc :: "Engine \<Rightarrow> ('d, string \<times> bool \<times> AlpacaError option) kitM" where
  "introspectDoc e = do {
     snap \<leftarrow> Snap;
     dev \<leftarrow> DeviceName (en_kit e);
     ret (doc_result (introspect_tree e snap dev))
   }"

subsection \<open>Writing\<close>

definition bad :: "Vector \<Rightarrow> msg \<Rightarrow> AlpacaError" where
  "bad v m = InvalidValue (Lit (''INDI:'' @ v_Name v) # m)"

fun number_values :: "Vector \<Rightarrow> string json gomap \<Rightarrow> AlpacaError + f64 gomap" where
  "number_values v [] = Inr []"
| "number_values v ((name, rv) # raw) =
     (case unmarshal_float rv of
        None \<Rightarrow> Inl (bad v [Lit '' member '', FmtQ name, Lit '' wants a JSON number''])
      | Some f \<Rightarrow>
          let m = MemberOrZero v name in
          if out_of_range m f then
            Inl (bad v [Lit ('' member '' @ name @ '' ''), FmtG f, Lit '' is outside the driver's range '',
              FmtG (m_Min m), Lit '' to '', FmtG (m_Max m)])
          else (case number_values v raw of Inl er \<Rightarrow> Inl er | Inr vals \<Rightarrow> Inr ((name, f) # vals)))"

fun switch_values :: "Vector \<Rightarrow> string json gomap \<Rightarrow> AlpacaError + string list \<times> string list" where
  "switch_values v [] = Inr ([], [])"
| "switch_values v ((name, rv) # raw) =
     (case unmarshal_bool rv of
        None \<Rightarrow> Inl (bad v [Lit '' member '', FmtQ name, Lit '' wants a JSON bool''])
      | Some b \<Rightarrow> (case switch_values v raw of Inl er \<Rightarrow> Inl er
          | Inr (on, off) \<Rightarrow> Inr (if b then (name # on, off) else (on, name # off))))"

fun text_values :: "Vector \<Rightarrow> string json gomap \<Rightarrow> AlpacaError + string gomap" where
  "text_values v [] = Inr []"
| "text_values v ((name, rv) # raw) =
     (case unmarshal_string rv of
        None \<Rightarrow> Inl (bad v [Lit '' member '', FmtQ name, Lit '' wants a JSON string''])
      | Some s \<Rightarrow> (case text_values v raw of Inl er \<Rightarrow> Inl er | Inr vals \<Rightarrow> Inr ((name, s) # vals)))"

definition write_raw :: "Engine \<Rightarrow> Vector \<Rightarrow> string json gomap \<Rightarrow> ('d, AlpacaError option) kitM" where
  "write_raw e v raw =
     (if raw = [] then ret (Some (bad v [Lit '' Parameters names no members'']))
      else (case find (\<lambda>(name, _). Vector_Member v name = None) raw of
        Some (name, _) \<Rightarrow> ret (Some (bad v [Lit '' has no member '', FmtQ name]))
      | None \<Rightarrow>
        (case v_Type v of
           Number \<Rightarrow> (case number_values v raw of Inl er \<Rightarrow> ret (Some er)
             | Inr vals \<Rightarrow> SendNumber (en_kit e) (v_Name v) vals)
         | Switch \<Rightarrow> (case switch_values v raw of Inl er \<Rightarrow> ret (Some er)
             | Inr (on, off) \<Rightarrow> SendSwitch (en_kit e) (v_Name v) (sort on) (sort off))
         | Text \<Rightarrow> (case text_values v raw of Inl er \<Rightarrow> ret (Some er)
             | Inr vals \<Rightarrow> SendText (en_kit e) (v_Name v) vals)
         | _ \<Rightarrow> ret (Some (InvalidOperation [Lit (''INDI:'' @ v_Name v @ '' is not writable'')])))))"

definition engine_write :: "Engine \<Rightarrow> Vector \<Rightarrow> string \<Rightarrow> ('d, AlpacaError option) kitM" where
  "engine_write e v params =
     (if v_Perm v = ReadOnly then
        ret (Some (InvalidOperation [Lit (''INDI:'' @ v_Name v @ '' is read-only (IP_RO)'')]))
      else (case Option.bind (json_parse params) unmarshal_map of
        None \<Rightarrow> ret (Some (bad v [Lit '' Parameters must be a JSON object of member name to value: '', FmtErr]))
      | Some raw \<Rightarrow> write_raw e v raw))"

text \<open>The result, whether the name is an action of the engine, and the error.\<close>

definition engine_do :: "Engine \<Rightarrow> string \<Rightarrow> string \<Rightarrow> ('d, string \<times> bool \<times> AlpacaError option) kitM" where
  "engine_do e name params =
     (if \<not> HasPrefix name ''INDI:'' then ret ([], False, None)
      else do {
        (ok, reason) \<leftarrow> Avail;
        if \<not> ok then ret ([], True, Some (NotConnected reason))
        else if name = introspect then introspectDoc e
        else do {
          snap \<leftarrow> Snap;
          dev \<leftarrow> DeviceName (en_kit e);
          (case Snapshot_Vector snap dev (drop 5 name) of
             None \<Rightarrow> ret ([], False, None)
           | Some v \<Rightarrow>
             if \<not> reachable e v then ret ([], False, None)
             else if TrimSpace params = [] then ret (doc_result (propertyDoc v))
             else do {
               er \<leftarrow> engine_write e v params;
               (case er of
                  Some x \<Rightarrow> ret ([], True, Some x)
                | None \<Rightarrow> do {
                    snap' \<leftarrow> Snap;
                    dev' \<leftarrow> DeviceName (en_kit e);
                    ret (doc_result (propertyDoc
                      (case Snapshot_Vector snap' dev' (drop 5 name) of Some cur \<Rightarrow> cur | None \<Rightarrow> v)))
                  })
             })
        }
      })"

text \<open>A device's \<^verbatim>\<open>Action\<close>: the engine's answer if it handles the name, else the base device's, which
  belongs to the goalpaca library.\<close>

definition device_action ::
  "Engine \<Rightarrow> (string \<Rightarrow> string \<Rightarrow> string \<times> AlpacaError option) \<Rightarrow> string \<Rightarrow> string
    \<Rightarrow> ('d, string \<times> AlpacaError option) kitM" where
  "device_action e base name params = do {
     (res, handled, er) \<leftarrow> engine_do e name params;
     ret (if handled then (res, er) else base name params)
   }"

subsection \<open>What a write may send\<close>

fun is_fin :: "f64 \<Rightarrow> bool" where
  "is_fin (Fin _) = True"
| "is_fin _ = False"

text \<open>A command that fits a vector: it names the vector's members only, with values of its type, and
  its numbers are finite and not outside a declared range.\<close>

fun cmd_fits :: "Vector \<Rightarrow> Cmd \<Rightarrow> bool" where
  "cmd_fits v (CNumber dev vec vals) \<longleftrightarrow> vec = v_Name v \<and> v_Type v = Number \<and> vals \<noteq> [] \<and>
     list_all (\<lambda>(n, x). Vector_Member v n \<noteq> None \<and> is_fin x \<and> in_limits (MemberOrZero v n) x) vals"
| "cmd_fits v (CSwitch dev vec on off) \<longleftrightarrow> vec = v_Name v \<and> v_Type v = Switch \<and> on @ off \<noteq> [] \<and>
     list_all (\<lambda>n. Vector_Member v n \<noteq> None) (on @ off)"
| "cmd_fits v (CText dev vec vals) \<longleftrightarrow> vec = v_Name v \<and> v_Type v = Text \<and> vals \<noteq> [] \<and>
     list_all (\<lambda>(n, _). Vector_Member v n \<noteq> None) vals"

text \<open>The errors that promise that nothing was sent.\<close>

definition refused :: "AlpacaError option \<Rightarrow> bool" where
  "refused er \<longleftrightarrow> map_option ErrNumber er \<in> {Some ErrNumInvalidValue, Some ErrNumInvalidOperation}"

definition values_from :: "(string json \<Rightarrow> 'a option) \<Rightarrow> string json gomap \<Rightarrow> 'a gomap \<Rightarrow> bool" where
  \<comment> \<open>each value is what its raw value unmarshals to\<close>
  "values_from f raw vals \<longleftrightarrow> list_all2 (\<lambda>(n, rv) (n', x). n = n' \<and> f rv = Some x) raw vals"

lemma values_from_keys: "values_from f raw vals \<Longrightarrow> map fst vals = map fst raw"
  unfolding values_from_def by (induction raw vals rule: list_all2_induct) auto

lemma values_from_in: "values_from f raw vals \<Longrightarrow> (n, x) \<in> set vals \<Longrightarrow> \<exists>rv. (n, rv) \<in> set raw \<and> f rv = Some x"
  unfolding values_from_def by (induction raw vals rule: list_all2_induct) auto

lemma number_values_Inr:
  "number_values v raw = Inr vals \<Longrightarrow>
    values_from unmarshal_float raw vals \<and> (\<forall>(n, x) \<in> set vals. in_limits (MemberOrZero v n) x)"
proof (induction raw arbitrary: vals)
  case (Cons m raw)
  obtain n rv where m: "m = (n, rv)" by fastforce
  show ?case
    using Cons.prems Cons.IH unfolding m
    by (auto simp: values_from_def Let_def not_out_of_range split: option.splits sum.splits if_splits)
qed (simp add: values_from_def)

lemma switch_values_Inr:
  "switch_values v raw = Inr (on, off) \<Longrightarrow> fst ` set raw = set on \<union> set off"
proof (induction raw arbitrary: on off)
  case (Cons m raw)
  obtain n rv where m: "m = (n, rv)" by fastforce
  obtain b on' off' where "switch_values v raw = Inr (on', off')"
      "(if b then (n # on', off') else (on', n # off')) = (on, off)"
    using Cons.prems unfolding m by (auto split: option.splits sum.splits)
  then show ?case using Cons.IH [of on' off'] by (cases b) (auto simp: m)
qed simp

lemma text_values_Inr: "text_values v raw = Inr vals \<Longrightarrow> values_from unmarshal_string raw vals"
proof (induction raw arbitrary: vals)
  case (Cons m raw)
  obtain n rv where m: "m = (n, rv)" by fastforce
  show ?case
    using Cons.prems Cons.IH unfolding m by (auto simp: values_from_def split: option.splits sum.splits)
qed (simp add: values_from_def)

lemma values_refused:
  "number_values v raw = Inl er \<Longrightarrow> refused (Some er)"
  "switch_values v raw = Inl er \<Longrightarrow> refused (Some er)"
  "text_values v raw = Inl er \<Longrightarrow> refused (Some er)"
  by ((induction v raw rule: number_values.induct; auto simp: Let_def refused_def bad_def InvalidValue_def split: option.splits sum.splits if_splits),
      (induction v raw rule: switch_values.induct; auto simp: refused_def bad_def InvalidValue_def split: option.splits sum.splits),
      (induction v raw rule: text_values.induct; auto simp: refused_def bad_def InvalidValue_def split: option.splits sum.splits))

lemma not_refused_send: "\<not> refused (sendErr y)"
  by (cases y rule: sendErr.cases) (auto simp: refused_def NotConnected_def DriverError_def)

text \<open>The outcome of a write: one fitting command whose failure is not a refusal, or nothing.\<close>

definition write_outcome :: "Vector \<Rightarrow> 'd Env \<Rightarrow> AlpacaError option \<times> 'd Env \<Rightarrow> bool" where
  "write_outcome v e r \<longleftrightarrow> e_clock e \<le> e_clock (snd r) \<and> e_world (snd r) = e_world e \<and>
     (e_sent (snd r) = e_sent e \<and> fst r \<noteq> None \<or>
      (\<exists>cmd. cmd_fits v cmd \<and> e_sent (snd r) = e_sent e @ [cmd] \<and> \<not> refused (fst r)))"

lemma outcome_refuse: "write_outcome v e (Some er, e)"
  by (simp add: write_outcome_def)

lemma outcome_send:
  assumes "\<And>dev. cmd_fits v (CNumber dev vec vals)"
  shows "write_outcome v e (run_state (SendNumber k vec vals) e)"
  using assms by (simp add: write_outcome_def run_send not_refused_send)

lemma outcome_switch:
  assumes "\<And>dev. cmd_fits v (CSwitch dev vec on off)"
  shows "write_outcome v e (run_state (SendSwitch k vec on off) e)"
  using assms by (simp add: write_outcome_def run_send not_refused_send)

lemma outcome_text:
  assumes "\<And>dev. cmd_fits v (CText dev vec vals)"
  shows "write_outcome v e (run_state (SendText k vec vals) e)"
  using assms by (simp add: write_outcome_def run_send not_refused_send)

lemma write_raw_outcome:
  assumes "\<And>name rv. (name, rv) \<in> set raw \<Longrightarrow> literals_ok rv"
  shows "write_outcome v env (run_state (write_raw e v raw) env)"
proof (cases "raw = [] \<or> find (\<lambda>(name, _). Vector_Member v name = None) raw \<noteq> None")
  case True
  then show ?thesis
    by (auto simp: write_raw_def write_outcome_def split: prod.splits)
next
  case False
  then have members: "find (\<lambda>(name, _). Vector_Member v name = None) raw = None" and ne: "raw \<noteq> []"
    and known: "\<And>n. n \<in> set (map fst raw) \<Longrightarrow> Vector_Member v n \<noteq> None"
    by (auto simp: find_None_iff)
  show ?thesis
  proof (cases "v_Type v")
    case Number
    show ?thesis
    proof (cases "number_values v raw")
      case (Inr vals)
      note n = number_values_Inr [OF Inr]
      have "is_fin x \<and> Vector_Member v m \<noteq> None \<and> in_limits (MemberOrZero v m) x"
        if mx: "(m, x) \<in> set vals" for m x
      proof -
        obtain rv where rv: "(m, rv) \<in> set raw" "unmarshal_float rv = Some x"
          using values_from_in [OF conjunct1 [OF n] mx] by blast
        then obtain y where "x = Fin y" using unmarshal_float_finite [OF assms] by blast
        then have "is_fin x" by simp
        moreover have "m \<in> set (map fst raw)" using rv(1) by force
        moreover have "in_limits (MemberOrZero v m) x" using n mx by auto
        ultimately show ?thesis using known by simp
      qed
      moreover have "vals \<noteq> []" using values_from_keys [of unmarshal_float raw vals] n ne by auto
      ultimately have "\<And>dev. cmd_fits v (CNumber dev (v_Name v) vals)"
        using Number by (auto simp: list_all_iff)
      then show ?thesis using Number members ne Inr outcome_send [of v "v_Name v" vals env] by (simp add: write_raw_def)
    qed (use Number members ne in \<open>simp add: write_raw_def outcome_refuse\<close>)
  next
    case Switch
    show ?thesis
    proof (cases "switch_values v raw")
      case (Inr r)
      obtain on off where r: "r = (on, off)" by fastforce
      have names: "set (map fst raw) = set on \<union> set off" using switch_values_Inr [OF Inr [unfolded r]] by simp
      then have "set on \<union> set off \<noteq> {}" using ne by (metis set_empty Nil_is_map_conv)
      then have "sort on @ sort off \<noteq> []" by (auto simp: sort_empty)
      then have "\<And>dev. cmd_fits v (CSwitch dev (v_Name v) (sort on) (sort off))"
        using Switch known names by (simp add: list_all_iff)
      then show ?thesis
        using Switch members ne Inr r outcome_switch [of v "v_Name v" "sort on" "sort off" env] by (simp add: write_raw_def)
    qed (use Switch members ne in \<open>simp add: write_raw_def outcome_refuse\<close>)
  next
    case Text
    show ?thesis
    proof (cases "text_values v raw")
      case (Inr vals)
      note keys = values_from_keys [OF text_values_Inr [OF Inr]]
      then have "vals \<noteq> []" using ne by auto
      moreover have "Vector_Member v m \<noteq> None" if "(m, x) \<in> set vals" for m x
      proof (rule known)
        have "m \<in> set (map fst vals)" using that by force
        then show "m \<in> set (map fst raw)" by (simp only: keys)
      qed
      ultimately have "\<And>dev. cmd_fits v (CText dev (v_Name v) vals)"
        using Text by (auto simp: list_all_iff)
      then show ?thesis using Text members ne Inr outcome_text [of v "v_Name v" vals env] by (simp add: write_raw_def)
    qed (use Text members ne in \<open>simp add: write_raw_def outcome_refuse\<close>)
  qed (use members ne in \<open>simp_all add: write_raw_def outcome_refuse\<close>)
qed

lemma engine_write_outcome: "write_outcome v env (run_state (engine_write e v params) env)"
proof (cases "v_Perm v = ReadOnly \<or> Option.bind (json_parse params) unmarshal_map = None")
  case True
  then show ?thesis by (auto simp: engine_write_def outcome_refuse)
next
  case False
  then obtain j raw where j: "json_parse params = Some j" "unmarshal_map j = Some raw"
    by (auto simp: bind_eq_Some_conv)
  show ?thesis
    using False j write_raw_outcome [of raw v env e] unmarshal_map_literals [OF j]
    by (auto simp: engine_write_def)
qed

lemma not_refused_doc: "refused (snd (snd (doc_result d))) = refused None"
  by (auto simp: doc_result_def marshalDoc_def refused_def DriverError_def split: sum.splits)


text \<open>
  A JSON \<^verbatim>\<open>null\<close> is not a number, but it is accepted as one: writing \<^verbatim>\<open>null\<close> to a number member
  sends the value zero to the driver instead of the promised invalid-value error.
\<close>

theorem null_writes_zero:
  assumes "v_Type v = Number" "v_Perm v \<noteq> ReadOnly" "Vector_Member v ''X'' \<noteq> None"
    "in_limits (MemberOrZero v ''X'') (Fin 0)"
  shows "e_sent (snd (run_state (engine_write e v (''{'' @ [DQUOTE] @ ''X'' @ [DQUOTE] @ '':null}'')) env)) =
    e_sent env @ [CNumber (kit_name (en_kit e) (w_snap (e_world env (e_clock env)))) (v_Name v) [(''X'', Fin 0)]]"
proof -
  have "Option.bind (json_parse (''{'' @ [DQUOTE] @ ''X'' @ [DQUOTE] @ '':null}'')) unmarshal_map = Some [(''X'', JNull)]"
    by code_simp
  then show ?thesis
    using assms by (auto simp: engine_write_def write_raw_def run_send simp flip: not_out_of_range)
qed

theorem null_writes_zero_witness:
  "e_sent (snd (run_state (engine_write \<lparr>en_kit = ''D'', en_consumed = (\<lambda>_. False)\<rparr>
      (def_vector (zero_element\<lparr>e_Name := ''P'', e_Perm := ReadWrite, e_Members := [zero_member\<lparr>m_Name := ''X''\<rparr>]\<rparr>) 1)
      (''{'' @ [DQUOTE] @ ''X'' @ [DQUOTE] @ '':null}'')) demo_env)) =
    e_sent demo_env @ [CNumber ''D'' ''P'' [(''X'', Fin 0)]]"
proof -
  let ?v = "def_vector (zero_element\<lparr>e_Name := ''P'', e_Perm := ReadWrite, e_Members := [zero_member\<lparr>m_Name := ''X''\<rparr>]\<rparr>) 1"
  have v: "v_Type ?v = Number" "v_Perm ?v \<noteq> ReadOnly" "v_Name ?v = ''P''"
    "Vector_Member ?v ''X'' = Some \<lparr>mv_Member = zero_member\<lparr>m_Name := ''X''\<rparr>, mv_Arrived = 1\<rparr>"
    by (simp_all add: def_vector_def zero_element_def Vector_Member_def index_members_def zero_member_def)
  have "kit_name ''D'' s = ''D''" for s by (simp add: kit_name_def)
  with v null_writes_zero [OF v(1,2), of "\<lparr>en_kit = ''D'', en_consumed = (\<lambda>_. False)\<rparr>" demo_env] show ?thesis
    by (simp add: MemberOrZero_def in_limits_def zero_member_def)
qed

text \<open>
  C28: what is listed can be called: while the child serves and nothing changes, an action name is in
  the list of supported actions exactly when the engine handles it.
\<close>

theorem Supported_iff_handled:
  assumes "\<And>i. e_world env i = w" "w_serving w"
  shows "name \<in> set (fst (run_state (Supported e) env)) \<longleftrightarrow>
    fst (snd (fst (run_state (engine_do e name params) env)))"
proof -
  define snap where "snap = w_snap w"
  define dev where "dev = kit_name (en_kit e) snap"
  have lookup: "vec \<in> set (exposed e snap dev) \<longleftrightarrow>
      (\<exists>v. Snapshot_Vector snap dev vec = Some v \<and> reachable e v)" for vec
    by (auto simp: exposed_def Properties_def Snapshot_Vector_def image_iff split: option.splits)
      (metis map_of_SomeD fst_conv)
  have prefixed: "HasPrefix n ''INDI:'' \<longleftrightarrow> (\<exists>vec. n = ''INDI:'' @ vec)" for n
    using HasPrefix_append by (blast intro: HasPrefix_appendI)
  have "name \<in> set (fst (run_state (Supported e) env)) \<longleftrightarrow> name = introspect \<or>
      (\<exists>vec \<in> set (exposed e snap dev). name = ''INDI:'' @ vec)"
    using assms by (auto simp: Supported_def Avail_def Snap_def DeviceName_def snap_def dev_def set_insort_key)
  also have "\<dots> \<longleftrightarrow> HasPrefix name ''INDI:'' \<and> (name = introspect \<or> drop 5 name \<in> set (exposed e snap dev))"
    using prefixed [of name] prefixed [of introspect] by (auto simp: introspect_def)
  also have "\<dots> \<longleftrightarrow> fst (snd (fst (run_state (engine_do e name params) env)))"
    unfolding lookup engine_do_def introspectDoc_def
    using assms by (auto simp: Avail_def Snap_def DeviceName_def snap_def dev_def doc_result_def
        split: option.splits sum.splits prod.splits)
  finally show ?thesis .
qed

theorem Supported_iff_handled_witness:
  "''INDI:P'' \<in> set (fst (run_state (Supported \<lparr>en_kit = ''D'', en_consumed = (\<lambda>_. False)\<rparr>) demo_env)) \<longleftrightarrow>
    fst (snd (fst (run_state (engine_do \<lparr>en_kit = ''D'', en_consumed = (\<lambda>_. False)\<rparr> ''INDI:P'' []) demo_env)))"
  by (rule Supported_iff_handled [where w = demo_world]) (simp_all add: demo_env_def demo_lookup)

end
