(* ===== verification/Go_Time.thy ===== *)
theory Go_Time
  imports Go_Convert
begin

text \<open>
  The part of Go's package \<^verbatim>\<open>time\<close> the device types use: dates of the proleptic Gregorian
  calendar, \<^verbatim>\<open>Format\<close> and \<^verbatim>\<open>Parse\<close> with the layouts of
  \<^verbatim>\<open>internal/devtype/telescope/convert.go\<close>.

  A time is the number of nanoseconds since the first instant of the year 1, Go's zero time; a day is
  numbered from the first of January of that year.
\<close>

subsection \<open>The calendar\<close>

definition leap :: "int \<Rightarrow> bool" where
  "leap y \<longleftrightarrow> y mod 4 = 0 \<and> (y mod 100 \<noteq> 0 \<or> y mod 400 = 0)"

definition month_lengths :: "bool \<Rightarrow> nat list" where
  "month_lengths lp = [31, if lp then 29 else 28, 31, 30, 31, 30, 31, 31, 30, 31, 30, 31]"

fun month_day :: "nat list \<Rightarrow> nat \<Rightarrow> nat \<Rightarrow> nat \<times> nat" where
  "month_day [] m d = (m, d)"
| "month_day (l # ls) m d = (if d < l then (m, d) else month_day ls (Suc m) (d - l))"

text \<open>Year, month and day of a day.\<close>

definition civil :: "int \<Rightarrow> int \<times> nat \<times> nat" where
  "civil days =
     (let n400 = days div 146097; r = days mod 146097;
          n100 = min 3 (r div 36524); r = r - n100 * 36524;
          n4 = r div 1461; r = r mod 1461;
          n1 = min 3 (r div 365);
          y = 400 * n400 + 100 * n100 + 4 * n4 + n1 + 1;
          (m, d) = month_day (month_lengths (leap y)) 1 (nat (r - n1 * 365))
      in (y, m, d + 1))"

definition day_number :: "int \<Rightarrow> nat \<Rightarrow> nat \<Rightarrow> int" where
  "day_number y m d =
     365 * (y - 1) + (y - 1) div 4 - (y - 1) div 100 + (y - 1) div 400 +
     int (sum_list (take (m - 1) (month_lengths (leap y)))) + int d - 1"

definition days_in :: "nat \<Rightarrow> int \<Rightarrow> nat" where
  "days_in m y = month_lengths (leap y) ! (m - 1)"

definition valid_date :: "int \<Rightarrow> nat \<Rightarrow> nat \<Rightarrow> bool" where
  "valid_date y m d \<longleftrightarrow> 1 \<le> m \<and> m \<le> 12 \<and> 1 \<le> d \<and> d \<le> days_in m y"

subsection \<open>Format\<close>

definition padded :: "nat \<Rightarrow> nat \<Rightarrow> string" where
  "padded w n = replicate (w - length (dec n)) (CHR ''0'') @ dec n"

definition padded_year :: "int \<Rightarrow> string" where
  "padded_year y = (if y < 0 then CHR ''-'' # padded 4 (nat (- y)) else padded 4 (nat y))"

definition seconds :: "int \<Rightarrow> int" where "seconds t = t div 10 ^ 9"

definition year_of :: "int \<Rightarrow> int" where "year_of t = fst (civil (seconds t div 86400))"

text \<open>The layout \<^verbatim>\<open>2006-01-02T15:04:05\<close> in UTC.\<close>

definition format_utc :: "int \<Rightarrow> string" where
  "format_utc t =
     (let (y, m, d) = civil (seconds t div 86400); s = nat (seconds t mod 86400)
      in padded_year y @ ''-'' @ padded 2 m @ ''-'' @ padded 2 d @ ''T'' @
         padded 2 (s div 3600) @ '':'' @ padded 2 (s div 60 mod 60) @ '':'' @ padded 2 (s mod 60))"

text \<open>The layout \<^verbatim>\<open>2006-01-02T15:04:05.000Z\<close>: milliseconds, truncated.\<close>

definition format_utc_ms :: "int \<Rightarrow> string" where
  "format_utc_ms t = format_utc t @ ''.'' @ padded 3 (nat (t mod 10 ^ 9 div 10 ^ 6)) @ ''Z''"

subsection \<open>Parse\<close>

text \<open>\<^verbatim>\<open>getnum\<close>: two digits, or one where the layout allows it.\<close>

fun getnum :: "bool \<Rightarrow> string \<Rightarrow> (nat \<times> string) option" where
  "getnum fixed (a # b # s) =
     (if \<not> is_digit a then None
      else if is_digit b then Some (10 * digit_val a + digit_val b, s)
      else if fixed then None else Some (digit_val a, b # s))"
| "getnum fixed [a] = (if \<not> is_digit a \<or> fixed then None else Some (digit_val a, []))"
| "getnum fixed [] = None"

fun skip :: "char \<Rightarrow> string \<Rightarrow> string option" where
  "skip c (d # s) = (if d = c then Some s else None)"
| "skip c [] = None"

text \<open>\<^verbatim>\<open>atoi\<close> of the package accepts a sign and no digits at all.\<close>

definition time_atoi :: "string \<Rightarrow> int option" where
  "time_atoi s = (case strip_sign s of (neg, ds) \<Rightarrow>
     if list_all is_digit ds then Some (if neg then - int (val10 ds) else int (val10 ds)) else None)"

definition commaOrPeriod :: "char \<Rightarrow> bool" where
  "commaOrPeriod c \<longleftrightarrow> c = CHR ''.'' \<or> c = CHR '',''"

text \<open>The nanoseconds of the first \<open>n\<close> bytes of \<open>s\<close>, the separator included.\<close>

definition parseNanoseconds :: "string \<Rightarrow> nat \<Rightarrow> int option" where
  "parseNanoseconds s n =
     (if \<not> commaOrPeriod (hd s) then None
      else let n = min n 10 in
        (case time_atoi (take (n - 1) (tl s)) of
           None \<Rightarrow> None
         | Some ns \<Rightarrow> if ns < 0 then None else Some (ns * 10 ^ (10 - n))))"

text \<open>A fraction of a second the layout does not mention.\<close>

definition extra_fraction :: "string \<Rightarrow> (int \<times> string) option" where
  "extra_fraction s =
     (case s of
        a # b # _ \<Rightarrow>
          if commaOrPeriod a \<and> is_digit b
          then let n = Suc (length (takeWhile is_digit (tl s))) in
            map_option (\<lambda>ns. (ns, drop n s)) (parseNanoseconds s n)
          else Some (0, s)
      | _ \<Rightarrow> Some (0, s))"

text \<open>The zone \<^verbatim>\<open>Z07:00\<close>, in seconds east.\<close>

definition zone :: "string \<Rightarrow> (int \<times> string) option" where
  "zone s =
     (case s of
        CHR ''Z'' # r \<Rightarrow> Some (0, r)
      | sg # h1 # h2 # c # m1 # m2 # r \<Rightarrow>
          if c \<noteq> CHR '':'' then None
          else (case (getnum True [h1, h2], getnum True [m1, m2]) of
              (Some (hr, _), Some (mm, _)) \<Rightarrow>
                if 24 < hr \<or> 60 < mm \<or> (sg \<noteq> CHR ''+'' \<and> sg \<noteq> CHR ''-'') then None
                else let off = int ((hr * 60 + mm) * 60) in Some (if sg = CHR ''-'' then - off else off, r)
            | _ \<Rightarrow> None)
      | _ \<Rightarrow> None)"

text \<open>What follows the seconds in a layout.\<close>

datatype suffix = MillisZ \<comment> \<open>\<^verbatim>\<open>.000Z\<close>\<close> | PlainZ \<comment> \<open>\<^verbatim>\<open>Z\<close>\<close> | Zoned \<comment> \<open>\<^verbatim>\<open>Z07:00\<close>\<close> | Bare

text \<open>Nanoseconds and zone.\<close>

fun parse_suffix :: "suffix \<Rightarrow> string \<Rightarrow> (int \<times> int) option" where
  "parse_suffix MillisZ s =
     (if length s < 4 then None
      else Option.bind (parseNanoseconds s 4) (\<lambda>ns. if drop 4 s = ''Z'' then Some (ns, 0) else None))"
| "parse_suffix PlainZ s =
     Option.bind (extra_fraction s) (\<lambda>(ns, r). if r = ''Z'' then Some (ns, 0) else None)"
| "parse_suffix Zoned s =
     Option.bind (extra_fraction s) (\<lambda>(ns, r). Option.bind (zone r) (\<lambda>(off, r). if r = [] then Some (ns, off) else None))"
| "parse_suffix Bare s =
     Option.bind (extra_fraction s) (\<lambda>(ns, r). if r = [] then Some (ns, 0) else None)"

text \<open>A number followed by a separator.\<close>

definition num_then :: "bool \<Rightarrow> nat \<Rightarrow> nat \<Rightarrow> char option \<Rightarrow> string \<Rightarrow> (nat \<times> string) option" where
  "num_then fixed lo hi sep s =
     Option.bind (getnum fixed s) (\<lambda>(n, r).
       if lo \<le> n \<and> n \<le> hi
       then (case sep of None \<Rightarrow> Some (n, r) | Some c \<Rightarrow> map_option (\<lambda>r. (n, r)) (skip c r))
       else None)"

text \<open>The date and the time of the day, which all layouts share; the day is checked against the month
  after the whole text was parsed.\<close>

definition parse_clock :: "string \<Rightarrow> (nat \<times> string) option" where
  "parse_clock s =
     Option.bind (num_then False 0 23 (Some (CHR '':'')) s) (\<lambda>(h, s).
     Option.bind (num_then True 0 59 (Some (CHR '':'')) s) (\<lambda>(mi, s).
     Option.bind (num_then True 0 59 None s) (\<lambda>(sc, s). Some ((h * 60 + mi) * 60 + sc, s))))"

definition parse_date :: "string \<Rightarrow> ((int \<times> nat \<times> nat) \<times> string) option" where
  "parse_date s =
     (if length s < 4 \<or> \<not> is_digit (hd s) then None
      else Option.bind (time_atoi (take 4 s)) (\<lambda>y.
        Option.bind (skip (CHR ''-'') (drop 4 s)) (\<lambda>s.
        Option.bind (num_then True 1 12 (Some (CHR ''-'')) s) (\<lambda>(m, s).
        Option.bind (num_then True 0 99 (Some (CHR ''T'')) s) (\<lambda>(d, s). Some ((y, m, d), s))))))"

definition parse_time :: "suffix \<Rightarrow> string \<Rightarrow> int option" where
  "parse_time suf s =
     Option.bind (parse_date s) (\<lambda>((y, m, d), s).
     Option.bind (parse_clock s) (\<lambda>(sod, s).
     Option.bind (parse_suffix suf s) (\<lambda>(ns, off).
       if valid_date y m d
       then Some ((day_number y m d * 86400 + int sod - off) * 10 ^ 9 + ns)
       else None)))"


subsection \<open>The calendar is a bijection\<close>

lemma month_day_ok:
  assumes "month_day ls k d = (m, r)" "d < sum_list ls"
  shows "k \<le> m \<and> m < k + length ls \<and> r < ls ! (m - k) \<and> sum_list (take (m - k) ls) + r = d"
  using assms
proof (induction ls k d rule: month_day.induct)
  case (2 l ls k d)
  then show ?case
  proof (cases "d < l")
    case False
    then have "Suc k \<le> m \<and> m < Suc k + length ls \<and> r < ls ! (m - Suc k) \<and> sum_list (take (m - Suc k) ls) + r = d - l"
      using 2 by simp
    moreover from this have "m - k = Suc (m - Suc k)" by linarith
    ultimately show ?thesis using False by auto
  qed simp
qed simp

lemma capped_div:
  fixes x k :: int
  assumes "0 < k" "0 \<le> x"
  shows "0 \<le> min 3 (x div k)" "0 \<le> x - min 3 (x div k) * k" "min 3 (x div k) < 3 \<Longrightarrow> x - min 3 (x div k) * k < k"
proof -
  have d: "0 \<le> x div k" using assms by (simp add: pos_imp_zdiv_nonneg_iff)
  then show "0 \<le> min 3 (x div k)" by simp
  have m: "x div k * k + x mod k = x" "0 \<le> x mod k" "x mod k < k" using assms by simp_all
  have "min 3 (x div k) * k \<le> x div k * k" using assms by (intro mult_right_mono) auto
  then show "0 \<le> x - min 3 (x div k) * k" using m by linarith
  show "x - min 3 (x div k) * k < k" if "min 3 (x div k) < 3"
    using that m by (simp add: minus_div_mult_eq_mod min_def split: if_splits)
qed

lemma mod_at_end: "1 \<le> x \<Longrightarrow> x \<le> k \<Longrightarrow> x mod k = 0 \<longleftrightarrow> x = k" for x k :: int
  by (cases "x = k") auto

lemma cycle_years:
  fixes a b c n :: int
  assumes "0 \<le> b" "b \<le> 3" "0 \<le> c" "c \<le> 24" "0 \<le> n" "n \<le> 3"
  defines "q \<equiv> 400 * a + 100 * b + 4 * c + n"
  shows "q div 4 = 100 * a + 25 * b + c" "q div 100 = 4 * a + b" "q div 400 = a"
    "leap (q + 1) \<longleftrightarrow> n = 3 \<and> (c = 24 \<longrightarrow> b = 3)"
proof -
  have q: "q = n + (100 * a + 25 * b + c) * 4" "q = (4 * c + n) + (4 * a + b) * 100" "q = (100 * b + 4 * c + n) + a * 400"
    by (simp_all add: q_def)
  show "q div 4 = 100 * a + 25 * b + c" using assms by (subst q(1)) simp
  show "q div 100 = 4 * a + b" using assms by (subst q(2)) simp
  show "q div 400 = a" using assms by (subst q(3)) simp
  have m: "(q + 1) mod 4 = (n + 1) mod 4" "(q + 1) mod 100 = (4 * c + n + 1) mod 100" "(q + 1) mod 400 = (100 * b + 4 * c + n + 1) mod 400"
  proof -
    have "q + 1 = (n + 1) + (100 * a + 25 * b + c) * 4" "q + 1 = (4 * c + n + 1) + (4 * a + b) * 100"
      "q + 1 = (100 * b + 4 * c + n + 1) + a * 400"
      by (simp_all add: q_def)
    then show "(q + 1) mod 4 = (n + 1) mod 4" "(q + 1) mod 100 = (4 * c + n + 1) mod 100"
      "(q + 1) mod 400 = (100 * b + 4 * c + n + 1) mod 400"
      by (metis mod_mult_self1)+
  qed
  have four: "(q + 1) mod 4 = 0 \<longleftrightarrow> n = 3"
    using assms(5,6) mod_at_end [of "n + 1" 4] unfolding m by auto
  have hundred: "(q + 1) mod 100 = 0 \<longleftrightarrow> n = 3 \<and> c = 24"
  proof -
    have "4 * c + n + 1 = 100 \<longleftrightarrow> n = 3 \<and> c = 24" using assms(3-6) by presburger
    then show ?thesis using assms(3-6) mod_at_end [of "4 * c + n + 1" 100] unfolding m by simp
  qed
  have "(q + 1) mod 400 = 0 \<longleftrightarrow> n = 3 \<and> c = 24 \<and> b = 3"
  proof -
    have "100 * b + 4 * c + n + 1 = 400 \<longleftrightarrow> n = 3 \<and> c = 24 \<and> b = 3" using assms(1-6) by presburger
    then show ?thesis using assms(1-6) mod_at_end [of "100 * b + 4 * c + n + 1" 400] unfolding m by simp
  qed
  with four hundred show "leap (q + 1) \<longleftrightarrow> n = 3 \<and> (c = 24 \<longrightarrow> b = 3)" by (auto simp: leap_def)
qed

lemma month_lengths_simps [simp]: "length (month_lengths lp) = 12" "sum_list (month_lengths lp) = (if lp then 366 else 365)"
  by (simp_all add: month_lengths_def)

lemma civil_day_number:
  assumes "civil days = (y, m, d)" shows "day_number y m d = days" "valid_date y m d"
proof -
  define a where "a = days div 146097"
  define r0 where "r0 = days mod 146097"
  define b where "b = min 3 (r0 div 36524)"
  define r1 where "r1 = r0 - b * 36524"
  define c where "c = r1 div 1461"
  define r2 where "r2 = r1 mod 1461"
  define n where "n = min 3 (r2 div 365)"
  define r3 where "r3 = r2 - n * 365"
  have r0: "0 \<le> r0" "r0 < 146097" by (simp_all add: r0_def)
  have b: "0 \<le> b" "b \<le> 3" "0 \<le> r1" "r1 \<le> 36524" "b < 3 \<Longrightarrow> r1 < 36524"
    using r0 capped_div [of 36524 r0, folded b_def, folded r1_def] by (auto simp: b_def r1_def)
  have c: "0 \<le> c" "c \<le> 24" "0 \<le> r2" "r2 \<le> 1460" "r1 = 1461 * c + r2"
    using b pos_mod_bound [of 1461 r1] pos_mod_sign [of 1461 r1] div_mult_mod_eq [of r1 1461]
    by (simp_all add: c_def r2_def)
  have n: "0 \<le> n" "n \<le> 3" "0 \<le> r3" "r3 \<le> 365" "r3 = 365 \<Longrightarrow> n = 3 \<and> r2 = 1460"
    using c capped_div [of 365 r2, folded n_def, folded r3_def] by (auto simp: n_def r3_def)
  define q where "q = 400 * a + 100 * b + 4 * c + n"
  note years = cycle_years [OF b(1,2) c(1,2) n(1,2), of a, folded q_def]
  have "civil days = (case month_day (month_lengths (leap (q + 1))) 1 (nat r3) of (m, d) \<Rightarrow> (q + 1, m, d + 1))"
    by (simp only: civil_def Let_def a_def r0_def b_def r1_def c_def r2_def n_def r3_def q_def)
  with assms have y: "y = q + 1" and md: "month_day (month_lengths (leap y)) 1 (nat r3) = (m, d - 1)" and d: "1 \<le> d"
    by (auto split: prod.splits)
  have "leap y" if "r3 = 365" using n(5) [OF that] c(5) b years(4) y by auto
  then have "nat r3 < sum_list (month_lengths (leap y))" using n(3,4) by (cases "r3 = 365") auto
  from month_day_ok [OF md this] have m: "1 \<le> m" "m \<le> 12" "d - 1 < month_lengths (leap y) ! (m - 1)"
    "sum_list (take (m - 1) (month_lengths (leap y))) + (d - 1) = nat r3"
    by simp_all
  then show "valid_date y m d" using d by (simp add: valid_date_def days_in_def)
  have "days = 146097 * a + r0" by (simp add: a_def r0_def)
  then have "days = 146097 * a + 36524 * b + 1461 * c + 365 * n + r3" using c(5) by (simp add: r1_def r3_def)
  moreover have "int (sum_list (take (m - 1) (month_lengths (leap y)))) + int d - 1 = r3" using m(4) n(3) d by linarith
  ultimately show "day_number y m d = days" using years(1-3) by (simp add: day_number_def y q_def)
qed


subsection \<open>What is printed is parsed\<close>

lemma padded_digits:
  assumes "n < 10 ^ Suc k"
  shows "length (padded (Suc k) n) = Suc k" "digits (padded (Suc k) n)" "val10 (padded (Suc k) n) = n"
  using length_dec_le [OF assms] dec_digits [of n] by (auto simp: padded_def val10_append)

lemma padded_two:
  assumes "n < 100"
  obtains a b where "padded 2 n = [a, b]" "is_digit a" "is_digit b" "10 * digit_val a + digit_val b = n"
proof -
  have "length (padded 2 n) = 2" "digits (padded 2 n)" "val10 (padded 2 n) = n"
    using padded_digits [of n 1] assms by (simp_all add: numeral_2_eq_2)
  moreover from this(1) obtain a b where "padded 2 n = [a, b]" by (auto simp: length_Suc_conv numeral_2_eq_2)
  ultimately show ?thesis using that by (simp add: val10_Cons)
qed

lemma getnum_padded: "n < 100 \<Longrightarrow> getnum fixed (padded 2 n @ s) = Some (n, s)"
  by (erule padded_two) simp

lemma num_then_padded [simp]:
  "\<lbrakk>n < 100; lo \<le> n; n \<le> hi\<rbrakk> \<Longrightarrow> num_then fixed lo hi None (padded 2 n @ s) = Some (n, s)"
  "\<lbrakk>n < 100; lo \<le> n; n \<le> hi\<rbrakk> \<Longrightarrow> num_then fixed lo hi (Some c) (padded 2 n @ c # s) = Some (n, s)"
  by (simp_all add: num_then_def getnum_padded)

lemma digits_no_sign: "digits s \<Longrightarrow> strip_sign s = (False, s)"
  by (cases s) (auto simp: strip_sign_def is_digit_def byte_between_def split: if_splits)

lemma time_atoi_digits: "digits s \<Longrightarrow> time_atoi s = Some (int (val10 s))"
  by (simp add: time_atoi_def digits_no_sign)

lemma parse_date_printed:
  assumes "0 \<le> y" "y < 10000" "valid_date y m d"
  shows "parse_date (padded_year y @ ''-'' @ padded 2 m @ ''-'' @ padded 2 d @ ''T'' @ s) = Some ((y, m, d), s)"
proof -
  have y: "length (padded 4 (nat y)) = 4" "digits (padded 4 (nat y))" "val10 (padded 4 (nat y)) = nat y"
    using padded_digits [of "nat y" 3] assms by (simp_all add: nat_less_iff)
  then have hd: "is_digit (hd (padded 4 (nat y) @ r))" for r by (cases "padded 4 (nat y)") auto
  have "d \<le> 31" using assms(3) by (auto simp: valid_date_def days_in_def month_lengths_def nth_Cons' split: if_splits)
  then show ?thesis
    using assms y by (simp add: parse_date_def padded_year_def time_atoi_digits hd valid_date_def)
qed

lemma parse_clock_printed:
  assumes "s < 86400"
  shows "parse_clock (padded 2 (s div 3600) @ '':'' @ padded 2 (s div 60 mod 60) @ '':'' @ padded 2 (s mod 60) @ r) = Some (s, r)"
proof -
  have "s div 3600 \<le> 23" "s div 60 mod 60 \<le> 59" "s mod 60 \<le> 59" using assms by simp_all
  moreover have "(s div 3600 * 60 + s div 60 mod 60) * 60 + s mod 60 = s"
    using div_mult2_eq [of s 60 60] by simp
  ultimately show ?thesis by (simp add: parse_clock_def)
qed

lemma parse_time_printed:
  assumes "0 \<le> year_of t" "year_of t < 10000"
  shows "parse_time suf (format_utc t @ r) =
    Option.bind (parse_suffix suf r) (\<lambda>(ns, off). Some ((seconds t - off) * 10 ^ 9 + ns))"
proof -
  obtain y m d where c: "civil (seconds t div 86400) = (y, m, d)" by (metis prod_cases3)
  then have y: "0 \<le> y" "y < 10000" using assms by (simp_all add: year_of_def)
  define s where "s = nat (seconds t mod 86400)"
  have s: "s < 86400" "int s = seconds t mod 86400" by (simp_all add: s_def nat_less_iff)
  have "parse_date (format_utc t @ r) = Some ((y, m, d),
      padded 2 (s div 3600) @ '':'' @ padded 2 (s div 60 mod 60) @ '':'' @ padded 2 (s mod 60) @ r)"
    using parse_date_printed [OF y civil_day_number(2) [OF c]] by (simp add: format_utc_def c Let_def s_def)
  moreover have "day_number y m d * 86400 + int s = seconds t" using civil_day_number(1) [OF c] s(2) by simp
  ultimately show ?thesis
    using parse_clock_printed [OF s(1)] civil_day_number(2) [OF c]
    by (simp add: parse_time_def algebra_simps split: bind_splits prod.splits)
qed

lemma parse_printed_seconds:
  assumes "0 \<le> year_of t" "year_of t < 10000"
  shows "parse_time Bare (format_utc t) = Some (seconds t * 10 ^ 9)"
    "parse_time MillisZ (format_utc t) = None" "parse_time PlainZ (format_utc t) = None" "parse_time Zoned (format_utc t) = None"
  using parse_time_printed [OF assms, of _ "[]"] by (simp_all add: extra_fraction_def zone_def)

lemma parse_printed_ms:
  assumes "0 \<le> year_of t" "year_of t < 10000"
  shows "parse_time MillisZ (format_utc_ms t) = Some (t - t mod 10 ^ 6)"
proof -
  define ms where "ms = nat (t mod 10 ^ 9 div 10 ^ 6)"
  have "0 \<le> t mod 10 ^ 9" "t mod 10 ^ 9 < 10 ^ 9" by simp_all
  then have ms: "ms < 1000" "int ms = t mod 10 ^ 9 div 10 ^ 6" by (auto simp: ms_def nat_less_iff)
  have p: "length (padded 3 ms) = 3" "digits (padded 3 ms)" "val10 (padded 3 ms) = ms"
    using padded_digits [of ms 2] ms by simp_all
  have "parse_suffix MillisZ (''.'' @ padded 3 ms @ ''Z'') = Some (int ms * 10 ^ 6, 0)"
    using p by (simp add: parseNanoseconds_def commaOrPeriod_def time_atoi_digits Let_def)
  moreover have "seconds t * 10 ^ 9 + int ms * 10 ^ 6 = t - t mod 10 ^ 6"
  proof -
    have "t mod 10 ^ 9 mod 10 ^ 6 = t mod 10 ^ 6" by (simp add: mod_mod_cancel)
    then have "int ms * 10 ^ 6 = t mod 10 ^ 9 - t mod 10 ^ 6" using ms(2) by (simp add: minus_mod_eq_div_mult [symmetric])
    then show ?thesis by (simp add: seconds_def minus_mod_eq_div_mult [symmetric])
  qed
  ultimately show ?thesis using parse_time_printed [OF assms, of MillisZ "''.'' @ padded 3 ms @ ''Z''"]
    by (simp add: format_utc_ms_def ms_def)
qed

end
