(* ===== verification/Device_Base.thy ===== *)
theory Device_Base
  imports Action_Engine Go_Time
begin

text \<open>
  What the device types under \<^verbatim>\<open>internal/devtype\<close> share: the in-flight bit of a device used from a
  method, the shape of a method that starts an operation, and the lemmas that follow from the kit
  alone.

  A method runs on the state of its own device; another request on the same device between two
  steps of a method is not modelled, the child and the supervisor move freely between any two
  observations.
\<close>

text \<open>A table row, in the order of the struct's fields.\<close>

abbreviation (input) row :: "BKind \<Rightarrow> string \<Rightarrow> string \<Rightarrow> string \<Rightarrow> string \<Rightarrow> Entry" where
  "row kind vec elem fn why \<equiv> \<lparr>t_Kind = kind, t_Prop = vec, t_Elem = elem, t_Fn = fn, t_Why = why\<rparr>"

text \<open>Characters of the tables outside ASCII.\<close>

abbreviation EMDASH :: string where "EMDASH \<equiv> [CHR 0xE2, CHR 0x80, CHR 0x94]"
abbreviation MINUS :: string where "MINUS \<equiv> [CHR 0xE2, CHR 0x88, CHR 0x92]"
abbreviation TIMES :: string where "TIMES \<equiv> [CHR 0xC3, CHR 0x97]"
abbreviation DIVIDE :: string where "DIVIDE \<equiv> [CHR 0xC3, CHR 0xB7]"

text \<open>An entry of the list of states a device reports at once.\<close>

datatype StateValue = VInt string int | VBool string bool | VFloat string f64

text \<open>The text of an error of the \<^verbatim>\<open>Sender\<close>.\<close>

definition settle_error :: "SendError \<Rightarrow> msg" where
  \<comment> \<open>the error's text\<close>
  "settle_error er = (case er of NotServing reason \<Rightarrow> [Lit (''supervisor: not serving: '' @ reason)] | OtherErr m \<Rightarrow> [Lit m])"

text \<open>The current values of a vector, as the code collects them before it writes the whole vector.\<close>

definition vector_values :: "Vector \<Rightarrow> f64 gomap" where
  "vector_values v = fold (\<lambda>mv. AList.update (m_Name (mv_Member mv)) (m_Value (mv_Member mv))) (v_Members v) []"

text \<open>The timed guide member a direction stands for, the same in the camera and the telescope.\<close>

datatype GuideDirection = GuideNorth | GuideSouth | GuideEast | GuideWest

fun guide_member :: "GuideDirection \<Rightarrow> string \<times> string" where
  "guide_member GuideNorth = (''TELESCOPE_TIMED_GUIDE_NS'', ''TIMED_GUIDE_N'')"
| "guide_member GuideSouth = (''TELESCOPE_TIMED_GUIDE_NS'', ''TIMED_GUIDE_S'')"
| "guide_member GuideEast = (''TELESCOPE_TIMED_GUIDE_WE'', ''TIMED_GUIDE_E'')"
| "guide_member GuideWest = (''TELESCOPE_TIMED_GUIDE_WE'', ''TIMED_GUIDE_W'')"

subsection \<open>What a step keeps\<close>

text \<open>A step that reads: it sends nothing and leaves the device as it was.\<close>

definition reads :: "('d, 'a) kitM \<Rightarrow> bool" where
  "reads m \<longleftrightarrow> (\<forall>e. let e' = snd (run_state m e) in
     e_dev e' = e_dev e \<and> e_sent e' = e_sent e \<and> e_world e' = e_world e \<and> e_clock e \<le> e_clock e')"

text \<open>A step that may send: it leaves the device as it was and only adds commands.\<close>

definition sends :: "('d, 'a) kitM \<Rightarrow> bool" where
  "sends m \<longleftrightarrow> (\<forall>e. let e' = snd (run_state m e) in
     e_dev e' = e_dev e \<and> (\<exists>cs. e_sent e' = e_sent e @ cs) \<and> e_world e' = e_world e \<and> e_clock e \<le> e_clock e')"

named_theorems step_intros \<open>steps that read and steps that send\<close>

lemma reads_ret [step_intros]: "reads (ret x)"
  by (simp add: reads_def)

lemma reads_observe [step_intros]: "reads observe"
  by (simp add: reads_def)

lemma reads_get_dev [step_intros]: "reads get_dev"
  by (simp add: reads_def)

lemma reads_bind [step_intros]:
  assumes "reads m" "\<And>x. reads (f x)" shows "reads (m \<bind> f)"
  unfolding reads_def Let_def
proof
  fix e
  obtain x e1 where m: "run_state m e = (x, e1)" by fastforce
  then have "e_dev e1 = e_dev e \<and> e_sent e1 = e_sent e \<and> e_world e1 = e_world e \<and> e_clock e \<le> e_clock e1"
    using assms(1) by (metis reads_def snd_conv)
  with assms(2) [of x] m show "e_dev (snd (run_state (m \<bind> f) e)) = e_dev e \<and>
      e_sent (snd (run_state (m \<bind> f) e)) = e_sent e \<and> e_world (snd (run_state (m \<bind> f) e)) = e_world e \<and>
      e_clock e \<le> e_clock (snd (run_state (m \<bind> f) e))"
    by (auto simp: reads_def Let_def dest: spec [of _ e1])
qed

lemma reads_sends: "reads m \<Longrightarrow> sends m"
  by (simp add: reads_def sends_def Let_def)

lemma sends_bind:
  assumes "sends m" "\<And>x. sends (f x)" shows "sends (m \<bind> f)"
  unfolding sends_def Let_def
proof
  fix e
  obtain x e1 where m: "run_state m e = (x, e1)" by fastforce
  then obtain cs where "e_dev e1 = e_dev e" "e_sent e1 = e_sent e @ cs" "e_world e1 = e_world e" "e_clock e \<le> e_clock e1"
    using assms(1) by (metis sends_def snd_conv)
  moreover obtain cs' where "e_dev (snd (run_state (f x) e1)) = e_dev e1"
      "e_sent (snd (run_state (f x) e1)) = e_sent e1 @ cs'"
      "e_world (snd (run_state (f x) e1)) = e_world e1" "e_clock e1 \<le> e_clock (snd (run_state (f x) e1))"
    using assms(2) [of x] unfolding sends_def Let_def by blast
  ultimately show "e_dev (snd (run_state (m \<bind> f) e)) = e_dev e \<and>
      (\<exists>cs. e_sent (snd (run_state (m \<bind> f) e)) = e_sent e @ cs) \<and>
      e_world (snd (run_state (m \<bind> f) e)) = e_world e \<and> e_clock e \<le> e_clock (snd (run_state (m \<bind> f) e))"
    using m by simp
qed

lemma reads_kit [step_intros]:
  "reads Avail" "reads Snap" "reads Now" "reads (DeviceName k)" "reads (kit_vector k vec mem)"
  "reads (Kit_Vector k vec)" "reads (kit_lookup k vec)" "reads (Has k vec)" "reads (UpdatedOf k vec)"
  "reads (StateOf k vec)"
  unfolding Avail_def Snap_def Now_def DeviceName_def kit_vector_def Kit_Vector_def kit_lookup_def Has_def
    UpdatedOf_def StateOf_def
  by (auto intro!: step_intros split: prod.splits option.splits)

lemma sends_kit [step_intros]:
  "sends (SendCmd c)" "sends (SendNumber k vec v)" "sends (SendSwitch k vec on off)" "sends (SendText k vec t)"
  "sends (WriteNumber k tbl mem x)" "sends (WriteSwitch k tbl mem)"
proof -
  show c: "sends (SendCmd c)" for c :: Cmd by (simp add: sends_def SendCmd_def)
  show n: "sends (SendNumber k vec v)" for k vec v
    unfolding SendNumber_def by (intro sends_bind reads_sends step_intros c)
  show s: "sends (SendSwitch k vec on off)" for k vec on off
    unfolding SendSwitch_def by (intro sends_bind reads_sends step_intros c)
  show "sends (SendText k vec t)"
    unfolding SendText_def by (intro sends_bind reads_sends step_intros c)
  show "sends (WriteNumber k tbl mem x)"
    unfolding WriteNumber_def
    by (auto intro!: sends_bind reads_sends [OF reads_kit(5)] reads_sends [OF reads_ret] n split: sum.splits option.splits)
  show "sends (WriteSwitch k tbl mem)"
    unfolding WriteSwitch_def
    by (auto intro!: sends_bind reads_sends [OF reads_kit(5)] reads_sends [OF reads_ret] s split: sum.splits)
qed

lemma readsD:
  "reads m \<Longrightarrow> run_state m e = (x, e') \<Longrightarrow>
    e_dev e' = e_dev e \<and> e_sent e' = e_sent e \<and> e_world e' = e_world e \<and> e_clock e \<le> e_clock e'"
  by (metis reads_def snd_conv)

lemma sendsD:
  "sends m \<Longrightarrow> run_state m e = (x, e') \<Longrightarrow>
    e_dev e' = e_dev e \<and> (\<exists>cs. e_sent e' = e_sent e @ cs) \<and> e_world e' = e_world e \<and> e_clock e \<le> e_clock e'"
  by (metis sends_def snd_conv)

subsection \<open>In-flight operations of a device\<close>

text \<open>A device holds in-flight bits in its state: \<open>get\<close> reads one and \<open>upd\<close> changes it. \<^verbatim>\<open>Start\<close> takes the
  time of the instant it runs at.\<close>

type_synonym 'd setter = "(Inflight \<Rightarrow> Inflight) \<Rightarrow> 'd \<Rightarrow> 'd"

definition op_start :: "'d setter \<Rightarrow> ('d, unit) kitM" where
  "op_start upd = do { t \<leftarrow> Now; upd_dev (upd (Inflight_Start t)) }"

definition op_clear :: "'d setter \<Rightarrow> ('d, unit) kitM" where
  "op_clear upd = upd_dev (upd Inflight_Clear)"

definition op_active :: "('d \<Rightarrow> Inflight) \<Rightarrow> 'd setter \<Rightarrow> gotime \<Rightarrow> ('d, bool) kitM" where
  "op_active get upd u = do {
     d \<leftarrow> get_dev;
     (case Inflight_Active u (get d) of (b, i) \<Rightarrow> do { upd_dev (upd (\<lambda>_. i)); ret b })
   }"

text \<open>Start, send, and clear again when the send fails.\<close>

definition started :: "'d setter \<Rightarrow> ('d, AlpacaError option) kitM \<Rightarrow> ('d, AlpacaError option) kitM" where
  "started upd send = do {
     op_start upd;
     r \<leftarrow> send;
     (case r of Some er \<Rightarrow> do { op_clear upd; ret (Some er) } | None \<Rightarrow> ret None)
   }"

text \<open>In progress while the property is Busy or the bit is unacknowledged; losing the child clears
  the bit.\<close>

definition in_progress :: "('d \<Rightarrow> Inflight) \<Rightarrow> 'd setter \<Rightarrow> Kit \<Rightarrow> string \<Rightarrow> ('d, bool) kitM" where
  "in_progress get upd k vec = do {
     (ok, _) \<leftarrow> Avail;
     if \<not> ok then do { op_clear upd; ret False }
     else do {
       st \<leftarrow> StateOf k vec;
       if st = Busy then ret True
       else do { u \<leftarrow> UpdatedOf k vec; op_active get upd u }
     }
   }"

lemma started_run:
  "run_state (started upd send) e =
    (let e0 = e\<lparr>e_clock := Suc (e_clock e), e_dev := upd (Inflight_Start (w_time (e_world e (e_clock e)))) (e_dev e)\<rparr>
     in case run_state send e0 of (Some er, e1) \<Rightarrow> (Some er, e1\<lparr>e_dev := upd Inflight_Clear (e_dev e1)\<rparr>) | (None, e1) \<Rightarrow> (None, e1))"
  by (simp add: started_def op_start_def op_clear_def Now_def Let_def split: prod.splits option.splits)

lemma started_cases:
  assumes "run_state (started upd send) e = (r, e')"
  obtains e0 e1 where "run_state send e0 = (r, e1)" "e_sent e0 = e_sent e" "e_world e0 = e_world e"
    "e_clock e0 = Suc (e_clock e)" "e_sent e' = e_sent e1" "e_world e' = e_world e1" "e_clock e' = e_clock e1"
proof -
  define e0 where "e0 = e\<lparr>e_clock := Suc (e_clock e), e_dev := upd (Inflight_Start (w_time (e_world e (e_clock e)))) (e_dev e)\<rparr>"
  obtain r1 e1 where r1: "run_state send e0 = (r1, e1)" by fastforce
  then show ?thesis
    using assms that [of e0 e1] by (cases r1) (auto simp: started_run Let_def e0_def)
qed

text \<open>What a successful start and a successful write did.\<close>

lemma started_None:
  assumes "run_state (started upd send) e = (None, e')"
  obtains e0 where "run_state send e0 = (None, e')" "e_sent e0 = e_sent e" "e_world e0 = e_world e"
    "e_clock e0 = Suc (e_clock e)"
  using assms by (auto simp: started_def op_start_def op_clear_def Now_def split: prod.splits option.splits)

lemma WriteNumber_None:
  assumes "run_state (WriteNumber k tbl mem x) e = (None, e')" "mapped tbl mem = Inr en"
  shows "\<exists>dev. e_sent e' = e_sent e @ [CNumber dev (t_Prop en) [(t_Elem en, x)]]"
proof -
  obtain r e1 where r: "run_state (kit_vector k (t_Prop en) mem) e = (r, e1)" by fastforce
  with assms obtain v where v: "r = Inr v" by (auto simp: WriteNumber_def split: sum.splits)
  have "run_state (SendNumber k (t_Prop en) [(t_Elem en, x)]) e1 = (None, e')"
    using assms r v by (auto simp: WriteNumber_def split: option.splits if_splits)
  then show ?thesis using kit_vector_quiet [OF r] by (auto simp: run_send)
qed

lemma WriteNumber_sent:
  assumes "run_state (WriteNumber k tbl mem x) e = (r, e')" "mapped tbl mem = Inr en"
  shows "r \<noteq> None \<and> e_sent e' = e_sent e \<or>
    (\<exists>dev. e_sent e' = e_sent e @ [CNumber dev (t_Prop en) [(t_Elem en, x)]]) \<and> \<not> refused r"
proof -
  obtain rv e1 where rv: "run_state (kit_vector k (t_Prop en) mem) e = (rv, e1)" by fastforce
  have "(\<exists>er. (r, e') = (Some er, e1)) \<or> run_state (SendNumber k (t_Prop en) [(t_Elem en, x)]) e1 = (r, e')"
    using assms rv by (auto simp: WriteNumber_def split: sum.splits option.splits if_splits)
  then show ?thesis using kit_vector_quiet [OF rv] by (auto simp: run_send not_refused_send)
qed

text \<open>The update time of a vector at an instant, as \<^const>\<open>UpdatedOf\<close> computes it.\<close>

definition updated_at :: "Kit \<Rightarrow> World \<Rightarrow> string \<Rightarrow> gotime" where
  "updated_at k w vec = (case Snapshot_Vector (w_snap w) (kit_name k (w_snap w)) vec of
     Some v \<Rightarrow> v_Updated v | None \<Rightarrow> 0)"

lemma run_UpdatedOf:
  "run_state (UpdatedOf k vec) e =
    (if w_serving (e_world e (e_clock e))
     then (updated_at k (e_world e (Suc (e_clock e))) vec, e\<lparr>e_clock := e_clock e + 2\<rparr>)
     else (0, e\<lparr>e_clock := Suc (e_clock e)\<rparr>))"
  by (simp add: UpdatedOf_def kit_lookup_def Avail_def Snap_def updated_at_def)

lemma run_StateOf:
  "run_state (StateOf k vec) e =
    (if w_serving (e_world e (e_clock e))
     then (case Snapshot_Vector (w_snap (e_world e (Suc (e_clock e)))) (kit_name k (w_snap (e_world e (Suc (e_clock e))))) vec of
         Some v \<Rightarrow> v_State v | None \<Rightarrow> Idle, e\<lparr>e_clock := e_clock e + 2\<rparr>)
     else (Idle, e\<lparr>e_clock := Suc (e_clock e)\<rparr>))"
  by (simp add: StateOf_def kit_lookup_def Avail_def Snap_def)

text \<open>
  The contract of such a bit: what was put is read back. From it follows that a started operation is
  recorded with the time of its start, and that it is not reported finished before the child stopped
  serving or the vector was updated after the start.
\<close>

locale inflight_bit =
  fixes get :: "'d \<Rightarrow> Inflight" and upd :: "'d setter"
  assumes get_upd: "get (upd f d) = f (get d)"
begin

lemma started_marks:
  assumes "run_state (started upd send) e = (None, e')" "sends send"
  shows "i_active (get (e_dev e'))" "i_at (get (e_dev e')) = w_time (e_world e (e_clock e))"
    "e_world e' = e_world e"
proof -
  define e1 where "e1 = e\<lparr>e_clock := Suc (e_clock e), e_dev := upd (Inflight_Start (w_time (e_world e (e_clock e)))) (e_dev e)\<rparr>"
  obtain r e2 where s: "run_state send e1 = (r, e2)" by fastforce
  then have "r = None \<and> e' = e2"
    using assms(1) by (auto simp: started_def op_start_def op_clear_def Now_def e1_def split: option.splits)
  with sendsD [OF assms(2) s] show "i_active (get (e_dev e'))" "i_at (get (e_dev e')) = w_time (e_world e (e_clock e))"
    "e_world e' = e_world e"
    by (auto simp: e1_def get_upd Inflight_Start_def)
qed

lemma poll_finished:
  assumes "run_state (in_progress get upd k vec) e = (False, e')" "i_active (get (e_dev e))"
  shows "\<exists>i. during e e' i \<and>
    (\<not> w_serving (e_world e i) \<or> i_at (get (e_dev e)) < updated_at k (e_world e i) vec)"
proof (cases "w_serving (e_world e (e_clock e)) \<and> w_serving (e_world e (e_clock e + 1)) \<and> w_serving (e_world e (e_clock e + 3))")
  case True
  then have "i_at (get (e_dev e)) < updated_at k (e_world e (e_clock e + 4)) vec \<and> e_clock e' = e_clock e + 5"
    using assms by (auto simp: in_progress_def Avail_def run_StateOf run_UpdatedOf op_active_def Inflight_Active_def
        numeral_eq_Suc split: if_splits option.splits)
  then show ?thesis by (intro exI [of _ "e_clock e + 4"]) (simp add: during_def)
next
  case False
  then show ?thesis
    using assms by (auto simp: in_progress_def Avail_def run_StateOf run_UpdatedOf op_active_def Inflight_Active_def
        op_clear_def during_def numeral_eq_Suc split: if_splits option.splits intro: exI [of _ "e_clock e"] exI [of _ "Suc (e_clock e)"]
        exI [of _ "Suc (Suc (Suc (e_clock e)))"])
qed

text \<open>Polling keeps the bit until it answers that the operation is over.\<close>

lemma poll_keeps:
  assumes "run_state (in_progress get upd k vec) e = (True, e')"
  shows "get (e_dev e') = get (e_dev e)"
  using assms
  by (auto simp: in_progress_def Avail_def run_StateOf run_UpdatedOf op_active_def Inflight_Active_def op_clear_def get_upd
      split: if_splits option.splits prod.splits)

end

subsection \<open>A world that stands still\<close>

lemma serves_lookup:
  "serves k w vec v \<Longrightarrow> s_valid (w_snap w) \<and> Snapshot_Vector (w_snap w) (kit_name k (w_snap w)) vec = Some v"
  by (simp add: serves_def)

text \<open>Reading in a world that stands still.\<close>

lemma still_reads:
  assumes "\<And>i. e_world e i = w" "w_serving w" "serves k w vec v"
  shows "run_state (StateOf k vec) e = (v_State v, e\<lparr>e_clock := e_clock e + 2\<rparr>)"
    "run_state (UpdatedOf k vec) e = (v_Updated v, e\<lparr>e_clock := e_clock e + 2\<rparr>)"
    "run_state (Kit_Vector k vec) e = (Inr v, e\<lparr>e_clock := Suc (Suc (e_clock e))\<rparr>)"
  using assms by (simp_all add: run_StateOf run_UpdatedOf updated_at_def Kit_Vector_def run_kit_vector serves_def)

text \<open>A world that stands still with the properties given.\<close>

definition sample_vector :: "string \<Rightarrow> State \<Rightarrow> Member list \<Rightarrow> Vector" where
  "sample_vector vec st ms = def_vector (zero_element\<lparr>e_Name := vec, e_Device := ''C'', e_State := st, e_Members := ms\<rparr>) 5"

definition sample_env :: "Vector gomap \<Rightarrow> 'd \<Rightarrow> 'd Env" where
  "sample_env vs d = \<lparr>e_world = (\<lambda>_. \<lparr>w_snap = \<lparr>s_gen = 2, s_valid = True, s_devices = [(''C'', vs)]\<rparr>,
       w_serving = True, w_reason = [], w_time = 9, w_send = None, w_update = None, w_settle = Inr (Ok, [])\<rparr>),
     e_clock = 0, e_sent = [], e_dev = d\<rparr>"

lemma sample_env_simps [simp]:
  "w_serving (e_world (sample_env vs d) i)" "e_dev (sample_env vs d) = d" "e_sent (sample_env vs d) = []"
  by (simp_all add: sample_env_def)

lemma sample_env_still: "e_world (sample_env vs d) i = e_world (sample_env vs d) 0"
  by (simp add: sample_env_def)

lemma sample_env_serves: "map_of vs vec = Some v \<Longrightarrow> serves ''C'' (e_world (sample_env vs d) i) vec v"
  by (simp add: sample_env_def serves_def Snapshot_Vector_def props_of_def kit_name_def)

lemma sample_vector_member: "Vector_Member (sample_vector vec st [m]) (m_Name m) = Some \<lparr>mv_Member = m\<lparr>m_Data := None\<rparr>, mv_Arrived = 5\<rparr>"
  by (simp add: sample_vector_def def_vector_def Vector_Member_def index_members_def zero_element_def)

end
