(* ===== verification/Device_Switch.thy ===== *)
theory Device_Switch
  imports Device_Base
begin

text \<open>
  The switch device (\<^verbatim>\<open>internal/devtype/switchdev\<close>): the members of some INDI vectors flattened into
  one list of Alpaca switches. The list is pinned: a pair is appended when it is first seen and its
  position is its id from then on.

  \<^verbatim>\<open>sort.Slice\<close> is stable insertion here, on the list in the order the map happens to be iterated in:
  where \<open>natLess\<close> orders two names neither way their order is the map's.
\<close>

definition switch_table :: Table where
  "switch_table =
    [(''MaxSwitch'', row Derived [] [] [] (''count of pinned (property, member) pairs '' @ EMDASH @ '' enumeration pinned on first sight'')),
     (''GetSwitch'', row Func [] [] ''GetSwitch'' []),
     (''SetSwitch'', row Func [] [] ''SetSwitch'' []),
     (''GetSwitchValue'', row Func [] [] ''GetSwitchValue'' ''number member value; a bool switch reports 0/1''),
     (''SetSwitchValue'', row Func [] [] ''SetSwitchValue'' []),
     (''MinSwitchValue'', row Func [] [] ''MinSwitchValue'' ''number member's own min; bool 0''),
     (''MaxSwitchValue'', row Func [] [] ''MaxSwitchValue'' ''number member's own max; bool 1''),
     (''SwitchStep'', row Func [] [] ''SwitchStep'' ''number member's own step; bool 1''),
     (''GetSwitchName'', row Func [] [] ''GetSwitchName'' ''member label (driver fills it from *_LABELS); the vector's for an ON/OFF pair''),
     (''GetSwitchDescription'', row Func [] [] ''GetSwitchDescription'' (''names the source vector '' @ EMDASH @ '' outlet 3 vs dew channel 3'')),
     (''SetSwitchName'', row Absent [] [] [] ''not in INDI''),
     (''CanWrite'', row Derived [] [] [] ''writable unless permission is read-only''),
     (''CanAsync'', row Derived [] [] [] ''writable properties accept asynchronous sends''),
     (''SetAsync'', row Func [] [] ''SetAsync'' []),
     (''SetAsyncValue'', row Func [] [] ''SetAsyncValue'' []),
     (''StateChangeComplete'', row Derived [] [] [] ''vector state left Busy''),
     (''CancelAsync'', row Absent [] [] [] ''no standard abort property for switch operations'')]"

definition families :: "(string \<times> bool) list" where
  "families =
    [(''DIGITAL_OUTPUT_'', True), (''PULSE_'', True), (''DIGITAL_INPUT_'', True), (''ANALOG_INPUT_'', True),
     (''POWER_CHANNELS'', False), (''DEW_CHANNELS'', False), (''USB_PORTS'', False), (''VARIABLE_CHANNELS'', False),
     (''VARIABLE_VOLTAGES'', False), (''DEW_DUTY_CYCLES'', False), (''POWER_SENSORS'', False), (''POWER_CURRENTS'', False),
     (''DEW_CURRENTS'', False)]"

definition contributes :: "string \<Rightarrow> bool" where
  "contributes vec \<longleftrightarrow> list_ex (\<lambda>(name, numbered).
     if \<not> numbered then vec = name
     else HasPrefix vec name \<and> drop (length name) vec \<noteq> [] \<and> list_all is_digit (drop (length name) vec)) families"

text \<open>One flattened switch: the property and the member, no member for a pair of ON and OFF.\<close>

type_synonym pair = "string \<times> string"

record SwitchDev =
  sw_pinned :: "pair list"
  sw_index :: "pair set"

definition new_switch :: SwitchDev where
  "new_switch = \<lparr>sw_pinned = [], sw_index = {}\<rparr>"

definition Switch_Connecting :: "bool \<Rightarrow> (SwitchDev, bool) kitM" where
  "Switch_Connecting base = (if base then ret True else do { (ok, _) \<leftarrow> Avail; ret (\<not> ok) })"

definition boolPair :: "Vector \<Rightarrow> bool" where
  "boolPair v \<longleftrightarrow> v_Type v = Switch \<and>
     (case v_Members v of [a, b] \<Rightarrow>
        let a = m_Name (mv_Member a); b = m_Name (mv_Member b) in
        a = ''ON'' \<and> b = ''OFF'' \<or> a = ''OFF'' \<and> b = ''ON''
      | _ \<Rightarrow> False)"

subsection \<open>The order of names\<close>

definition chunk :: "string \<Rightarrow> string \<times> string" where
  "chunk s = (let digit = is_digit (hd s) in
     (takeWhile (\<lambda>c. is_digit c = digit) s, dropWhile (\<lambda>c. is_digit c = digit) s))"

lemma length_chunk: "s \<noteq> [] \<Longrightarrow> length (snd (chunk s)) < length s"
  by (cases s) (auto simp: chunk_def Let_def intro: le_less_trans [OF length_dropWhile_le])

lemma chunk_shrinks: "(c, r) = chunk s \<Longrightarrow> s \<noteq> [] \<Longrightarrow> length r < length s"
  by (metis length_chunk snd_conv)

function natLess :: "string \<Rightarrow> string \<Rightarrow> bool" where
  "natLess a b =
     (if a \<noteq> [] \<and> b \<noteq> [] then
        (case (chunk a, chunk b) of ((ca, ra), (cb, rb)) \<Rightarrow>
           if ca \<noteq> cb then
             (case (Atoi ca, Atoi cb) of
                (Some na, Some nb) \<Rightarrow> if na \<noteq> nb then na < nb else natLess ra rb
              | _ \<Rightarrow> ca < cb)
           else natLess ra rb)
      else length a < length b)"
  by pat_completeness auto
termination
  by (relation "measure (\<lambda>(a, b). length a)") (auto dest: chunk_shrinks)

declare natLess.simps [simp del]

fun insert_by :: "('a \<Rightarrow> 'a \<Rightarrow> bool) \<Rightarrow> 'a \<Rightarrow> 'a list \<Rightarrow> 'a list" where
  "insert_by lt x [] = [x]"
| "insert_by lt x (y # ys) = (if lt x y then x # y # ys else y # insert_by lt x ys)"

definition sort_slice :: "('a \<Rightarrow> 'a \<Rightarrow> bool) \<Rightarrow> 'a list \<Rightarrow> 'a list" where
  "sort_slice lt xs = fold (insert_by lt) xs []"

subsection \<open>The enumeration\<close>

definition pin :: "pair \<Rightarrow> SwitchDev \<Rightarrow> SwitchDev" where
  "pin p s = (if p \<in> sw_index s then s
     else s\<lparr>sw_index := insert p (sw_index s), sw_pinned := sw_pinned s @ [p]\<rparr>)"

text \<open>What a property contributes.\<close>

definition pairs_of :: "Snapshot \<Rightarrow> string \<Rightarrow> string \<Rightarrow> pair list" where
  "pairs_of snap dev vec =
     (if \<not> contributes vec then []
      else (case Snapshot_Vector snap dev vec of None \<Rightarrow> []
        | Some v \<Rightarrow>
            if v_Type v \<noteq> Switch \<and> v_Type v \<noteq> Number then []
            else if boolPair v then [(vec, [])]
            else map (\<lambda>m. (vec, m_Name (mv_Member m))) (v_Members v)))"

definition pin_all :: "Snapshot \<Rightarrow> string \<Rightarrow> SwitchDev \<Rightarrow> SwitchDev" where
  "pin_all snap dev s =
     fold (\<lambda>vec s. fold pin (pairs_of snap dev vec) s) (sort_slice natLess (Properties snap dev)) s"

definition refresh :: "Kit \<Rightarrow> (SwitchDev, pair list) kitM" where
  "refresh k = do {
     (ok, _) \<leftarrow> Avail;
     if ok then do {
       snap \<leftarrow> Snap;
       dev \<leftarrow> DeviceName k;
       upd_dev (pin_all snap dev);
       s \<leftarrow> get_dev;
       ret (sw_pinned s)
     } else do { s \<leftarrow> get_dev; ret (sw_pinned s) }
   }"

definition resolve :: "Kit \<Rightarrow> int \<Rightarrow> (SwitchDev, AlpacaError + pair \<times> Vector) kitM" where
  "resolve k i = do {
     pins \<leftarrow> refresh k;
     (ok, reason) \<leftarrow> Avail;
     if \<not> ok then ret (Inl (NotConnected reason))
     else if i < 0 \<or> int (length pins) \<le> i then
       ret (Inl (InvalidValue [Lit ''switch id '', FmtD i, Lit '' is outside 0 to '', FmtD (int (length pins) - 1)]))
     else do {
       snap \<leftarrow> Snap;
       dev \<leftarrow> DeviceName k;
       let p = pins ! nat i;
       (case Snapshot_Vector snap dev (fst p) of
          None \<Rightarrow> ret (Inl (NotImplemented (''switch '' @ show_int i @ '' ('' @ fst p @ '' is no longer defined)'')))
        | Some v \<Rightarrow> ret (Inr (p, v)))
     }
   }"

definition memberOf :: "int \<Rightarrow> pair \<Rightarrow> Vector \<Rightarrow> AlpacaError + MemberVal" where
  "memberOf i p v =
     (let name = (if snd p = [] then ''ON'' else snd p) in
      case Vector_Member v name of
        None \<Rightarrow> Inl (NotImplemented (''switch '' @ show_int i @ '' ('' @ fst p @ ''.'' @ name @ '' is no longer defined)''))
      | Some m \<Rightarrow> Inr m)"

definition switch_writable :: "Kit \<Rightarrow> int \<Rightarrow> (SwitchDev, AlpacaError + pair \<times> Vector) kitM" where
  "switch_writable k i = bindE (resolve k i) (\<lambda>(p, v).
     ret (if v_Perm v = ReadOnly
       then Inl (NotImplemented (''writing switch '' @ show_int i @ '' ('' @ fst p @ '' is IP_RO)''))
       else Inr (p, v)))"

subsection \<open>Reading\<close>

definition MaxSwitch :: "Kit \<Rightarrow> (SwitchDev, int) kitM" where
  "MaxSwitch k = do { pins \<leftarrow> refresh k; ret (int (length pins)) }"

definition Switch_CanWrite :: "Kit \<Rightarrow> int \<Rightarrow> (SwitchDev, AlpacaError + bool) kitM" where
  "Switch_CanWrite k i = bindE (resolve k i) (\<lambda>(_, v). ret (Inr (v_Perm v \<noteq> ReadOnly)))"

definition resolve_member :: "Kit \<Rightarrow> int \<Rightarrow> (SwitchDev, AlpacaError + Vector \<times> Member) kitM" where
  \<comment> \<open>\<^verbatim>\<open>resolve\<close> followed by \<^verbatim>\<open>memberOf\<close>\<close>
  "resolve_member k i = bindE (resolve k i) (\<lambda>(p, v). ret (map_sum id (\<lambda>m. (v, mv_Member m)) (memberOf i p v)))"

definition GetSwitch :: "Kit \<Rightarrow> int \<Rightarrow> (SwitchDev, AlpacaError + bool) kitM" where
  "GetSwitch k i = bindE (resolve_member k i) (\<lambda>(v, m).
     ret (Inr (if v_Type v = Switch then m_On m
       else if m_HasRange m then \<not> f_eq (m_Value m) (m_Min m)
       else \<not> f_eq (m_Value m) (Fin 0))))"

definition GetSwitchValue :: "Kit \<Rightarrow> int \<Rightarrow> (SwitchDev, AlpacaError + f64) kitM" where
  "GetSwitchValue k i = bindE (resolve_member k i) (\<lambda>(v, m).
     ret (Inr (if v_Type v = Switch then (if m_On m then Fin 1 else Fin 0) else m_Value m)))"

definition range3 :: "Kit \<Rightarrow> int \<Rightarrow> (SwitchDev, AlpacaError + f64 \<times> f64 \<times> f64) kitM" where
  "range3 k i = bindE (resolve_member k i) (\<lambda>(v, m).
     ret (Inr (if v_Type v = Number \<and> m_HasRange m
       then (m_Min m, m_Max m, if f_le (m_Step m) (Fin 0) then Fin 1 else m_Step m)
       else (Fin 0, Fin 1, Fin 1))))"

definition MinSwitchValue :: "Kit \<Rightarrow> int \<Rightarrow> (SwitchDev, AlpacaError + f64) kitM" where
  "MinSwitchValue k i = bindE (range3 k i) (\<lambda>(mn, _, _). ret (Inr mn))"

definition MaxSwitchValue :: "Kit \<Rightarrow> int \<Rightarrow> (SwitchDev, AlpacaError + f64) kitM" where
  "MaxSwitchValue k i = bindE (range3 k i) (\<lambda>(_, mx, _). ret (Inr mx))"

definition SwitchStep :: "Kit \<Rightarrow> int \<Rightarrow> (SwitchDev, AlpacaError + f64) kitM" where
  "SwitchStep k i = bindE (range3 k i) (\<lambda>(_, _, st). ret (Inr st))"

definition GetSwitchName :: "Kit \<Rightarrow> int \<Rightarrow> (SwitchDev, AlpacaError + string) kitM" where
  "GetSwitchName k i = bindE (resolve k i) (\<lambda>(p, v).
     if snd p = [] then ret (Inr (if v_Label v \<noteq> [] then v_Label v else fst p))
     else (case memberOf i p v of Inl er \<Rightarrow> ret (Inl er)
       | Inr m \<Rightarrow> ret (Inr (if m_Label (mv_Member m) \<noteq> [] then m_Label (mv_Member m) else m_Name (mv_Member m)))))"

definition GetSwitchDescription :: "Kit \<Rightarrow> int \<Rightarrow> (SwitchDev, AlpacaError + string) kitM" where
  "GetSwitchDescription k i = bindE (resolve k i) (\<lambda>(p, _).
     ret (Inr (if snd p = [] then ''INDI '' @ fst p else ''INDI '' @ fst p @ ''.'' @ snd p)))"

definition StateChangeComplete :: "Kit \<Rightarrow> int \<Rightarrow> (SwitchDev, AlpacaError + bool) kitM" where
  "StateChangeComplete k i = bindE (resolve k i) (\<lambda>(_, v). ret (Inr (v_State v \<noteq> Busy)))"

subsection \<open>Writing\<close>

definition SetSwitchName :: "int \<Rightarrow> string \<Rightarrow> AlpacaError option" where
  "SetSwitchName _ _ = Some (NotImplemented ''SetSwitchName'')"

text \<open>The body of a write once the switch is resolved.\<close>

definition set_resolved :: "Kit \<Rightarrow> int \<Rightarrow> bool \<Rightarrow> pair \<Rightarrow> Vector \<Rightarrow> (SwitchDev, AlpacaError option) kitM" where
  "set_resolved k i on p v =
     (if snd p = [] then
        (if on then SendSwitch k (fst p) [''ON''] [''OFF''] else SendSwitch k (fst p) [''OFF''] [''ON''])
      else if v_Type v = Switch then
        (if on then SendSwitch k (fst p) [snd p] []
         else if v_Rule v = OneOfMany then
           ret (Some (InvalidOperation [Lit ''switch '', FmtD i, Lit '' belongs to the OneOfMany vector '', Lit (fst p),
             Lit ('' '' @ EMDASH @ '' select another member instead of turning it off'')]))
         else SendSwitch k (fst p) [] [snd p])
      else (case memberOf i p v of Inl er \<Rightarrow> ret (Some er)
        | Inr mv \<Rightarrow>
            let m = mv_Member mv;
                target = (if on \<and> m_HasRange m then m_Max m else if on then Fin 1
                  else if m_HasRange m then m_Min m else Fin 0)
            in SendNumber k (fst p) [(snd p, target)]))"

definition Switch_SetSwitch :: "Kit \<Rightarrow> int \<Rightarrow> bool \<Rightarrow> (SwitchDev, AlpacaError option) kitM" where
  "Switch_SetSwitch k i on = do {
     r \<leftarrow> switch_writable k i;
     (case r of Inl er \<Rightarrow> ret (Some er) | Inr (p, v) \<Rightarrow> set_resolved k i on p v)
   }"

definition SetSwitchValue :: "Kit \<Rightarrow> int \<Rightarrow> f64 \<Rightarrow> (SwitchDev, AlpacaError option) kitM" where
  "SetSwitchValue k i value = do {
     r \<leftarrow> switch_writable k i;
     (case r of Inl er \<Rightarrow> ret (Some er)
      | Inr (p, v) \<Rightarrow>
          if v_Type v = Switch then Switch_SetSwitch k i (\<not> f_eq value (Fin 0))
          else (case memberOf i p v of Inl er \<Rightarrow> ret (Some er)
            | Inr mv \<Rightarrow>
                if out_of_range (mv_Member mv) value then
                  ret (Some (InvalidValue [Lit ''switch '', FmtD i, Lit '' value '', FmtG value,
                    Lit '' is outside the driver's range '', FmtG (m_Min (mv_Member mv)), Lit '' to '', FmtG (m_Max (mv_Member mv))]))
                else SendNumber k (fst p) [(snd p, value)]))
   }"

definition CanAsync :: "Kit \<Rightarrow> int \<Rightarrow> (SwitchDev, AlpacaError + bool) kitM" where
  "CanAsync k i = Switch_CanWrite k i"

definition SetAsync :: "Kit \<Rightarrow> int \<Rightarrow> bool \<Rightarrow> (SwitchDev, AlpacaError option) kitM" where
  "SetAsync k i on = Switch_SetSwitch k i on"

definition SetAsyncValue :: "Kit \<Rightarrow> int \<Rightarrow> f64 \<Rightarrow> (SwitchDev, AlpacaError option) kitM" where
  "SetAsyncValue k i value = SetSwitchValue k i value"

definition CancelAsync :: "Kit \<Rightarrow> int \<Rightarrow> (SwitchDev, AlpacaError option) kitM" where
  "CancelAsync k i = do {
     r \<leftarrow> resolve k i;
     ret (Some (case r of Inl er \<Rightarrow> er | Inr _ \<Rightarrow> NotImplemented ''CancelAsync''))
   }"

definition consumedByMapping :: "string \<Rightarrow> bool" where
  "consumedByMapping vec \<longleftrightarrow> contributes vec \<or> HasSuffix vec ''_LABELS''"

definition Switch_Validate :: "Snapshot \<Rightarrow> string \<Rightarrow> string list" where
  "Switch_Validate snap device = Validate switch_table consumedByMapping snap device"

definition Recognise :: "Snapshot \<Rightarrow> string \<Rightarrow> bool" where
  "Recognise snap device \<longleftrightarrow> list_ex contributes (Properties snap device)"

definition Switch_SupportedActions :: "Kit \<Rightarrow> (SwitchDev, string list) kitM" where
  "Switch_SupportedActions k = Supported \<lparr>en_kit = k, en_consumed = consumedByMapping\<rparr>"

definition Switch_Action ::
  "Kit \<Rightarrow> (string \<Rightarrow> string \<Rightarrow> string \<times> AlpacaError option) \<Rightarrow> string \<Rightarrow> string
    \<Rightarrow> (SwitchDev, string \<times> AlpacaError option) kitM" where
  "Switch_Action k base name params =
     device_action \<lparr>en_kit = k, en_consumed = consumedByMapping\<rparr> base name params"

subsection \<open>The pinned list\<close>

text \<open>The index map holds exactly the pinned pairs, and none is pinned twice.\<close>

definition switch_ok :: "SwitchDev \<Rightarrow> bool" where
  "switch_ok s \<longleftrightarrow> sw_index s = set (sw_pinned s) \<and> distinct (sw_pinned s)"

text \<open>One state of the device extends another.\<close>

definition extends :: "SwitchDev \<Rightarrow> SwitchDev \<Rightarrow> bool" where
  "extends s s' \<longleftrightarrow> (\<exists>new. sw_pinned s' = sw_pinned s @ new) \<and> (if switch_ok s then switch_ok s' else True)"

lemma extends_refl [simp, intro]: "extends s s"
  by (simp add: extends_def)

lemma extends_trans: "extends s s' \<Longrightarrow> extends s' s'' \<Longrightarrow> extends s s''"
  by (auto simp: extends_def split: if_splits)

lemma new_switch_ok: "switch_ok new_switch"
  by (simp add: switch_ok_def new_switch_def)

lemma pin_extends: "extends s (pin p s)"
  by (auto simp: pin_def extends_def switch_ok_def)

lemma pin_pinned: "switch_ok s \<Longrightarrow> set (sw_pinned (pin p s)) = insert p (set (sw_pinned s))"
  by (auto simp: pin_def switch_ok_def)

lemma fold_pin_extends: "extends s (fold pin ps s)"
  by (induction ps arbitrary: s) (auto intro: extends_trans pin_extends)

lemma extends_ok: "extends s s' \<Longrightarrow> switch_ok s \<Longrightarrow> switch_ok s'"
  by (simp add: extends_def)

lemma fold_pin_pinned: "switch_ok s \<Longrightarrow> set (sw_pinned (fold pin ps s)) = set (sw_pinned s) \<union> set ps"
  by (induction ps arbitrary: s) (auto simp: pin_pinned extends_ok [OF pin_extends])

lemma set_sort_slice [simp]: "set (sort_slice lt xs) = set xs"
proof -
  have "set (insert_by lt x ys) = insert x (set ys)" for x ys by (induction ys) auto
  then have "set (fold (insert_by lt) xs ys) = set xs \<union> set ys" for ys
    by (induction xs arbitrary: ys) auto
  then show ?thesis by (simp add: sort_slice_def)
qed

lemma pin_all_extends: "extends s (pin_all snap dev s)"
proof -
  have "extends s (fold (\<lambda>vec s. fold pin (pairs_of snap dev vec) s) vecs s)" for vecs
    by (induction vecs arbitrary: s) (auto intro: extends_trans fold_pin_extends)
  then show ?thesis by (simp add: pin_all_def)
qed

text \<open>Every pair of the snapshot is pinned by a refresh.\<close>

lemma pin_all_pinned:
  assumes "switch_ok s"
  shows "set (sw_pinned (pin_all snap dev s)) =
    set (sw_pinned s) \<union> (\<Union>vec \<in> set (Properties snap dev). set (pairs_of snap dev vec))"
proof -
  have "set (sw_pinned (fold (\<lambda>vec s. fold pin (pairs_of snap dev vec) s) vecs s)) =
      set (sw_pinned s) \<union> (\<Union>vec \<in> set vecs. set (pairs_of snap dev vec))" for vecs
    using assms
    by (induction vecs arbitrary: s) (auto simp: fold_pin_pinned extends_ok [OF fold_pin_extends])
  then show ?thesis by (simp add: pin_all_def)
qed

text \<open>An operation of the device only adds to the pinned list.\<close>

definition grows :: "(SwitchDev, 'a) kitM \<Rightarrow> bool" where
  "grows m \<longleftrightarrow> (\<forall>e. let e' = snd (run_state m e) in
     extends (e_dev e) (e_dev e') \<and> e_world e' = e_world e \<and> e_clock e \<le> e_clock e')"

named_theorems grows_intros \<open>operations that keep the ids of the switches\<close>

lemma growsD: "grows m \<Longrightarrow> run_state m e = (x, e') \<Longrightarrow>
    extends (e_dev e) (e_dev e') \<and> e_world e' = e_world e \<and> e_clock e \<le> e_clock e'"
  by (metis grows_def snd_conv)

lemma grows_bind [grows_intros]:
  assumes "grows m" "\<And>x. grows (f x)" shows "grows (m \<bind> f)"
  unfolding grows_def Let_def
proof
  fix e
  obtain x e1 where m: "run_state m e = (x, e1)" by fastforce
  obtain y e2 where f: "run_state (f x) e1 = (y, e2)" by fastforce
  show "extends (e_dev e) (e_dev (snd (run_state (m \<bind> f) e))) \<and> e_world (snd (run_state (m \<bind> f) e)) = e_world e \<and>
      e_clock e \<le> e_clock (snd (run_state (m \<bind> f) e))"
    using growsD [OF assms(1) m] growsD [OF assms(2) f] m f by (auto intro: extends_trans)
qed

lemma grows_sends: "sends m \<Longrightarrow> grows m"
  by (auto simp: grows_def sends_def Let_def)

lemma grows_prims [grows_intros]:
  "grows (ret x)" "grows Avail" "grows Snap" "grows (DeviceName k)" "grows get_dev" "grows (SendNumber k vec vals)"
  "grows (SendSwitch k vec on off)"
  by (auto intro: grows_sends reads_sends step_intros)

lemma grows_bindE [grows_intros]: "grows m \<Longrightarrow> (\<And>x. grows (f x)) \<Longrightarrow> grows (bindE m f)"
  unfolding bindE_def by (intro grows_intros) (auto split: sum.splits intro: grows_intros)

lemma grows_refresh [grows_intros]: "grows (refresh k)"
proof -
  have "grows (upd_dev (pin_all snap dev))" for snap dev
    by (simp add: grows_def pin_all_extends)
  then show ?thesis unfolding refresh_def by (auto intro!: grows_intros split: prod.splits)
qed

lemma grows_resolve [grows_intros]: "grows (resolve k i)" "grows (resolve_member k i)" "grows (switch_writable k i)" "grows (range3 k i)"
proof -
  show r: "grows (resolve k i)"
    unfolding resolve_def Let_def by (auto intro!: grows_intros split: prod.splits option.splits)
  show m: "grows (resolve_member k i)"
    unfolding resolve_member_def by (auto intro!: grows_intros r split: prod.splits)
  show "grows (switch_writable k i)" "grows (range3 k i)"
    unfolding switch_writable_def range3_def by (auto intro!: grows_intros r m split: prod.splits)
qed

lemma grows_set_resolved [grows_intros]: "grows (set_resolved k i on p v)"
  unfolding set_resolved_def Let_def by (auto intro!: grows_intros split: sum.splits)

lemma grows_SetSwitch [grows_intros]: "grows (Switch_SetSwitch k i on)"
  unfolding Switch_SetSwitch_def by (auto intro!: grows_intros split: sum.splits)

lemma grows_SetSwitchValue [grows_intros]: "grows (SetSwitchValue k i x)"
  unfolding SetSwitchValue_def by (auto intro!: grows_intros split: sum.splits)

subsection \<open>Properties\<close>

text \<open>Any use of the device between two requests.\<close>

datatype SwitchOp = OpMax | OpCanWrite int | OpGet int | OpGetValue int | OpRange int | OpName int
  | OpDescription int | OpComplete int | OpSet int bool | OpSetValue int f64 | OpCancel int

fun run_op :: "Kit \<Rightarrow> SwitchOp \<Rightarrow> (SwitchDev, unit) kitM" where
  "run_op k OpMax = do { _ \<leftarrow> MaxSwitch k; ret () }"
| "run_op k (OpCanWrite i) = do { _ \<leftarrow> Switch_CanWrite k i; ret () }"
| "run_op k (OpGet i) = do { _ \<leftarrow> GetSwitch k i; ret () }"
| "run_op k (OpGetValue i) = do { _ \<leftarrow> GetSwitchValue k i; ret () }"
| "run_op k (OpRange i) = do { _ \<leftarrow> range3 k i; ret () }"
| "run_op k (OpName i) = do { _ \<leftarrow> GetSwitchName k i; ret () }"
| "run_op k (OpDescription i) = do { _ \<leftarrow> GetSwitchDescription k i; ret () }"
| "run_op k (OpComplete i) = do { _ \<leftarrow> StateChangeComplete k i; ret () }"
| "run_op k (OpSet i on) = do { _ \<leftarrow> Switch_SetSwitch k i on; ret () }"
| "run_op k (OpSetValue i x) = do { _ \<leftarrow> SetSwitchValue k i x; ret () }"
| "run_op k (OpCancel i) = do { _ \<leftarrow> CancelAsync k i; ret () }"

fun run_ops :: "Kit \<Rightarrow> SwitchOp list \<Rightarrow> (SwitchDev, unit) kitM" where
  "run_ops k [] = ret ()"
| "run_ops k (op # ops) = do { _ \<leftarrow> run_op k op; run_ops k ops }"

lemma grows_reads [grows_intros]:
  "grows (MaxSwitch k)" "grows (Switch_CanWrite k i)" "grows (GetSwitch k i)" "grows (GetSwitchValue k i)"
  "grows (GetSwitchName k i)" "grows (GetSwitchDescription k i)" "grows (StateChangeComplete k i)" "grows (CancelAsync k i)"
  unfolding MaxSwitch_def Switch_CanWrite_def GetSwitch_def GetSwitchValue_def GetSwitchName_def GetSwitchDescription_def
    StateChangeComplete_def CancelAsync_def
  by (auto intro!: grows_intros split: sum.splits prod.splits)

lemma grows_run_op [grows_intros]: "grows (run_op k op)"
  by (cases op) (simp_all, auto intro!: grows_intros)

lemma grows_run_ops: "grows (run_ops k ops)"
  by (induction ops) (auto intro: grows_intros)

text \<open>What a successful lookup of an id means.\<close>

lemma resolve_Inr:
  assumes "run_state (resolve k i) e = (Inr (p, v), e')"
  shows "0 \<le> i" "nat i < length (sw_pinned (e_dev e'))" "p = sw_pinned (e_dev e') ! nat i"
    "\<exists>j dev. during e e' j \<and> Snapshot_Vector (w_snap (e_world e j)) dev (fst p) = Some v"
proof -
  obtain pins e1 where r: "run_state (refresh k) e = (pins, e1)" by fastforce
  then have pins: "pins = sw_pinned (e_dev e1)" by (auto simp: refresh_def Avail_def Snap_def DeviceName_def split: if_splits)
  note g = growsD [OF grows_refresh r]
  from assms r have up: "w_serving (e_world e1 (e_clock e1))" and i: "\<not> (i < 0 \<or> int (length pins) \<le> i)"
    and v: "Snapshot_Vector (w_snap (e_world e1 (Suc (e_clock e1)))) (kit_name k (w_snap (e_world e1 (Suc (Suc (e_clock e1))))))
      (fst (pins ! nat i)) = Some v" "p = pins ! nat i" and e': "e' = e1\<lparr>e_clock := e_clock e1 + 3\<rparr>"
    by (auto simp: resolve_def Avail_def Snap_def DeviceName_def Let_def numeral_eq_Suc split: if_splits option.splits)
  show "0 \<le> i" "nat i < length (sw_pinned (e_dev e'))" "p = sw_pinned (e_dev e') ! nat i"
    using i v(2) by (auto simp: e' pins)
  show "\<exists>j dev. during e e' j \<and> Snapshot_Vector (w_snap (e_world e j)) dev (fst p) = Some v"
    using v g by (intro exI [of _ "Suc (e_clock e1)"] exI) (auto simp: during_def e')
qed

text \<open>
  C11: a switch keeps its id: whatever is asked of the device and whatever the driver publishes in
  between, an id that answered for one member answers for that member again, and no other id
  answers for it.
\<close>

theorem switch_ids_stable:
  assumes "switch_ok (e_dev e)" "run_state (resolve k i) e = (Inr (p, v), e1)" "e_dev e2 = e_dev e1"
    "e_dev e3 = e_dev (snd (run_state (run_ops k ops) e2))" "run_state (resolve k j) e3 = (Inr (p', v'), e4)"
  shows "switch_ok (e_dev e4) \<and> (p' = p \<longleftrightarrow> j = i)"
proof -
  define e5 where "e5 = snd (run_state (run_ops k ops) e2)"
  have ops: "run_state (run_ops k ops) e2 = ((), e5)" by (simp add: e5_def prod_eq_iff)
  have "extends (e_dev e1) (e_dev e3)" using growsD [OF grows_run_ops ops] assms(3,4) ops by simp
  moreover have "extends (e_dev e3) (e_dev e4)" using growsD [OF grows_resolve(1) assms(5)] by simp
  moreover have "extends (e_dev e) (e_dev e1)" using growsD [OF grows_resolve(1) assms(2)] by simp
  ultimately have ext: "extends (e_dev e1) (e_dev e4)" "extends (e_dev e) (e_dev e4)" by (blast intro: extends_trans)+
  then have ok: "switch_ok (e_dev e4)" using assms(1) extends_ok by blast
  note ri = resolve_Inr [OF assms(2)] and rj = resolve_Inr [OF assms(5)]
  obtain new where "sw_pinned (e_dev e4) = sw_pinned (e_dev e1) @ new" using ext(1) by (auto simp: extends_def)
  then have "p = sw_pinned (e_dev e4) ! nat i" "nat i < length (sw_pinned (e_dev e4))"
    using ri by (simp_all add: nth_append)
  then have "p' = p \<longleftrightarrow> nat j = nat i"
    using rj ok by (simp add: switch_ok_def nth_eq_iff_index_eq)
  then show ?thesis using ok ri(1) rj(1) by auto
qed

definition power_vector :: Vector where
  "power_vector = def_vector (zero_element\<lparr>e_Name := ''POWER_CHANNELS'', e_Device := ''S'', e_Type := Switch, e_Perm := ReadWrite,
     e_Members := [zero_member\<lparr>m_Name := ''A''\<rparr>, zero_member\<lparr>m_Name := ''B''\<rparr>]\<rparr>) 5"

definition power_snap :: Snapshot where
  "power_snap = \<lparr>s_gen = 2, s_valid = True, s_devices = [(''S'', [(''POWER_CHANNELS'', power_vector)])]\<rparr>"

definition power_env :: "SwitchDev Env" where
  "power_env = \<lparr>e_world = (\<lambda>_. \<lparr>w_snap = power_snap, w_serving = True, w_reason = [], w_time = 9, w_send = None,
     w_update = None, w_settle = Inr (Ok, [])\<rparr>), e_clock = 0, e_sent = [], e_dev = new_switch\<rparr>"

definition power_pinned :: SwitchDev where
  "power_pinned = \<lparr>sw_pinned = [(''POWER_CHANNELS'', ''A''), (''POWER_CHANNELS'', ''B'')],
     sw_index = {(''POWER_CHANNELS'', ''A''), (''POWER_CHANNELS'', ''B'')}\<rparr>"

lemma power_pin: "pin_all power_snap ''S'' new_switch = power_pinned" "pin_all power_snap ''S'' power_pinned = power_pinned"
  "Snapshot_Vector power_snap ''S'' ''POWER_CHANNELS'' = Some power_vector" "kit_name ''S'' power_snap = ''S''"
  "v_Type power_vector = Switch" "v_Perm power_vector = ReadWrite"
  by code_simp+

lemma power_resolve:
  assumes "e_world e = e_world power_env" "e_dev e = new_switch \<or> e_dev e = power_pinned"
  shows "run_state (refresh ''S'') e = (sw_pinned power_pinned, e\<lparr>e_clock := e_clock e + 3, e_dev := power_pinned\<rparr>)"
    "i \<in> {0, 1} \<Longrightarrow> run_state (resolve ''S'' i) e = (Inr (sw_pinned power_pinned ! nat i, power_vector),
      e\<lparr>e_clock := e_clock e + 6, e_dev := power_pinned\<rparr>)"
proof -
  show r: "run_state (refresh ''S'') e = (sw_pinned power_pinned, e\<lparr>e_clock := e_clock e + 3, e_dev := power_pinned\<rparr>)"
    using assms by (auto simp: refresh_def Avail_def Snap_def DeviceName_def power_env_def power_pin numeral_eq_Suc)
  have "fst (sw_pinned power_pinned ! nat i) = ''POWER_CHANNELS''" if "i \<in> {0, 1}"
    using that by (auto simp: power_pinned_def)
  then show "i \<in> {0, 1} \<Longrightarrow> run_state (resolve ''S'' i) e = (Inr (sw_pinned power_pinned ! nat i, power_vector),
      e\<lparr>e_clock := e_clock e + 6, e_dev := power_pinned\<rparr>)"
    using assms(1) by (auto simp: resolve_def r Avail_def Snap_def DeviceName_def power_env_def power_pin Let_def numeral_eq_Suc)
      (simp_all add: power_pinned_def)
qed

theorem switch_ids_stable_witness:
  "switch_ok power_pinned \<and> ((''POWER_CHANNELS'', ''A'') = (''POWER_CHANNELS'', ''B'') \<longleftrightarrow> (0 :: int) = 1)"
proof -
  let ?e1 = "power_env\<lparr>e_clock := 6, e_dev := power_pinned\<rparr>"
  let ?e3 = "snd (run_state (run_ops ''S'' [OpMax]) ?e1)"
  have dev: "e_dev power_env = new_switch" "e_clock power_env = 0" by (simp_all add: power_env_def)
  have first: "run_state (resolve ''S'' 1) power_env = (Inr (sw_pinned power_pinned ! 1, power_vector), ?e1)"
    using power_resolve(2) [of power_env 1] dev by simp
  have e3: "?e3 = power_env\<lparr>e_clock := 9, e_dev := power_pinned\<rparr>"
    by (simp add: MaxSwitch_def power_resolve(1))
  have second: "run_state (resolve ''S'' 0) ?e3 = (Inr (sw_pinned power_pinned ! 0, power_vector), power_env\<lparr>e_clock := 15, e_dev := power_pinned\<rparr>)"
    unfolding e3 using power_resolve(2) [of "power_env\<lparr>e_clock := 9, e_dev := power_pinned\<rparr>" 0] by simp
  have "switch_ok (e_dev power_env)" by (simp add: dev new_switch_ok)
  from switch_ids_stable [OF this first refl refl second] show ?thesis by (simp add: power_pinned_def)
qed

text \<open>The command that turns a switch on or off.\<close>

definition set_cmd :: "pair \<Rightarrow> Vector \<Rightarrow> bool \<Rightarrow> Cmd \<Rightarrow> bool" where
  "set_cmd p v on cmd \<longleftrightarrow> (\<exists>dev.
     if snd p = [] then cmd = CSwitch dev (fst p) [if on then ''ON'' else ''OFF''] [if on then ''OFF'' else ''ON'']
     else if v_Type v = Switch then
       (if on then cmd = CSwitch dev (fst p) [snd p] [] else cmd = CSwitch dev (fst p) [] [snd p] \<and> v_Rule v \<noteq> OneOfMany)
     else (\<exists>m x. Vector_Member v (snd p) = Some m \<and> cmd = CNumber dev (fst p) [(snd p, x)] \<and>
       (if m_HasRange (mv_Member m) then x = (if on then m_Max (mv_Member m) else m_Min (mv_Member m))
        else x = (if on then Fin 1 else Fin 0))))"

lemma set_resolved_sent:
  assumes "run_state (set_resolved k i on p v) e = (r, e')"
  shows "e_sent e' = e_sent e \<or> (\<exists>cmd. e_sent e' = e_sent e @ [cmd] \<and> set_cmd p v on cmd \<and> \<not> refused r)"
  using assms
  by (cases "snd p = []"; cases "v_Type v = Switch"; cases on)
    (auto simp: set_resolved_def run_send set_cmd_def not_refused_send memberOf_def Let_def split: if_splits sum.splits option.splits)

lemma writable_Inr:
  assumes "run_state (switch_writable k i) e = (Inr (p, v), e')"
  shows "run_state (resolve k i) e = (Inr (p, v), e')" "v_Perm v \<noteq> ReadOnly"
  using assms by (auto simp: switch_writable_def split: sum.splits prod.splits if_splits)

lemma resolve_quiet:
  "run_state (resolve k i) e = (r, e') \<Longrightarrow> e_sent e' = e_sent e"
  "run_state (switch_writable k i) e = (r, e') \<Longrightarrow> e_sent e' = e_sent e"
  by (auto simp: switch_writable_def resolve_def refresh_def Avail_def Snap_def DeviceName_def Let_def
      split: if_splits option.splits sum.splits prod.splits)

text \<open>Nothing was sent, or one command to the pair of the id, writable when it was looked up, with \<open>ok\<close>.\<close>

definition sent_to :: "int \<Rightarrow> (pair \<Rightarrow> Vector \<Rightarrow> Cmd \<Rightarrow> bool) \<Rightarrow> SwitchDev Env \<Rightarrow> SwitchDev Env \<Rightarrow> AlpacaError option \<Rightarrow> bool" where
  "sent_to i ok e e' r \<longleftrightarrow> e_sent e' = e_sent e \<or>
    (\<exists>p v j dev cmd. nat i < length (sw_pinned (e_dev e')) \<and> p = sw_pinned (e_dev e') ! nat i \<and> during e e' j \<and>
       Snapshot_Vector (w_snap (e_world e j)) dev (fst p) = Some v \<and> v_Perm v \<noteq> ReadOnly \<and>
       e_sent e' = e_sent e @ [cmd] \<and> \<not> refused r \<and> ok p v cmd)"

lemma sent_to_same: "e_sent e' = e_sent e \<Longrightarrow> sent_to i ok e e' r"
  by (simp add: sent_to_def)

lemma sent_to_one:
  assumes "nat i < length (sw_pinned (e_dev e'))" "p = sw_pinned (e_dev e') ! nat i" "during e e' j"
    "Snapshot_Vector (w_snap (e_world e j)) dev (fst p) = Some v" "v_Perm v \<noteq> ReadOnly"
    "e_sent e' = e_sent e @ [cmd]" "\<not> refused r" "ok p v cmd"
  shows "sent_to i ok e e' r"
  unfolding sent_to_def using assms by (intro disjI2 exI conjI)

lemma sent_toE:
  assumes "sent_to i ok e e' r"
  obtains "e_sent e' = e_sent e"
  | p v j dev cmd where "nat i < length (sw_pinned (e_dev e'))" "p = sw_pinned (e_dev e') ! nat i" "during e e' j"
    "Snapshot_Vector (w_snap (e_world e j)) dev (fst p) = Some v" "v_Perm v \<noteq> ReadOnly"
    "e_sent e' = e_sent e @ [cmd]" "\<not> refused r" "ok p v cmd"
  using assms unfolding sent_to_def by (elim disjE exE conjE)

lemma sent_to_weaken:
  assumes "sent_to i ok e1 e' r" "e_sent e1 = e_sent e" "e_world e1 = e_world e" "e_clock e \<le> e_clock e1"
    and mono: "\<And>p v cmd. ok p v cmd \<Longrightarrow> ok' p v cmd"
  shows "sent_to i ok' e e' r"
  using assms(1)
proof (cases rule: sent_toE)
  case 1
  then show ?thesis using assms(2) by (simp add: sent_to_same)
next
  case (2 p v j dev cmd)
  have "during e e' j" using 2(3) assms(4) by (auto simp: during_def)
  then show ?thesis using 2 assms(2,3) mono [OF 2(8)] by (intro sent_to_one [of i e' p e j dev v cmd r ok']) auto
qed

lemma sent_toI:
  assumes w: "run_state (switch_writable k i) e = (Inr (p, v), e1)"
    and keep: "e_dev e' = e_dev e1" "e_clock e1 \<le> e_clock e'"
    and sent: "e_sent e' = e_sent e1 \<or> (\<exists>cmd. e_sent e' = e_sent e1 @ [cmd] \<and> ok p v cmd \<and> \<not> refused r)"
  shows "sent_to i ok e e' r"
proof -
  note res = writable_Inr [OF w] and q = resolve_quiet(2) [OF w]
  obtain j dev where j: "during e e1 j" "Snapshot_Vector (w_snap (e_world e j)) dev (fst p) = Some v"
    using resolve_Inr(4) [OF res(1)] by blast
  have d: "during e e' j" using j(1) keep(2) by (auto simp: during_def)
  show ?thesis
    using sent
  proof (elim disjE exE conjE)
    fix cmd assume "e_sent e' = e_sent e1 @ [cmd]" "ok p v cmd" "\<not> refused r"
    then show ?thesis
      using resolve_Inr(2,3) [OF res(1)] keep(1) q by (intro sent_to_one [OF _ _ d j(2) res(2)]) auto
  qed (simp add: q sent_to_same)
qed

lemma Switch_SetSwitch_sent:
  assumes "run_state (Switch_SetSwitch k i on) e = (r, e')"
  shows "sent_to i (\<lambda>p v. set_cmd p v on) e e' r"
proof -
  obtain w e1 where w: "run_state (switch_writable k i) e = (w, e1)" by fastforce
  show ?thesis
  proof (cases w)
    case Inl
    then show ?thesis using assms w resolve_quiet(2) [OF w] by (auto simp: Switch_SetSwitch_def sent_to_def)
  next
    case (Inr pv)
    obtain p v where pv: "pv = (p, v)" by fastforce
    have run: "run_state (set_resolved k i on p v) e1 = (r, e')" using assms w Inr pv by (simp add: Switch_SetSwitch_def)
    have "e_dev e' = e_dev e1" "e_clock e1 \<le> e_clock e'"
      using run by (auto simp: set_resolved_def run_send Let_def split: if_splits sum.splits)
    then show ?thesis using set_resolved_sent [OF run] by (intro sent_toI [OF w [unfolded Inr pv]])
  qed
qed

text \<open>
  C21: a write to a switch sends at most one command, and only to the pair its id stands for: at an
  instant of the call the property was defined and not read-only, the command switches that pair as
  asked, never turning off a member of a one-of-many property, or sets that member to the number
  asked for, inside the limits the driver declared; and an invalid value or invalid operation error
  means nothing was sent.
\<close>

theorem switch_write_guarded:
  assumes "run_state (SetSwitchValue k i x) e = (r, e')"
  shows "e_sent e' = e_sent e \<or>
    (\<exists>p v j dev cmd. nat i < length (sw_pinned (e_dev e')) \<and> p = sw_pinned (e_dev e') ! nat i \<and> during e e' j \<and>
       Snapshot_Vector (w_snap (e_world e j)) dev (fst p) = Some v \<and> v_Perm v \<noteq> ReadOnly \<and>
       e_sent e' = e_sent e @ [cmd] \<and> \<not> refused r \<and>
       (set_cmd p v (\<not> f_eq x (Fin 0)) cmd \<or>
        v_Type v \<noteq> Switch \<and> (\<exists>dev. cmd = CNumber dev (fst p) [(snd p, x)]) \<and>
        (\<exists>m. memberOf i p v = Inr m \<and> in_limits (mv_Member m) x)))"
proof -
  let ?number = "\<lambda>p v cmd. v_Type v \<noteq> Switch \<and> (\<exists>dev. cmd = CNumber dev (fst p) [(snd p, x)]) \<and>
    (\<exists>m. memberOf i p v = Inr m \<and> in_limits (mv_Member m) x)"
  let ?ok = "\<lambda>p v cmd. set_cmd p v (\<not> f_eq x (Fin 0)) cmd \<or> ?number p v cmd"
  obtain w e1 where w: "run_state (switch_writable k i) e = (w, e1)" by fastforce
  note q = resolve_quiet(2) [OF w] growsD [OF grows_resolve(3) w]
  have "sent_to i ?ok e e' r"
  proof (cases w)
    case Inl
    then show ?thesis using assms w q by (auto simp: SetSwitchValue_def sent_to_def)
  next
    case (Inr pv)
    obtain p v where pv: "pv = (p, v)" by fastforce
    show ?thesis
    proof (cases "v_Type v = Switch")
      case True
      then have "run_state (Switch_SetSwitch k i (\<not> f_eq x (Fin 0))) e1 = (r, e')"
        using assms w Inr pv by (simp add: SetSwitchValue_def)
      from Switch_SetSwitch_sent [OF this] q(1) show ?thesis by (rule sent_to_weaken) (use q(2) in auto)
    next
      case False
      then have "e' = e1 \<or> (\<exists>mv. memberOf i p v = Inr mv \<and> \<not> out_of_range (mv_Member mv) x \<and>
          run_state (SendNumber k (fst p) [(snd p, x)]) e1 = (r, e'))"
        using assms w Inr pv by (auto simp: SetSwitchValue_def split: sum.splits if_splits)
      then have "e_dev e' = e_dev e1 \<and> e_clock e1 \<le> e_clock e' \<and>
          (e_sent e' = e_sent e1 \<or> (\<exists>cmd. e_sent e' = e_sent e1 @ [cmd] \<and> ?ok p v cmd \<and> \<not> refused r))"
        using False by (auto simp: run_send not_out_of_range not_refused_send)
      then show ?thesis by (intro sent_toI [OF w [unfolded Inr pv]]) blast+
    qed
  qed
  then show ?thesis unfolding sent_to_def .
qed

theorem switch_write_guarded_witness:
  "\<exists>p v j dev cmd. nat 1 < length (sw_pinned power_pinned) \<and> p = sw_pinned power_pinned ! nat 1 \<and> (j :: nat) < 14 \<and>
     Snapshot_Vector power_snap dev (fst p) = Some v \<and> v_Perm v \<noteq> ReadOnly \<and>
     [CSwitch ''S'' ''POWER_CHANNELS'' [''B''] []] = [cmd] \<and>
     (set_cmd p v (\<not> f_eq (Fin 1) (Fin 0)) cmd \<or> v_Type v \<noteq> Switch)"
proof -
  let ?e' = "power_env\<lparr>e_clock := 14, e_dev := power_pinned, e_sent := [CSwitch ''S'' ''POWER_CHANNELS'' [''B''] []]\<rparr>"
  have dev: "e_dev power_env = new_switch" "e_clock power_env = 0" "e_sent power_env = []" by (simp_all add: power_env_def)
  have w: "run_state (switch_writable ''S'' 1) e = (Inr ((''POWER_CHANNELS'', ''B''), power_vector), e\<lparr>e_clock := e_clock e + 6, e_dev := power_pinned\<rparr>)"
    if "e_world e = e_world power_env" "e_dev e = new_switch \<or> e_dev e = power_pinned" for e
    using power_resolve(2) [OF that, of 1] by (simp add: switch_writable_def power_pin) (simp add: power_pinned_def)
  have "run_state (SetSwitchValue ''S'' 1 (Fin 1)) power_env = (None, ?e')"
    by (simp add: SetSwitchValue_def Switch_SetSwitch_def w dev power_pin set_resolved_def f_eq_def run_send)
      (simp add: power_env_def power_pin)
  from switch_write_guarded [OF this] show ?thesis
    by (simp add: dev during_def) (simp add: power_env_def, blast)
qed

text \<open>
  The order of the switches is meant to follow from the names of the properties alone, but it
  does not: names that differ in leading zeros only are ordered neither way, so their order, and
  with it the ids, is the accidental order of the map; and where a digit run does not fit 64 bits
  the comparison runs in a circle.
\<close>

theorem natLess_not_an_order:
  "contributes ''DIGITAL_OUTPUT_1'' \<and> contributes ''DIGITAL_OUTPUT_01'' \<and>
    sort_slice natLess [''DIGITAL_OUTPUT_1'', ''DIGITAL_OUTPUT_01''] = [''DIGITAL_OUTPUT_1'', ''DIGITAL_OUTPUT_01''] \<and>
    sort_slice natLess [''DIGITAL_OUTPUT_01'', ''DIGITAL_OUTPUT_1''] = [''DIGITAL_OUTPUT_01'', ''DIGITAL_OUTPUT_1''] \<and>
    natLess ''PULSE_95'' ''PULSE_100'' \<and> natLess ''PULSE_100'' ''PULSE_9223372036854775808'' \<and>
    natLess ''PULSE_9223372036854775808'' ''PULSE_95''"
proof (intro conjI)
  show "contributes ''DIGITAL_OUTPUT_1''" "contributes ''DIGITAL_OUTPUT_01''" by code_simp+
  have tie: "\<not> natLess ''DIGITAL_OUTPUT_1'' ''DIGITAL_OUTPUT_01''" "\<not> natLess ''DIGITAL_OUTPUT_01'' ''DIGITAL_OUTPUT_1''"
    by code_simp+
  then show "sort_slice natLess [''DIGITAL_OUTPUT_1'', ''DIGITAL_OUTPUT_01''] = [''DIGITAL_OUTPUT_1'', ''DIGITAL_OUTPUT_01'']"
    "sort_slice natLess [''DIGITAL_OUTPUT_01'', ''DIGITAL_OUTPUT_1''] = [''DIGITAL_OUTPUT_01'', ''DIGITAL_OUTPUT_1'']"
    by (simp_all add: sort_slice_def)
  have digits: "val10 ''95'' = 95" "val10 ''100'' = 100" "val10 ''9223372036854775808'' = 9223372036854775808"
    by (simp_all add: val10_def digit_val_def is_digit_def byte_between_def)
  show "natLess ''PULSE_95'' ''PULSE_100''" "natLess ''PULSE_100'' ''PULSE_9223372036854775808''"
    "natLess ''PULSE_9223372036854775808'' ''PULSE_95''"
    by (simp_all add: natLess.simps chunk_def is_digit_def byte_between_def Atoi_def strip_sign_def digits fits64_def less_char_def)
qed

end
