(* ===== verification/Device_Rotator.thy ===== *)
theory Device_Rotator
  imports Device_Base
begin

text \<open>
  The rotator (\<^verbatim>\<open>internal/devtype/rotator\<close>): a target angle the bridge remembers, an in-flight bit,
  and moves written to the driver's absolute or relative angle property.
\<close>

subsection \<open>Table and state\<close>

text \<open>The reasons are the source's with its dashes written as commas; only whether one is empty matters.\<close>

definition rotator_table :: Table where
  "rotator_table =
    [(''Position'', row Mapped ''ABS_ROTATOR_ANGLE'' ''ANGLE'' [] ''the sky angle, mechanical + sync offset, applied inside the driver''),
     (''MechanicalPosition'', row Derived [] [] [] ''INDI reports only the synced angle; mechanical position uses the same value''),
     (''MoveAbsolute'', row Func ''ABS_ROTATOR_ANGLE'' ''ANGLE'' ''moveAbsolute'' []),
     (''Move'', row Func [] [] ''moveRelative'' ''REL_ROTATOR_ANGLE where present, else ABS_ROTATOR_ANGLE = current + delta wrapped to [0,360)''),
     (''MoveMechanical'', row Func [] [] ''moveMechanical'' ''same write as MoveAbsolute, INDI exposes no pre-sync channel''),
     (''Sync'', row Mapped ''SYNC_ROTATOR_ANGLE'' ''ANGLE'' [] []),
     (''Halt'', row Mapped ''ROTATOR_ABORT_MOTION'' ''ABORT'' [] []),
     (''Reverse'', row Func ''ROTATOR_REVERSE'' ''INDI_ENABLED'' ''Reverse'' []),
     (''IsMoving'', row Derived [] [] [] ''ABS_ROTATOR_ANGLE state Busy OR the bridge's in-flight bit, the silent-mover guard''),
     (''CanReverse'', row Derived [] [] [] ''ROTATOR_REVERSE defined and rw''),
     (''TargetPosition'', row Synthesised [] [] [] ''last commanded angle, INDI reports only the current one; current position before any command''),
     (''StepSize'', row Absent [] [] [] ''no angular step-size mapping; returns zero'')]"

record Rotator =
  ro_target :: f64
  ro_targetSet :: bool
  ro_move :: Inflight

definition ro_upd :: "Rotator setter" where
  "ro_upd f d = d\<lparr>ro_move := f (ro_move d)\<rparr>"

interpretation ro: inflight_bit ro_move ro_upd
  by unfold_locales (simp add: ro_upd_def)

subsection \<open>Reading\<close>

definition Rotator_Connecting :: "bool \<Rightarrow> ('d, bool) kitM" where
  \<comment> \<open>\<open>base\<close> is the base device's own answer\<close>
  "Rotator_Connecting base = (if base then ret True else do { (ok, _) \<leftarrow> Avail; ret (\<not> ok) })"

definition Rotator_IsMoving :: "Kit \<Rightarrow> (Rotator, bool) kitM" where
  "Rotator_IsMoving k = in_progress ro_move ro_upd k ''ABS_ROTATOR_ANGLE''"

definition Rotator_Busy :: "Kit \<Rightarrow> (Rotator, bool) kitM" where
  "Rotator_Busy k = Rotator_IsMoving k"

definition Rotator_angle :: "Kit \<Rightarrow> (Rotator, f64) kitM" where
  "Rotator_angle k = do {
     r \<leftarrow> Kit_Vector k ''ABS_ROTATOR_ANGLE'';
     ret (case r of Inl _ \<Rightarrow> Fin 0 | Inr v \<Rightarrow> m_Value (MemberOrZero v ''ANGLE''))
   }"

definition Rotator_Position :: "Kit \<Rightarrow> (Rotator, f64) kitM" where
  "Rotator_Position k = Rotator_angle k"

definition Rotator_MechanicalPosition :: "Kit \<Rightarrow> (Rotator, f64) kitM" where
  "Rotator_MechanicalPosition k = Rotator_angle k"

definition Rotator_TargetPosition :: "Kit \<Rightarrow> (Rotator, f64) kitM" where
  "Rotator_TargetPosition k = do {
     d \<leftarrow> get_dev;
     if ro_targetSet d then ret (ro_target d) else Rotator_angle k
   }"

definition Rotator_StepSize :: f64 where
  "Rotator_StepSize = Fin 0"

definition Rotator_CanReverse :: "Kit \<Rightarrow> (Rotator, bool) kitM" where
  "Rotator_CanReverse k = do {
     r \<leftarrow> Kit_Vector k ''ROTATOR_REVERSE'';
     ret (case r of Inl _ \<Rightarrow> False | Inr v \<Rightarrow> v_Perm v \<noteq> ReadOnly)
   }"

definition Rotator_Reverse :: "Kit \<Rightarrow> (Rotator, bool) kitM" where
  "Rotator_Reverse k = do {
     r \<leftarrow> Kit_Vector k ''ROTATOR_REVERSE'';
     ret (case r of Inl _ \<Rightarrow> False
       | Inr v \<Rightarrow> (case Vector_Member v ''INDI_ENABLED'' of None \<Rightarrow> False | Some m \<Rightarrow> m_On (mv_Member m)))
   }"

subsection \<open>Commands\<close>

definition Rotator_SetReverse :: "Kit \<Rightarrow> bool \<Rightarrow> (Rotator, AlpacaError option) kitM" where
  "Rotator_SetReverse k on = do {
     can \<leftarrow> Rotator_CanReverse k;
     if \<not> can then ret (Some (NotImplemented ''Reverse''))
     else SendSwitch k ''ROTATOR_REVERSE'' [if on then ''INDI_ENABLED'' else ''INDI_DISABLED''] []
   }"

definition Rotator_Halt :: "Kit \<Rightarrow> (Rotator, AlpacaError option) kitM" where
  "Rotator_Halt k = do { op_clear ro_upd; WriteSwitch k rotator_table ''Halt'' }"

definition Rotator_Sync :: "Kit \<Rightarrow> f64 \<Rightarrow> (Rotator, AlpacaError option) kitM" where
  "Rotator_Sync k position = WriteNumber k rotator_table ''Sync'' position"

definition set_target :: "f64 \<Rightarrow> (Rotator, unit) kitM" where
  "set_target x = upd_dev (\<lambda>d. d\<lparr>ro_target := x, ro_targetSet := True\<rparr>)"

definition moveAbsolute :: "Kit \<Rightarrow> f64 \<Rightarrow> (Rotator, AlpacaError option) kitM" where
  "moveAbsolute k position = do {
     (ok, reason) \<leftarrow> Avail;
     if \<not> ok then ret (Some (NotConnected reason))
     else do {
       set_target position;
       started ro_upd (WriteNumber k rotator_table ''MoveAbsolute'' position)
     }
   }"

definition Rotator_MoveAbsolute :: "Kit \<Rightarrow> f64 \<Rightarrow> (Rotator, AlpacaError option) kitM" where
  "Rotator_MoveAbsolute k position = moveAbsolute k position"

definition moveMechanical :: "Kit \<Rightarrow> f64 \<Rightarrow> (Rotator, AlpacaError option) kitM" where
  "moveMechanical k position = moveAbsolute k position"

definition Rotator_MoveMechanical :: "Kit \<Rightarrow> f64 \<Rightarrow> (Rotator, AlpacaError option) kitM" where
  "Rotator_MoveMechanical k position = moveMechanical k position"

definition wrap360 :: "f64 \<Rightarrow> f64" where
  "wrap360 a = (let a = f_modc a 360 in if f_lt a (Fin 0) then f_add a (Fin 360) else a)"

definition moveRelative :: "Kit \<Rightarrow> f64 \<Rightarrow> (Rotator, AlpacaError option) kitM" where
  "moveRelative k delta = do {
     (ok, reason) \<leftarrow> Avail;
     if \<not> ok then ret (Some (NotConnected reason))
     else do {
       r \<leftarrow> Kit_Vector k ''REL_ROTATOR_ANGLE'';
       (case r of
          Inr v \<Rightarrow>
            (case v_Members v of
               m # _ \<Rightarrow> do {
                 a \<leftarrow> Rotator_angle k;
                 set_target (wrap360 (f_add a delta));
                 started ro_upd (SendNumber k ''REL_ROTATOR_ANGLE'' [(m_Name (mv_Member m), delta)])
               }
             | [] \<Rightarrow> do { a \<leftarrow> Rotator_angle k; moveAbsolute k (wrap360 (f_add a delta)) })
        | Inl _ \<Rightarrow> do { a \<leftarrow> Rotator_angle k; moveAbsolute k (wrap360 (f_add a delta)) })
     }
   }"

definition Rotator_Move :: "Kit \<Rightarrow> f64 \<Rightarrow> (Rotator, AlpacaError option) kitM" where
  "Rotator_Move k delta = moveRelative k delta"

definition rotator_consumed :: "string \<Rightarrow> bool" where
  "rotator_consumed = Consumed rotator_table [''REL_ROTATOR_ANGLE'']"

definition Rotator_Validate :: "Snapshot \<Rightarrow> string \<Rightarrow> string list" where
  "Rotator_Validate snap device = Validate rotator_table rotator_consumed snap device"

definition Rotator_SupportedActions :: "Kit \<Rightarrow> (Rotator, string list) kitM" where
  "Rotator_SupportedActions k = Supported \<lparr>en_kit = k, en_consumed = rotator_consumed\<rparr>"

definition Rotator_Action ::
  "Kit \<Rightarrow> (string \<Rightarrow> string \<Rightarrow> string \<times> AlpacaError option) \<Rightarrow> string \<Rightarrow> string
    \<Rightarrow> (Rotator, string \<times> AlpacaError option) kitM" where
  "Rotator_Action k base name params =
     device_action \<lparr>en_kit = k, en_consumed = rotator_consumed\<rparr> base name params"

subsection \<open>Properties\<close>

text \<open>
  A rotation that was sent is reported as moving until it is acknowledged: if a later poll says
  the rotator does not move, with no halt or other command in between, then at some instant of that
  poll the child was not serving, or the driver had updated the angle after the move was started.
\<close>

theorem Rotator_move_reported:
  assumes "run_state (moveAbsolute k x) e = (None, e1)" "e_dev e2 = e_dev e1"
    "run_state (Rotator_IsMoving k) e2 = (False, e3)"
  shows "\<exists>i. during e2 e3 i \<and> (\<not> w_serving (e_world e2 i) \<or>
    w_time (e_world e (Suc (e_clock e))) < updated_at k (e_world e2 i) ''ABS_ROTATOR_ANGLE'')"
proof -
  define e0 where "e0 = e\<lparr>e_clock := Suc (e_clock e), e_dev := (e_dev e)\<lparr>ro_target := x, ro_targetSet := True\<rparr>\<rparr>"
  have "run_state (started ro_upd (WriteNumber k rotator_table ''MoveAbsolute'' x)) e0 = (None, e1)"
    using assms(1) by (auto simp: moveAbsolute_def Avail_def set_target_def e0_def split: if_splits)
  from ro.started_marks [OF this sends_kit(5)]
  have "i_active (ro_move (e_dev e2))" "i_at (ro_move (e_dev e2)) = w_time (e_world e (Suc (e_clock e)))"
    using assms(2) by (simp_all add: e0_def)
  with ro.poll_finished [OF assms(3) [unfolded Rotator_IsMoving_def]] show ?thesis by simp
qed

text \<open>The table maps \<^verbatim>\<open>MoveAbsolute\<close>, so the write reaches the range check.\<close>

lemma rotator_mapped:
  "mapped rotator_table ''MoveAbsolute'' = Inr (row Func ''ABS_ROTATOR_ANGLE'' ''ANGLE'' ''moveAbsolute'' [])"
  by (simp add: mapped_def rotator_table_def)

lemma rnd_below_360: "rnd (- (1 / 2 ^ 60) + 360) = Fin 360"
proof -
  define q :: rat where "q = - (1 / 2 ^ 60) + 360"
  have q: "0 < q" "q / 2 powi (- 44) = 360 * 2 ^ 44 - 1 / 2 ^ 16" by (simp_all add: q_def field_simps)
  have "ilog 2 q = 8" by (rule ilog_unique) (simp_all add: q_def)
  then have u: "ulp_exp q = - 44" by (simp add: ulp_exp_def)
  have "rne (q / 2 powi (- 44)) = 360 * 2 ^ 44" unfolding q(2) by (rule rne_near) simp
  then have "of_int (rne (q / 2 powi (- 44))) * 2 powi (- 44) = (360 :: rat)"
    by (simp add: power_int_minus)
  then have "rnd q = Fin 360" using q(1) by (simp add: rnd_def Let_def u f64_limit_def)
  then show ?thesis by (simp only: q_def)
qed

text \<open>
  A wrapped angle lies between 0 and 360, and is unchanged if it was there already; the upper
  end is reached, because the smallest negative angles round up to 360 when 360 is added, although
  the code's comment promises the interval without 360.
\<close>

theorem wrap360_range:
  "(case wrap360 (Fin a) of Fin r \<Rightarrow> 0 \<le> r \<and> r \<le> 360 | _ \<Rightarrow> False) \<and>
    (if 0 \<le> a \<and> a < 360 then wrap360 (Fin a) = Fin a else True) \<and>
    wrap360 (Fin (- 1 / 2 ^ 60)) = Fin 360"
proof (intro conjI)
  define t where "t = a - 360 * of_int (trunc (a / 360))"
  have t: "- 360 < t" "t < 360" "0 \<le> a \<Longrightarrow> 0 \<le> t"
    unfolding t_def trunc_def by (auto split: if_splits) linarith+
  show "case wrap360 (Fin a) of Fin r \<Rightarrow> 0 \<le> r \<and> r \<le> 360 | _ \<Rightarrow> False"
  proof (cases "t < 0")
    case True
    then obtain r where "rnd (t + 360) = Fin r" "0 \<le> r" "r \<le> 360"
      using t rnd_upto [of "t + 360" 360] by auto
    then show ?thesis using True by (simp add: wrap360_def t_def [symmetric])
  next
    case False
    then show ?thesis using t by (simp add: wrap360_def t_def [symmetric])
  qed
  show "if 0 \<le> a \<and> a < 360 then wrap360 (Fin a) = Fin a else True"
  proof -
    have "0 \<le> a \<Longrightarrow> a < 360 \<Longrightarrow> \<lfloor>a / 360\<rfloor> = 0" by (simp add: floor_eq_iff)
    then show ?thesis by (auto simp: wrap360_def trunc_def Let_def)
  qed
  show "wrap360 (Fin (- 1 / 2 ^ 60)) = Fin 360"
  proof -
    have "\<lceil>- 1 / 2 ^ 60 / 360 :: rat\<rceil> = 0" by (simp add: ceiling_eq_iff)
    then have "f_modc (Fin (- 1 / 2 ^ 60)) 360 = Fin (- (1 / 2 ^ 60))" by (simp add: trunc_def)
    then show ?thesis using rnd_below_360 by (simp add: wrap360_def)
  qed
qed

text \<open>A driver that serves one angle between 0 and 360, at every instant.\<close>

definition angle_vector :: Vector where
  "angle_vector = def_vector (zero_element\<lparr>e_Name := ''ABS_ROTATOR_ANGLE'', e_Device := ''R'',
     e_Members := [zero_member\<lparr>m_Name := ''ANGLE'', m_Value := Fin 7, m_HasRange := True, m_Max := Fin 360\<rparr>]\<rparr>) 5"

definition angle_env :: "Rotator Env" where
  "angle_env = \<lparr>e_world = (\<lambda>_. \<lparr>w_snap = \<lparr>s_gen = 2, s_valid = True, s_devices = [(''R'', [(''ABS_ROTATOR_ANGLE'', angle_vector)])]\<rparr>,
       w_serving = True, w_reason = [], w_time = 9, w_send = None, w_update = None, w_settle = Inr (Ok, [])\<rparr>),
     e_clock = 0, e_sent = [],
     e_dev = \<lparr>ro_target = Fin 0, ro_targetSet = False, ro_move = \<lparr>i_at = 0, i_active = False\<rparr>\<rparr>\<rparr>"

lemma angle_member:
  "Vector_Member angle_vector ''ANGLE'' =
    Some \<lparr>mv_Member = zero_member\<lparr>m_Name := ''ANGLE'', m_Value := Fin 7, m_HasRange := True, m_Max := Fin 360\<rparr>, mv_Arrived = 5\<rparr>"
  by (simp add: angle_vector_def def_vector_def Vector_Member_def index_members_def zero_element_def zero_member_def)

lemma angle_run:
  "run_state (moveAbsolute ''R'' (Fin x)) angle_env =
    (if x < 0 \<or> 360 < x
     then (Some (range_error ''MoveAbsolute'' (Fin x) (zero_member\<lparr>m_Name := ''ANGLE'', m_Value := Fin 7, m_HasRange := True, m_Max := Fin 360\<rparr>)),
       angle_env\<lparr>e_clock := 4, e_dev := \<lparr>ro_target = Fin x, ro_targetSet = True, ro_move = \<lparr>i_at = 9, i_active = False\<rparr>\<rparr>\<rparr>)
     else (None, angle_env\<lparr>e_clock := 6, e_sent := [CNumber ''R'' ''ABS_ROTATOR_ANGLE'' [(''ANGLE'', Fin x)]],
       e_dev := \<lparr>ro_target = Fin x, ro_targetSet = True, ro_move = \<lparr>i_at = 9, i_active = True\<rparr>\<rparr>\<rparr>))"
  by (simp add: moveAbsolute_def Avail_def set_target_def started_def op_start_def op_clear_def Now_def WriteNumber_def
      rotator_mapped run_kit_vector run_send angle_member out_of_range_def zero_member_def
      angle_env_def ro_upd_def Inflight_Start_def Inflight_Clear_def Snapshot_Vector_def props_of_def kit_name_def Let_def)

text \<open>The same driver acknowledging at time 10 from instant 10 on.\<close>

definition acked_world :: World where
  "acked_world = (e_world angle_env 0)\<lparr>w_snap := \<lparr>s_gen = 3, s_valid = True,
     s_devices = [(''R'', [(''ABS_ROTATOR_ANGLE'', angle_vector\<lparr>v_Updated := 10\<rparr>)])]\<rparr>\<rparr>"

theorem Rotator_move_reported_witness:
  "\<exists>i. during (angle_env\<lparr>e_world := (\<lambda>_. acked_world), e_dev := \<lparr>ro_target = Fin 3, ro_targetSet = True, ro_move = \<lparr>i_at = 9, i_active = True\<rparr>\<rparr>\<rparr>)
      (angle_env\<lparr>e_world := (\<lambda>_. acked_world), e_clock := 5,
        e_dev := \<lparr>ro_target = Fin 3, ro_targetSet = True, ro_move = \<lparr>i_at = 9, i_active = False\<rparr>\<rparr>\<rparr>) i \<and>
    (\<not> w_serving (e_world (angle_env\<lparr>e_world := (\<lambda>_. acked_world), e_dev := \<lparr>ro_target = Fin 3, ro_targetSet = True, ro_move = \<lparr>i_at = 9, i_active = True\<rparr>\<rparr>\<rparr>) i) \<or>
     w_time (e_world angle_env (Suc (e_clock angle_env))) <
       updated_at ''R'' (e_world (angle_env\<lparr>e_world := (\<lambda>_. acked_world), e_dev := \<lparr>ro_target = Fin 3, ro_targetSet = True, ro_move = \<lparr>i_at = 9, i_active = True\<rparr>\<rparr>\<rparr>) i) ''ABS_ROTATOR_ANGLE'')"
proof (rule Rotator_move_reported)
  show "run_state (moveAbsolute ''R'' (Fin 3)) angle_env = (None, angle_env\<lparr>e_clock := 6,
      e_sent := [CNumber ''R'' ''ABS_ROTATOR_ANGLE'' [(''ANGLE'', Fin 3)]],
      e_dev := \<lparr>ro_target = Fin 3, ro_targetSet = True, ro_move = \<lparr>i_at = 9, i_active = True\<rparr>\<rparr>\<rparr>)"
    by (simp add: angle_run)
  show "run_state (Rotator_IsMoving ''R'') (angle_env\<lparr>e_world := (\<lambda>_. acked_world),
        e_dev := \<lparr>ro_target = Fin 3, ro_targetSet = True, ro_move = \<lparr>i_at = 9, i_active = True\<rparr>\<rparr>\<rparr>) =
      (False, angle_env\<lparr>e_world := (\<lambda>_. acked_world), e_clock := 5,
        e_dev := \<lparr>ro_target = Fin 3, ro_targetSet = True, ro_move = \<lparr>i_at = 9, i_active = False\<rparr>\<rparr>\<rparr>)"
    by (simp add: Rotator_IsMoving_def in_progress_def Avail_def run_StateOf run_UpdatedOf op_active_def
        Inflight_Active_def ro_upd_def acked_world_def angle_env_def updated_at_def Snapshot_Vector_def props_of_def
        kit_name_def angle_vector_def def_vector_def zero_element_def)
qed simp

text \<open>
  The target position is documented as the last commanded angle, but a move that was refused, for
  instance because the angle is outside the driver's range, leaves the refused angle there: nothing
  moves, nothing was sent to move, and the target position is an angle the rotator was never sent to.
\<close>

theorem refused_move_is_target:
  assumes "w_serving (e_world e (e_clock e))" "run_state (moveAbsolute k x) e = (Some er, e1)"
  shows "fst (run_state (Rotator_TargetPosition k) e1) = x \<and> \<not> i_active (ro_move (e_dev e1))"
proof -
  define e0 where "e0 = e\<lparr>e_clock := Suc (Suc (e_clock e)), e_dev := ro_upd (Inflight_Start (w_time (e_world e (Suc (e_clock e)))))
      ((e_dev e)\<lparr>ro_target := x, ro_targetSet := True\<rparr>)\<rparr>"
  obtain r e2 where s: "run_state (WriteNumber k rotator_table ''MoveAbsolute'' x) e0 = (r, e2)" by fastforce
  then have "e1 = e2\<lparr>e_dev := ro_upd Inflight_Clear (e_dev e2)\<rparr>"
    using assms by (auto simp: moveAbsolute_def Avail_def set_target_def started_def op_start_def op_clear_def Now_def e0_def
        split: option.splits)
  moreover have "e_dev e2 = e_dev e0" using sendsD [OF sends_kit(5) s] by simp
  ultimately show ?thesis
    by (simp add: Rotator_TargetPosition_def e0_def ro_upd_def Inflight_Clear_def)
qed

theorem refused_move_is_target_witness:
  "fst (run_state (Rotator_TargetPosition ''R'')
      (angle_env\<lparr>e_clock := 4, e_dev := \<lparr>ro_target = Fin 1000, ro_targetSet = True, ro_move = \<lparr>i_at = 9, i_active = False\<rparr>\<rparr>\<rparr>)) = Fin 1000 \<and>
    \<not> i_active (ro_move (e_dev (angle_env\<lparr>e_clock := 4, e_dev := \<lparr>ro_target = Fin 1000, ro_targetSet = True, ro_move = \<lparr>i_at = 9, i_active = False\<rparr>\<rparr>\<rparr>)))"
  by (rule refused_move_is_target [of angle_env "''R''" "Fin 1000"])
    (simp_all add: angle_run, simp_all add: angle_env_def)

end
