(* ===== verification/Device_FilterWheel.thy ===== *)
theory Device_FilterWheel
  imports Device_Base
begin

text \<open>
  The filter wheel (\<^verbatim>\<open>internal/devtype/filterwheel\<close>): slots count from 1 in INDI and from 0 in
  ASCOM, the position is -1 while the wheel moves, and missing names are made up from the slot
  range. \<^verbatim>\<open>Names\<close> may panic: its result is \<^const>\<open>None\<close> then.
\<close>

definition filterwheel_table :: Table where
  "filterwheel_table =
    [(''Position'', row Func ''FILTER_SLOT'' ''FILTER_SLOT_VALUE'' ''Position'' ''INDI is 1-based, ASCOM 0-based; -1 while Busy or in-flight, never the slot it is heading for''),
     (''Names'', row Func ''FILTER_NAME'' [] ''Names'' ''FILTER_NAME in slot order, or names generated from FILTER_SLOT bounds''),
     (''FocusOffsets'', row Synthesised [] [] [] ''not in INDI; zeros, one per Name, clients keep offsets in their own calibration'')]"

record FilterWheel =
  fw_move :: Inflight

definition fw_upd :: "FilterWheel setter" where
  "fw_upd f d = d\<lparr>fw_move := f (fw_move d)\<rparr>"

interpretation fw: inflight_bit fw_move fw_upd
  by unfold_locales (simp add: fw_upd_def)

subsection \<open>Operations\<close>

definition FilterWheel_Connecting :: "bool \<Rightarrow> (FilterWheel, bool) kitM" where
  "FilterWheel_Connecting base = (if base then ret True else do { (ok, _) \<leftarrow> Avail; ret (\<not> ok) })"

definition FilterWheel_moving :: "Kit \<Rightarrow> (FilterWheel, bool) kitM" where
  "FilterWheel_moving k = in_progress fw_move fw_upd k ''FILTER_SLOT''"

definition FilterWheel_Busy :: "Kit \<Rightarrow> (FilterWheel, bool) kitM" where
  "FilterWheel_Busy k = FilterWheel_moving k"

definition FilterWheel_Position :: "Kit \<Rightarrow> (FilterWheel, int) kitM" where
  "FilterWheel_Position k = do {
     m \<leftarrow> FilterWheel_moving k;
     if m then ret (- 1)
     else do {
       r \<leftarrow> Kit_Vector k ''FILTER_SLOT'';
       ret (case r of Inl _ \<Rightarrow> - 1
         | Inr v \<Rightarrow> (case Vector_Member v ''FILTER_SLOT_VALUE'' of None \<Rightarrow> - 1
             | Some m \<Rightarrow> wrap64 (f_int (m_Value (mv_Member m)) - 1)))
     }
   }"

definition FilterWheel_SetPosition :: "Kit \<Rightarrow> int \<Rightarrow> (FilterWheel, AlpacaError option) kitM" where
  "FilterWheel_SetPosition k pos = do {
     (ok, reason) \<leftarrow> Avail;
     if \<not> ok then ret (Some (NotConnected reason))
     else started fw_upd (WriteNumber k filterwheel_table ''Position'' (f_add (f_of_int pos) (Fin 1)))
   }"

text \<open>\<^verbatim>\<open>make([]string, n)\<close> panics when the length is negative or its 16 bytes per string exceed what
  the run time can allocate.\<close>

definition make_strings :: "int \<Rightarrow> string list option" where
  "make_strings n = (if n < 0 \<or> maxAlloc < 16 * n then None else Some (replicate (nat n) []))"

definition slot_names :: "Kit \<Rightarrow> (FilterWheel, string list option) kitM" where
  "slot_names k = do {
     r \<leftarrow> Kit_Vector k ''FILTER_SLOT'';
     ret (case r of Inl _ \<Rightarrow> Some []
       | Inr v \<Rightarrow> (case Vector_Member v ''FILTER_SLOT_VALUE'' of None \<Rightarrow> Some []
           | Some mv \<Rightarrow> let m = mv_Member mv in
               if m_HasRange m \<and> f_le (m_Min m) (m_Max m) then
                 map_option (\<lambda>out. map (\<lambda>i. ''Filter '' @ dec (i + 1)) [0..<length out])
                   (make_strings (wrap64 (f_int (f_sub (m_Max m) (m_Min m)) + 1)))
               else Some []))
   }"

definition FilterWheel_Names :: "Kit \<Rightarrow> (FilterWheel, string list option) kitM" where
  "FilterWheel_Names k = do {
     n \<leftarrow> Kit_Vector k ''FILTER_NAME'';
     (case n of
        Inr v \<Rightarrow> if v_Members v \<noteq> [] then ret (Some (map (\<lambda>m. m_Text (mv_Member m)) (v_Members v))) else slot_names k
      | Inl _ \<Rightarrow> slot_names k)
   }"

definition FilterWheel_FocusOffsets :: "Kit \<Rightarrow> (FilterWheel, int list option) kitM" where
  "FilterWheel_FocusOffsets k = do { ns \<leftarrow> FilterWheel_Names k; ret (map_option (\<lambda>ns. replicate (length ns) 0) ns) }"

definition filterwheel_consumed :: "string \<Rightarrow> bool" where
  "filterwheel_consumed = Consumed filterwheel_table []"

definition FilterWheel_Validate :: "Snapshot \<Rightarrow> string \<Rightarrow> string list" where
  "FilterWheel_Validate snap device = Validate filterwheel_table filterwheel_consumed snap device"

definition FilterWheel_SupportedActions :: "Kit \<Rightarrow> (FilterWheel, string list) kitM" where
  "FilterWheel_SupportedActions k = Supported \<lparr>en_kit = k, en_consumed = filterwheel_consumed\<rparr>"

definition FilterWheel_Action ::
  "Kit \<Rightarrow> (string \<Rightarrow> string \<Rightarrow> string \<times> AlpacaError option) \<Rightarrow> string \<Rightarrow> string
    \<Rightarrow> (FilterWheel, string \<times> AlpacaError option) kitM" where
  "FilterWheel_Action k base name params =
     device_action \<lparr>en_kit = k, en_consumed = filterwheel_consumed\<rparr> base name params"

subsection \<open>Properties\<close>

lemma slot_mapped:
  "mapped filterwheel_table ''Position'' =
    Inr (row Func ''FILTER_SLOT'' ''FILTER_SLOT_VALUE'' ''Position'' ''INDI is 1-based, ASCOM 0-based; -1 while Busy or in-flight, never the slot it is heading for'')"
  by (simp add: mapped_def filterwheel_table_def)

lemma slot_value: "0 \<le> p \<Longrightarrow> p < 2 ^ 53 - 1 \<Longrightarrow> f_add (f_of_int p) (Fin 1) = Fin (of_int (p + 1))"
  using rnd_of_int [of p] rnd_of_int [of "p + 1"] by (simp add: f_of_int_def)

lemma run_Kit_Vector: "run_state (Kit_Vector k vec) e = run_state (kit_vector k vec vec) e"
  by (simp add: Kit_Vector_def)

text \<open>A position other than -1 is the value of a vector served during the call, after a poll that
  did not find the wheel moving.\<close>

lemma position_read:
  assumes "run_state (FilterWheel_Position k) e = (q, e')" "q \<noteq> - 1"
  obtains e1 v m where "run_state (FilterWheel_moving k) e = (False, e1)"
    "serves k (e_world e1 (Suc (e_clock e1))) ''FILTER_SLOT'' v"
    "Vector_Member v ''FILTER_SLOT_VALUE'' = Some m" "q = wrap64 (f_int (m_Value (mv_Member m)) - 1)"
    "e' = e1\<lparr>e_clock := Suc (Suc (e_clock e1))\<rparr>"
proof -
  obtain b e1 where b: "run_state (FilterWheel_moving k) e = (b, e1)" by fastforce
  with assms have nb: "\<not> b" by (auto simp: FilterWheel_Position_def)
  obtain r e2 where r: "run_state (kit_vector k ''FILTER_SLOT'' ''FILTER_SLOT'') e1 = (r, e2)" by fastforce
  with assms b nb obtain v m where v: "r = Inr v" "Vector_Member v ''FILTER_SLOT_VALUE'' = Some m"
      "q = wrap64 (f_int (m_Value (mv_Member m)) - 1)" "e' = e2"
    by (auto simp: FilterWheel_Position_def run_Kit_Vector split: sum.splits option.splits)
  show ?thesis
    using that [of e1 v m] b nb v kit_vector_serves [OF r [unfolded v(1)]] by simp
qed

text \<open>
  Slots survive the change of base: setting position \<open>p\<close> sends exactly one command with the value
  \<open>p + 1\<close>, and when the driver serves that value a position that is read and is not -1 is \<open>p\<close> again,
  for every slot a \<^verbatim>\<open>float64\<close> counts exactly; and it is not read before the driver acknowledged the
  move or was lost.
\<close>

theorem slot_roundtrip:
  assumes "run_state (FilterWheel_SetPosition k p) e = (None, e1)" "0 \<le> p" "p < 2 ^ 53 - 1"
    "e_dev e2 = e_dev e1" "run_state (FilterWheel_Position k) e2 = (q, e3)" "q \<noteq> - 1"
    "\<And>i v m. serves k (e_world e2 i) ''FILTER_SLOT'' v \<Longrightarrow> Vector_Member v ''FILTER_SLOT_VALUE'' = Some m \<Longrightarrow>
      m_Value (mv_Member m) = f_add (f_of_int p) (Fin 1)"
  shows "q = p \<and> (\<exists>dev. e_sent e1 = e_sent e @ [CNumber dev ''FILTER_SLOT'' [(''FILTER_SLOT_VALUE'', Fin (of_int (p + 1)))]]) \<and>
    (\<exists>i. during e2 e3 i \<and> (\<not> w_serving (e_world e2 i) \<or>
       w_time (e_world e (Suc (e_clock e))) < updated_at k (e_world e2 i) ''FILTER_SLOT''))"
proof (intro conjI)
  let ?x = "f_add (f_of_int p) (Fin 1)" and ?e0 = "e\<lparr>e_clock := Suc (e_clock e)\<rparr>"
  obtain e1' v m where r: "run_state (FilterWheel_moving k) e2 = (False, e1')"
    "serves k (e_world e1' (Suc (e_clock e1'))) ''FILTER_SLOT'' v"
    "Vector_Member v ''FILTER_SLOT_VALUE'' = Some m" "q = wrap64 (f_int (m_Value (mv_Member m)) - 1)"
    "e3 = e1'\<lparr>e_clock := Suc (Suc (e_clock e1'))\<rparr>"
    using position_read [OF assms(5,6)] by blast
  have w: "e_world e1' = e_world e2"
    using r(1) by (auto simp: FilterWheel_moving_def in_progress_def Avail_def run_StateOf run_UpdatedOf op_active_def
      op_clear_def split: if_splits prod.splits)
  show "q = p"
  proof -
    have "f_int (Fin (of_int (p + 1))) = p + 1" using assms(2,3) by (intro f_int_of_int) (simp add: fits64_def)
    then show ?thesis
      using assms(7) [OF r(2,3) [unfolded w]] r(4) assms(2,3) slot_value [of p] by (simp add: wrap64_id del: f_int.simps)
  qed
  have st: "run_state (started fw_upd (WriteNumber k filterwheel_table ''Position'' ?x)) ?e0 = (None, e1)"
    using assms(1) by (auto simp: FilterWheel_SetPosition_def Avail_def split: if_splits)
  from fw.started_marks [OF this sends_kit(5)]
  have a: "i_active (fw_move (e_dev e2))" "i_at (fw_move (e_dev e2)) = w_time (e_world e (Suc (e_clock e)))"
    using assms(4) by simp_all
  from fw.poll_finished [OF r(1) [unfolded FilterWheel_moving_def] a(1)]
  show "\<exists>i. during e2 e3 i \<and> (\<not> w_serving (e_world e2 i) \<or>
      w_time (e_world e (Suc (e_clock e))) < updated_at k (e_world e2 i) ''FILTER_SLOT'')"
    using r(5) a(2) by (auto simp: during_def)
  show "\<exists>dev. e_sent e1 = e_sent e @ [CNumber dev ''FILTER_SLOT'' [(''FILTER_SLOT_VALUE'', Fin (of_int (p + 1)))]]"
  proof -
    obtain e0 where "run_state (WriteNumber k filterwheel_table ''Position'' ?x) e0 = (None, e1)" "e_sent e0 = e_sent e"
      using started_None [OF st] by auto
    then show ?thesis using WriteNumber_None [OF _ slot_mapped] slot_value [OF assms(2,3)] by fastforce
  qed
qed

text \<open>A wheel whose driver serves one slot, with the given value and range, at every instant.\<close>

definition slot_member :: "f64 \<Rightarrow> f64 \<Rightarrow> Member" where
  "slot_member x mx = zero_member\<lparr>m_Name := ''FILTER_SLOT_VALUE'', m_Value := x, m_HasRange := True, m_Max := mx\<rparr>"

definition slot_vector :: "f64 \<Rightarrow> f64 \<Rightarrow> Vector" where
  "slot_vector x mx = def_vector (zero_element\<lparr>e_Name := ''FILTER_SLOT'', e_Device := ''W'', e_Members := [slot_member x mx]\<rparr>) 10"

definition slot_world :: "f64 \<Rightarrow> f64 \<Rightarrow> World" where
  "slot_world x mx = \<lparr>w_snap = \<lparr>s_gen = 2, s_valid = True, s_devices = [(''W'', [(''FILTER_SLOT'', slot_vector x mx)])]\<rparr>,
     w_serving = True, w_reason = [], w_time = 9, w_send = None, w_update = None, w_settle = Inr (Ok, [])\<rparr>"

definition slot_env :: "f64 \<Rightarrow> f64 \<Rightarrow> FilterWheel Env" where
  "slot_env x mx = \<lparr>e_world = (\<lambda>_. slot_world x mx), e_clock = 0, e_sent = [], e_dev = \<lparr>fw_move = \<lparr>i_at = 0, i_active = False\<rparr>\<rparr>\<rparr>"

lemma slot_lookup:
  "Vector_Member (slot_vector x mx) ''FILTER_SLOT_VALUE'' = Some \<lparr>mv_Member = slot_member x mx, mv_Arrived = 10\<rparr>"
  "Snapshot_Vector (w_snap (slot_world x mx)) ''W'' ''FILTER_SLOT'' = Some (slot_vector x mx)"
  "Snapshot_Vector (w_snap (slot_world x mx)) ''W'' ''FILTER_NAME'' = None"
  "kit_name ''W'' sn = ''W''" "w_serving (slot_world x mx)" "s_valid (w_snap (slot_world x mx))"
  "w_send (slot_world x mx) = None" "w_time (slot_world x mx) = 9" "v_State (slot_vector x mx) = Idle"
  "v_Updated (slot_vector x mx) = 10"
  by (simp_all add: slot_vector_def def_vector_def Vector_Member_def index_members_def zero_element_def zero_member_def
      slot_member_def slot_world_def Snapshot_Vector_def props_of_def kit_name_def)

definition set_env :: "FilterWheel Env" where
  \<comment> \<open>after slot 2 was set\<close>
  "set_env = (slot_env (Fin 3) (Fin 5))\<lparr>e_clock := 6, e_sent := [CNumber ''W'' ''FILTER_SLOT'' [(''FILTER_SLOT_VALUE'', Fin 3)]],
     e_dev := \<lparr>fw_move = \<lparr>i_at = 9, i_active = True\<rparr>\<rparr>\<rparr>"

theorem slot_roundtrip_witness:
  "2 = (2 :: int) \<and> (\<exists>dev. e_sent set_env = e_sent (slot_env (Fin 3) (Fin 5)) @ [CNumber dev ''FILTER_SLOT'' [(''FILTER_SLOT_VALUE'', Fin (of_int (2 + 1)))]]) \<and>
    (\<exists>i. during set_env (set_env\<lparr>e_clock := 13, e_dev := \<lparr>fw_move = \<lparr>i_at = 9, i_active = False\<rparr>\<rparr>\<rparr>) i \<and>
      (\<not> w_serving (e_world set_env i) \<or>
       w_time (e_world (slot_env (Fin 3) (Fin 5)) (Suc (e_clock (slot_env (Fin 3) (Fin 5))))) <
         updated_at ''W'' (e_world set_env i) ''FILTER_SLOT''))"
proof (rule slot_roundtrip)
  have three: "f_add (f_of_int 2) (Fin 1) = Fin 3" using slot_value [of 2] by simp
  have "trunc 3 = 3" using trunc_of_int [of 3] by simp
  then have three': "f_int (Fin 3) = 3" by (simp add: fits64_def)
  show "run_state (FilterWheel_SetPosition ''W'' 2) (slot_env (Fin 3) (Fin 5)) = (None, set_env)"
    by (simp add: FilterWheel_SetPosition_def Avail_def started_def op_start_def op_clear_def Now_def WriteNumber_def
      slot_mapped run_kit_vector run_send slot_lookup out_of_range_def three slot_member_def zero_member_def slot_env_def
      set_env_def fw_upd_def Inflight_Start_def Let_def)
  show "run_state (FilterWheel_Position ''W'') set_env =
      (2, set_env\<lparr>e_clock := 13, e_dev := \<lparr>fw_move = \<lparr>i_at = 9, i_active = False\<rparr>\<rparr>\<rparr>)"
    by (simp add: FilterWheel_Position_def FilterWheel_moving_def in_progress_def Avail_def run_StateOf run_UpdatedOf
      op_active_def Inflight_Active_def fw_upd_def set_env_def slot_env_def updated_at_def slot_lookup run_Kit_Vector
      run_kit_vector slot_member_def three' wrap64_id Let_def del: f_int.simps)
  show "m_Value (mv_Member m) = f_add (f_of_int 2) (Fin 1)"
    if "serves ''W'' (e_world set_env i) ''FILTER_SLOT'' v" "Vector_Member v ''FILTER_SLOT_VALUE'' = Some m" for i v m
    using that by (auto simp: serves_def set_env_def slot_env_def slot_lookup slot_member_def three)
qed simp_all

text \<open>
  The generated names take their number from the driver's slot range without a bound: a driver
  that declares slots up to ten to the fifteenth and no names makes \<^verbatim>\<open>Names\<close> panic.
\<close>

theorem Names_panics:
  assumes "\<And>i. e_world e i = w" "w_serving w" "serves k w ''FILTER_SLOT'' v"
    "Snapshot_Vector (w_snap w) (kit_name k (w_snap w)) ''FILTER_NAME'' = None"
    "Vector_Member v ''FILTER_SLOT_VALUE'' = Some m" "m_HasRange (mv_Member m)"
    "m_Min (mv_Member m) = Fin 0" "m_Max (mv_Member m) = Fin (10 ^ 15)"
  shows "fst (run_state (FilterWheel_Names k) e) = None"
proof -
  have "rnd (of_int (10 ^ 15)) = Fin (of_int (10 ^ 15))" by (rule rnd_of_int) simp
  then have "f_sub (Fin (10 ^ 15)) (Fin 0) = Fin (of_int (10 ^ 15))" by (simp add: f_sub_def)
  moreover have "f_int (Fin (of_int (10 ^ 15))) = 10 ^ 15" by (rule f_int_of_int) (simp add: fits64_def)
  ultimately have "make_strings (wrap64 (f_int (f_sub (Fin (10 ^ 15)) (Fin 0)) + 1)) = None"
    by (simp add: make_strings_def wrap64_id maxAlloc_def del: f_int.simps)
  then show ?thesis
    using assms by (simp add: FilterWheel_Names_def slot_names_def run_Kit_Vector run_kit_vector serves_def f_le_def
      Let_def del: f_int.simps)
qed

theorem Names_panics_witness:
  "fst (run_state (FilterWheel_Names ''W'') (slot_env (Fin 3) (Fin (10 ^ 15)))) = None"
  by (rule Names_panics [where w = "slot_world (Fin 3) (Fin (10 ^ 15))" and v = "slot_vector (Fin 3) (Fin (10 ^ 15))"
        and m = "\<lparr>mv_Member = slot_member (Fin 3) (Fin (10 ^ 15)), mv_Arrived = 10\<rparr>"])
    (simp_all add: slot_env_def slot_lookup serves_def slot_member_def zero_member_def)

end
