(* ===== verification/Device_Focuser.thy ===== *)
theory Device_Focuser
  imports Device_Base
begin

text \<open>
  The focuser (\<^verbatim>\<open>internal/devtype/focuser\<close>): absolute positions in steps, an in-flight bit, and the
  state list read from one snapshot.
\<close>

definition focuser_table :: Table where
  "focuser_table =
    [(''Position'', row Func [] [] ''Position'' ''ABS_FOCUS_POSITION; absent on a relative-only focuser, not zero''),
     (''Move'', row Func ''ABS_FOCUS_POSITION'' ''FOCUS_ABSOLUTE_POSITION'' ''Move'' []),
     (''Halt'', row Mapped ''FOCUS_ABORT_MOTION'' ''ABORT'' [] []),
     (''MaxStep'', row Func [] [] ''MaxStep'' ''FOCUS_MAX value, else ABS member max''),
     (''MaxIncrement'', row Func [] [] ''MaxIncrement'' ''REL_FOCUS_POSITION member max where present, else MaxStep''),
     (''IsMoving'', row Derived [] [] [] ''ABS_FOCUS_POSITION (or REL) state == Busy''),
     (''Absolute'', row Derived [] [] [] ''presence of ABS_FOCUS_POSITION''),
     (''Temperature'', row Mapped ''FOCUS_TEMPERATURE'' ''TEMPERATURE'' [] []),
     (''TempComp'', row Derived [] [] [] ''no standard temperature-compensation mapping; TempCompAvailable is false''),
     (''TempCompAvailable'', row Derived [] [] [] ''presence of a temperature-compensation property; none is standard''),
     (''StepSize'', row Absent [] [] [] ''no standard INDI property for micrometres per step'')]"

record Focuser =
  fo_move :: Inflight

definition fo_upd :: "Focuser setter" where
  "fo_upd f d = d\<lparr>fo_move := f (fo_move d)\<rparr>"

interpretation fo: inflight_bit fo_move fo_upd
  by unfold_locales (simp add: fo_upd_def)

subsection \<open>Operations\<close>

definition Focuser_Connecting :: "bool \<Rightarrow> (Focuser, bool) kitM" where
  "Focuser_Connecting base = (if base then ret True else do { (ok, _) \<leftarrow> Avail; ret (\<not> ok) })"

definition Focuser_Absolute :: "Kit \<Rightarrow> (Focuser, bool) kitM" where
  "Focuser_Absolute k = Has k ''ABS_FOCUS_POSITION''"

definition Focuser_IsMoving :: "Kit \<Rightarrow> (Focuser, bool) kitM" where
  "Focuser_IsMoving k = do {
     (ok, _) \<leftarrow> Avail;
     if \<not> ok then do { op_clear fo_upd; ret False }
     else do {
       a \<leftarrow> StateOf k ''ABS_FOCUS_POSITION'';
       if a = Busy then ret True
       else do {
         r \<leftarrow> StateOf k ''REL_FOCUS_POSITION'';
         if r = Busy then ret True
         else do { u \<leftarrow> UpdatedOf k ''ABS_FOCUS_POSITION''; op_active fo_move fo_upd u }
       }
     }
   }"

definition Focuser_Busy :: "Kit \<Rightarrow> (Focuser, bool) kitM" where
  "Focuser_Busy k = Focuser_IsMoving k"

definition Focuser_Position :: "Kit \<Rightarrow> (Focuser, AlpacaError + int) kitM" where
  "Focuser_Position k = do {
     (ok, reason) \<leftarrow> Avail;
     if \<not> ok then ret (Inl (NotConnected reason))
     else do {
       has \<leftarrow> Has k ''ABS_FOCUS_POSITION'';
       if \<not> has then ret (Inl (NotImplemented ''Position''))
       else bindE (Kit_Vector k ''ABS_FOCUS_POSITION'') (\<lambda>v.
         ret (case Vector_Member v ''FOCUS_ABSOLUTE_POSITION'' of
             None \<Rightarrow> Inl (NotImplemented ''Position'')
           | Some m \<Rightarrow> Inr (f_int (m_Value (mv_Member m)))))
     }
   }"

definition abs_max :: "Kit \<Rightarrow> (Focuser, int) kitM" where
  "abs_max k = do {
     r \<leftarrow> Kit_Vector k ''ABS_FOCUS_POSITION'';
     ret (case r of Inl _ \<Rightarrow> 0
       | Inr v \<Rightarrow> (case Vector_Member v ''FOCUS_ABSOLUTE_POSITION'' of None \<Rightarrow> 0
           | Some m \<Rightarrow> if m_HasRange (mv_Member m) then f_int (m_Max (mv_Member m)) else 0))
   }"

definition Focuser_MaxStep :: "Kit \<Rightarrow> (Focuser, int) kitM" where
  "Focuser_MaxStep k = do {
     r \<leftarrow> Kit_Vector k ''FOCUS_MAX'';
     (case r of
        Inr v \<Rightarrow> (case Vector_Member v ''FOCUS_MAX_VALUE'' of
            Some m \<Rightarrow> ret (f_int (m_Value (mv_Member m))) | None \<Rightarrow> abs_max k)
      | Inl _ \<Rightarrow> abs_max k)
   }"

definition Focuser_MaxIncrement :: "Kit \<Rightarrow> (Focuser, int) kitM" where
  "Focuser_MaxIncrement k = do {
     r \<leftarrow> Kit_Vector k ''REL_FOCUS_POSITION'';
     (case r of
        Inr v \<Rightarrow> (case Vector_Member v ''FOCUS_RELATIVE_POSITION'' of
            Some m \<Rightarrow> if m_HasRange (mv_Member m) then ret (f_int (m_Max (mv_Member m))) else Focuser_MaxStep k
          | None \<Rightarrow> Focuser_MaxStep k)
      | Inl _ \<Rightarrow> Focuser_MaxStep k)
   }"

definition Focuser_Temperature :: "Kit \<Rightarrow> (Focuser, AlpacaError + f64) kitM" where
  "Focuser_Temperature k = Number_read k focuser_table ''Temperature''"

definition Focuser_TempCompAvailable :: bool where "Focuser_TempCompAvailable = False"

definition Focuser_TempComp :: bool where "Focuser_TempComp = False"

definition Focuser_SetTempComp :: "bool \<Rightarrow> AlpacaError option" where
  "Focuser_SetTempComp on = Some (NotImplemented ''TempComp'')"

definition Focuser_StepSize :: "AlpacaError + f64" where
  "Focuser_StepSize = Inl (NotImplemented ''StepSize'')"

definition Focuser_Halt :: "Kit \<Rightarrow> (Focuser, AlpacaError option) kitM" where
  "Focuser_Halt k = WriteSwitch k focuser_table ''Halt''"

definition Focuser_Move :: "Kit \<Rightarrow> int \<Rightarrow> (Focuser, AlpacaError option) kitM" where
  "Focuser_Move k position = do {
     (ok, reason) \<leftarrow> Avail;
     if \<not> ok then ret (Some (NotConnected reason))
     else do {
       has \<leftarrow> Has k ''ABS_FOCUS_POSITION'';
       if \<not> has then ret (Some (NotImplemented ''Move''))
       else started fo_upd (WriteNumber k focuser_table ''Move'' (f_of_int position))
     }
   }"

definition Focuser_DeviceState :: "Kit \<Rightarrow> (Focuser, StateValue list) kitM" where
  "Focuser_DeviceState k = do {
     snap \<leftarrow> Snap;
     if \<not> s_valid snap then ret []
     else do {
       dev \<leftarrow> DeviceName k;
       pos \<leftarrow> (case Snapshot_Vector snap dev ''ABS_FOCUS_POSITION'' of None \<Rightarrow> ret []
         | Some v \<Rightarrow> (case Vector_Member v ''FOCUS_ABSOLUTE_POSITION'' of None \<Rightarrow> ret []
           | Some m \<Rightarrow> do {
               b \<leftarrow> (if v_State v = Busy then ret True else op_active fo_move fo_upd (v_Updated v));
               ret [VInt ''Position'' (f_int (m_Value (mv_Member m))), VBool ''IsMoving'' b]
             }));
       ret (pos @ (case Snapshot_Vector snap dev ''FOCUS_TEMPERATURE'' of None \<Rightarrow> []
         | Some v \<Rightarrow> (case Vector_Member v ''TEMPERATURE'' of None \<Rightarrow> []
           | Some m \<Rightarrow> [VFloat ''Temperature'' (m_Value (mv_Member m))])))
     }
   }"

definition focuser_consumed :: "string \<Rightarrow> bool" where
  "focuser_consumed = Consumed focuser_table [''REL_FOCUS_POSITION'', ''FOCUS_MAX'', ''FOCUS_MOTION'']"

definition Focuser_Validate :: "Snapshot \<Rightarrow> string \<Rightarrow> string list" where
  "Focuser_Validate snap device = Validate focuser_table focuser_consumed snap device"

definition Focuser_SupportedActions :: "Kit \<Rightarrow> (Focuser, string list) kitM" where
  "Focuser_SupportedActions k = Supported \<lparr>en_kit = k, en_consumed = focuser_consumed\<rparr>"

definition Focuser_Action ::
  "Kit \<Rightarrow> (string \<Rightarrow> string \<Rightarrow> string \<times> AlpacaError option) \<Rightarrow> string \<Rightarrow> string
    \<Rightarrow> (Focuser, string \<times> AlpacaError option) kitM" where
  "Focuser_Action k base name params =
     device_action \<lparr>en_kit = k, en_consumed = focuser_consumed\<rparr> base name params"

subsection \<open>Properties\<close>

lemma focuser_mapped:
  "mapped focuser_table ''Move'' = Inr (row Func ''ABS_FOCUS_POSITION'' ''FOCUS_ABSOLUTE_POSITION'' ''Move'' [])"
  by (simp add: mapped_def focuser_table_def)

text \<open>A position that is returned was served during the call, truncated to an integer.\<close>

lemma Focuser_Position_truthful:
  assumes "run_state (Focuser_Position k) e = (Inr q, e')"
  shows "\<exists>i v m. during e e' i \<and> serves k (e_world e i) ''ABS_FOCUS_POSITION'' v \<and>
    Vector_Member v ''FOCUS_ABSOLUTE_POSITION'' = Some m \<and> q = f_int (m_Value (mv_Member m))"
proof -
  obtain e1 r e2 where e1: "run_state (Has k ''ABS_FOCUS_POSITION'') (e\<lparr>e_clock := Suc (e_clock e)\<rparr>) = (True, e1)"
    and r: "run_state (kit_vector k ''ABS_FOCUS_POSITION'' ''ABS_FOCUS_POSITION'') e1 = (r, e2)"
    using assms by (cases "run_state (Has k ''ABS_FOCUS_POSITION'') (e\<lparr>e_clock := Suc (e_clock e)\<rparr>)")
      (force simp: Focuser_Position_def Avail_def split: if_splits)
  with assms obtain v m where "r = Inr v" "Vector_Member v ''FOCUS_ABSOLUTE_POSITION'' = Some m"
      "q = f_int (m_Value (mv_Member m))" "e' = e2"
    by (auto simp: Focuser_Position_def Avail_def Kit_Vector_def split: if_splits sum.splits option.splits)
  with kit_vector_serves [of k "''ABS_FOCUS_POSITION''" "''ABS_FOCUS_POSITION''" e1 v e2] r
    readsD [OF reads_kit(8) e1] show ?thesis
    by (intro exI [of _ "Suc (e_clock e1)"] exI [of _ v] exI [of _ m]) (simp add: during_def)
qed

text \<open>
  The two answers to the question whether the focuser moves can differ: while the driver reports
  its relative-position property Busy and its absolute one not, the method says it moves and the
  state list of the same instant says it does not.
\<close>

theorem focuser_state_disagrees:
  assumes "\<And>i. e_world e i = w" "w_serving w" "\<not> i_active (fo_move (e_dev e))"
    "serves k w ''ABS_FOCUS_POSITION'' v" "v_State v \<noteq> Busy" "Vector_Member v ''FOCUS_ABSOLUTE_POSITION'' = Some m"
    "serves k w ''REL_FOCUS_POSITION'' v'" "v_State v' = Busy"
  shows "fst (run_state (Focuser_IsMoving k) e) = True \<and>
    VBool ''IsMoving'' False \<in> set (fst (run_state (Focuser_DeviceState k) e))"
  using assms
  by (simp add: Focuser_IsMoving_def Focuser_DeviceState_def Avail_def Snap_def DeviceName_def run_StateOf serves_def
      op_active_def Inflight_Active_def)

definition focus_vector :: "string \<Rightarrow> string \<Rightarrow> State \<Rightarrow> Vector" where
  "focus_vector vec elem st = def_vector (zero_element\<lparr>e_Name := vec, e_Device := ''F'', e_State := st,
     e_Members := [zero_member\<lparr>m_Name := elem\<rparr>]\<rparr>) 5"

definition focus_env :: "Focuser Env" where
  "focus_env = \<lparr>e_world = (\<lambda>_. \<lparr>w_snap = \<lparr>s_gen = 2, s_valid = True, s_devices = [(''F'',
         [(''ABS_FOCUS_POSITION'', focus_vector ''ABS_FOCUS_POSITION'' ''FOCUS_ABSOLUTE_POSITION'' Ok),
          (''REL_FOCUS_POSITION'', focus_vector ''REL_FOCUS_POSITION'' ''FOCUS_RELATIVE_POSITION'' Busy)])]\<rparr>,
       w_serving = True, w_reason = [], w_time = 9, w_send = None, w_update = None, w_settle = Inr (Ok, [])\<rparr>),
     e_clock = 0, e_sent = [], e_dev = \<lparr>fo_move = \<lparr>i_at = 0, i_active = False\<rparr>\<rparr>\<rparr>"

theorem focuser_state_disagrees_witness:
  "fst (run_state (Focuser_IsMoving ''F'') focus_env) = True \<and>
    VBool ''IsMoving'' False \<in> set (fst (run_state (Focuser_DeviceState ''F'') focus_env))"
  by (rule focuser_state_disagrees [where w = "e_world focus_env 0"
        and v = "focus_vector ''ABS_FOCUS_POSITION'' ''FOCUS_ABSOLUTE_POSITION'' Ok"
        and v' = "focus_vector ''REL_FOCUS_POSITION'' ''FOCUS_RELATIVE_POSITION'' Busy"
        and m = "\<lparr>mv_Member = zero_member\<lparr>m_Name := ''FOCUS_ABSOLUTE_POSITION''\<rparr>, mv_Arrived = 5\<rparr>"])
    (simp_all add: focus_env_def serves_def Snapshot_Vector_def props_of_def kit_name_def focus_vector_def def_vector_def
      Vector_Member_def index_members_def zero_element_def zero_member_def)

end
