(* ===== verification/Device_Safety.thy ===== *)
theory Device_Safety
  imports Device_Base
begin

text \<open>
  The safety monitor (\<^verbatim>\<open>internal/devtype/safety\<close>): one verdict from the lights of the driver's
  safety or weather property. Anything missing is unsafe. The device has no state of its own.
\<close>

definition safety_table :: Table where
  "safety_table =
    [(''IsSafe'', row Func [] [] ''IsSafe'' ''SAFETY_STATUS, else WEATHER_STATUS; requires Ok at vector or all-member level, with no Busy or Alert'')]"

subsection \<open>Operations\<close>

definition Safety_Connecting :: "bool \<Rightarrow> (unit, bool) kitM" where
  "Safety_Connecting base = (if base then ret True else do { (ok, _) \<leftarrow> Avail; ret (\<not> ok) })"

text \<open>The loop over the members: \<^const>\<open>None\<close> when one returns early, else whether all were Ok.\<close>

fun lights_ok :: "Member list \<Rightarrow> bool \<Rightarrow> bool option" where
  "lights_ok [] membersOk = Some membersOk"
| "lights_ok (m # ms) membersOk =
     (if m_LightState m = Busy \<or> m_LightState m = Alert then None
      else lights_ok ms (if m_LightState m \<noteq> Ok then False else membersOk))"

definition allOk_vector :: "Vector \<Rightarrow> bool" where
  "allOk_vector v =
     (if v_Members v = [] then False
      else (case lights_ok (map mv_Member (v_Members v)) True of
        None \<Rightarrow> False
      | Some membersOk \<Rightarrow>
          if v_State v = Busy \<or> v_State v = Alert then False
          else v_State v = Ok \<or> membersOk))"

definition allOk :: "Kit \<Rightarrow> string \<Rightarrow> ('d, bool) kitM" where
  "allOk k vec = do {
     r \<leftarrow> Kit_Vector k vec;
     ret (case r of Inl _ \<Rightarrow> False | Inr v \<Rightarrow> allOk_vector v)
   }"

definition Safety_IsSafe :: "Kit \<Rightarrow> ('d, bool) kitM" where
  "Safety_IsSafe k = do {
     (ok, _) \<leftarrow> Avail;
     if \<not> ok then ret False
     else do {
       s \<leftarrow> Has k ''SAFETY_STATUS'';
       if s then allOk k ''SAFETY_STATUS''
       else do {
         w \<leftarrow> Has k ''WEATHER_STATUS'';
         if w then allOk k ''WEATHER_STATUS'' else ret False
       }
     }
   }"

definition Safety_Description :: "Kit \<Rightarrow> ('d, string) kitM" where
  "Safety_Description k = do {
     desc \<leftarrow> DescriptionText k;
     s \<leftarrow> Has k ''SAFETY_STATUS'';
     if s then ret desc
     else do {
       w \<leftarrow> Has k ''WEATHER_STATUS'';
       ret (if w then desc @ ''; IsSafe synthesised from WEATHER_STATUS thresholds'' else desc)
     }
   }"

definition safety_consumed :: "string \<Rightarrow> bool" where
  "safety_consumed = Consumed safety_table [''SAFETY_STATUS'', ''WEATHER_STATUS'']"

definition Safety_Validate :: "Snapshot \<Rightarrow> string \<Rightarrow> string list" where
  "Safety_Validate snap device = Validate safety_table safety_consumed snap device"

definition Safety_SupportedActions :: "Kit \<Rightarrow> (unit, string list) kitM" where
  "Safety_SupportedActions k = Supported \<lparr>en_kit = k, en_consumed = safety_consumed\<rparr>"

definition Safety_Action ::
  "Kit \<Rightarrow> (string \<Rightarrow> string \<Rightarrow> string \<times> AlpacaError option) \<Rightarrow> string \<Rightarrow> string
    \<Rightarrow> (unit, string \<times> AlpacaError option) kitM" where
  "Safety_Action k base name params =
     device_action \<lparr>en_kit = k, en_consumed = safety_consumed\<rparr> base name params"

subsection \<open>Properties\<close>

lemma lights_ok_iff:
  "lights_ok ms b =
    (if list_all (\<lambda>m. m_LightState m = Ok \<or> m_LightState m = Idle) ms
     then Some (b \<and> list_all (\<lambda>m. m_LightState m = Ok) ms) else None)"
proof (induction ms arbitrary: b)
  case (Cons m ms)
  then show ?case by (cases "m_LightState m") auto
qed simp

text \<open>What a safe vector looks like.\<close>

definition shows_safe :: "Vector \<Rightarrow> bool" where
  "shows_safe v \<longleftrightarrow> v_Members v \<noteq> [] \<and>
     list_all (\<lambda>mv. m_LightState (mv_Member mv) = Ok \<or> m_LightState (mv_Member mv) = Idle) (v_Members v) \<and>
     (v_State v = Ok \<or>
      v_State v = Idle \<and> list_all (\<lambda>mv. m_LightState (mv_Member mv) = Ok) (v_Members v))"

lemma vector_ok_iff: "allOk_vector v = shows_safe v"
  by (cases "v_State v") (auto simp: allOk_vector_def shows_safe_def lights_ok_iff list.pred_map comp_def)

lemma allOk_serves:
  assumes "run_state (allOk k vec) e = (True, e')"
  shows "\<exists>i v. during e e' i \<and> serves k (e_world e i) vec v \<and> shows_safe v"
proof -
  obtain r e1 where r: "run_state (kit_vector k vec vec) e = (r, e1)" by fastforce
  then obtain v where v: "r = Inr v" "shows_safe v" "e' = e1"
    using assms by (auto simp: allOk_def Kit_Vector_def vector_ok_iff split: sum.splits)
  with kit_vector_serves [OF r [unfolded v(1)]] show ?thesis
    by (intro exI [of _ "Suc (e_clock e)"] exI [of _ v]) (simp add: during_def)
qed

text \<open>
  C29: the monitor fails safe: it says safe only if, while it looked, the child was serving and a
  valid snapshot of it held the safety property, or the weather property at a moment when the
  safety property was not defined, with at least one light, no light Busy or Alert, and either the
  property itself Ok, or Idle with every light Ok.
\<close>

theorem IsSafe_sound:
  assumes "run_state (Safety_IsSafe k) e = (True, e')"
  shows "w_serving (e_world e (e_clock e)) \<and>
    (\<exists>i v vec. during e e' i \<and> serves k (e_world e i) vec v \<and> shows_safe v \<and>
      (vec = ''SAFETY_STATUS'' \<or>
       vec = ''WEATHER_STATUS'' \<and> fst (run_state (Has k ''SAFETY_STATUS'') (e\<lparr>e_clock := Suc (e_clock e)\<rparr>)) = False))"
proof -
  let ?e1 = "e\<lparr>e_clock := Suc (e_clock e)\<rparr>"
  have up: "w_serving (e_world e (e_clock e))"
    using assms by (auto simp: Safety_IsSafe_def Avail_def split: if_splits)
  obtain s e2 where s: "run_state (Has k ''SAFETY_STATUS'') ?e1 = (s, e2)" by fastforce
  note r2 = readsD [OF reads_kit(8) s]
  show ?thesis
  proof (cases s)
    case True
    then have "run_state (allOk k ''SAFETY_STATUS'') e2 = (True, e')"
      using assms up s by (simp add: Safety_IsSafe_def Avail_def)
    from allOk_serves [OF this] obtain i v where "during e2 e' i" "serves k (e_world e2 i) ''SAFETY_STATUS'' v" "shows_safe v"
      by blast
    then show ?thesis
      using up r2 by (intro conjI exI [of _ i] exI [of _ v] exI [of _ "''SAFETY_STATUS''"]) (simp_all add: during_def)
  next
    case False
    obtain w e3 where w: "run_state (Has k ''WEATHER_STATUS'') e2 = (w, e3)" by fastforce
    note r3 = readsD [OF reads_kit(8) w]
    have "run_state (allOk k ''WEATHER_STATUS'') e3 = (True, e')"
      using assms up s w False by (auto simp: Safety_IsSafe_def Avail_def split: if_splits)
    from allOk_serves [OF this] obtain i v where "during e3 e' i" "serves k (e_world e3 i) ''WEATHER_STATUS'' v" "shows_safe v"
      by blast
    then show ?thesis
      using up r2 r3 False s
      by (intro conjI exI [of _ i] exI [of _ v] exI [of _ "''WEATHER_STATUS''"]) (simp_all add: during_def)
  qed
qed

definition safe_vector :: Vector where
  "safe_vector = def_vector (zero_element\<lparr>e_Name := ''SAFETY_STATUS'', e_Device := ''S'', e_Type := Light,
     e_State := Ok, e_Members := [zero_member\<lparr>m_Name := ''L'', m_LightState := Ok\<rparr>]\<rparr>) 5"

definition safe_env :: "unit Env" where
  "safe_env = \<lparr>e_world = (\<lambda>_. \<lparr>w_snap = \<lparr>s_gen = 2, s_valid = True, s_devices = [(''S'', [(''SAFETY_STATUS'', safe_vector)])]\<rparr>,
       w_serving = True, w_reason = [], w_time = 9, w_send = None, w_update = None, w_settle = Inr (Ok, [])\<rparr>),
     e_clock = 0, e_sent = [], e_dev = ()\<rparr>"

theorem IsSafe_sound_witness:
  "w_serving (e_world safe_env (e_clock safe_env)) \<and>
    (\<exists>i v vec. during safe_env (safe_env\<lparr>e_clock := 5\<rparr>) i \<and> serves ''S'' (e_world safe_env i) vec v \<and> shows_safe v \<and>
      (vec = ''SAFETY_STATUS'' \<or>
       vec = ''WEATHER_STATUS'' \<and> fst (run_state (Has ''S'' ''SAFETY_STATUS'') (safe_env\<lparr>e_clock := Suc (e_clock safe_env)\<rparr>)) = False))"
proof (rule IsSafe_sound)
  show "run_state (Safety_IsSafe ''S'') safe_env = (True, safe_env\<lparr>e_clock := 5\<rparr>)"
    by (simp add: Safety_IsSafe_def Avail_def Has_def kit_lookup_def Snap_def allOk_def Kit_Vector_def run_kit_vector
      safe_env_def Snapshot_Vector_def props_of_def kit_name_def safe_vector_def def_vector_def zero_element_def
      zero_member_def allOk_vector_def Let_def)
qed

end
