(* ===== verification/Device_CoverCal.thy ===== *)
theory Device_CoverCal
  imports Device_Base
begin

text \<open>
  The cover calibrator (\<^verbatim>\<open>internal/devtype/covercal\<close>): a dust cover and a flat light, each with an
  in-flight bit of its own; either may be absent. The status values are the goalpaca library's
  constants.
\<close>

definition covercal_table :: Table where
  "covercal_table =
    [(''CoverState'', row Func ''CAP_PARK'' [] ''CoverState'' ''PARK is closed, UNPARK is open; Busy is moving, Alert is error, absent is NotPresent''),
     (''CalibratorState'', row Func ''FLAT_LIGHT_CONTROL'' [] ''CalibratorState'' ''light switch and vector state; Busy is NotReady, Alert is error, absent is NotPresent''),
     (''Brightness'', row Func ''FLAT_LIGHT_INTENSITY'' ''FLAT_LIGHT_INTENSITY_VALUE'' ''Brightness'' ''zero unless the calibrator is Ready''),
     (''MaxBrightness'', row Func [] [] ''MaxBrightness'' ''intensity member maximum, or 1 for an on/off-only calibrator''),
     (''CalibratorChanging'', row Derived [] [] [] ''FLAT_LIGHT_CONTROL or FLAT_LIGHT_INTENSITY Busy, or the bridge's in-flight bit''),
     (''CoverMoving'', row Derived [] [] [] ''CAP_PARK Busy or the bridge's in-flight bit''),
     (''CalibratorOff'', row Func [] [] ''CalibratorOff'' []),
     (''CalibratorOn'', row Func [] [] ''CalibratorOn'' ''set intensity before turning on the light''),
     (''CloseCover'', row Func [] [] ''CloseCover'' ''CAP_PARK.PARK, non-blocking initiator; CoverMoving/CoverState complete it''),
     (''HaltCover'', row Func ''CAP_ABORT'' ''ABORT'' ''HaltCover'' ''CAP_ABORT when defined; NotImplemented otherwise''),
     (''OpenCover'', row Func [] [] ''OpenCover'' ''CAP_PARK.UNPARK, non-blocking initiator'')]"

record CoverCal =
  cc_cover :: Inflight
  cc_cal :: Inflight

definition cover_upd :: "CoverCal setter" where
  "cover_upd f d = d\<lparr>cc_cover := f (cc_cover d)\<rparr>"

definition cal_upd :: "CoverCal setter" where
  "cal_upd f d = d\<lparr>cc_cal := f (cc_cal d)\<rparr>"

interpretation cover: inflight_bit cc_cover cover_upd
  by unfold_locales (simp add: cover_upd_def)

interpretation cal: inflight_bit cc_cal cal_upd
  by unfold_locales (simp add: cal_upd_def)

subsection \<open>The cover\<close>

definition CoverCal_Connecting :: "bool \<Rightarrow> (CoverCal, bool) kitM" where
  "CoverCal_Connecting base = (if base then ret True else do { (ok, _) \<leftarrow> Avail; ret (\<not> ok) })"

definition CoverCal_CoverMoving :: "Kit \<Rightarrow> (CoverCal, bool) kitM" where
  "CoverCal_CoverMoving k = in_progress cc_cover cover_upd k ''CAP_PARK''"

definition CoverCal_Busy :: "Kit \<Rightarrow> (CoverCal, bool) kitM" where
  "CoverCal_Busy k = CoverCal_CoverMoving k"

datatype CoverStatus = CoverNotPresent | CoverClosed | CoverIsMoving | CoverOpen | CoverUnknown | CoverError

definition switch_on :: "Vector \<Rightarrow> string \<Rightarrow> bool" where
  "switch_on v elem = (case Vector_Member v elem of None \<Rightarrow> False | Some m \<Rightarrow> m_On (mv_Member m))"

definition CoverCal_CoverState :: "Kit \<Rightarrow> (CoverCal, CoverStatus) kitM" where
  "CoverCal_CoverState k = do {
     r \<leftarrow> Kit_Vector k ''CAP_PARK'';
     (case r of Inl _ \<Rightarrow> ret CoverNotPresent
      | Inr v \<Rightarrow>
          if v_State v = Alert then ret CoverError
          else do {
            moving \<leftarrow> CoverCal_CoverMoving k;
            ret (if moving then CoverIsMoving
              else if switch_on v ''PARK'' then CoverClosed
              else if switch_on v ''UNPARK'' then CoverOpen
              else CoverUnknown)
          })
   }"

definition parkCap :: "Kit \<Rightarrow> string \<Rightarrow> (CoverCal, AlpacaError option) kitM" where
  "parkCap k mem = do {
     (ok, reason) \<leftarrow> Avail;
     if \<not> ok then ret (Some (NotConnected reason))
     else do {
       has \<leftarrow> Has k ''CAP_PARK'';
       if \<not> has then ret (Some (NotImplemented ''CoverState''))
       else started cover_upd (SendSwitch k ''CAP_PARK'' [mem] [])
     }
   }"

definition CoverCal_OpenCover :: "Kit \<Rightarrow> (CoverCal, AlpacaError option) kitM" where
  "CoverCal_OpenCover k = parkCap k ''UNPARK''"

definition CoverCal_CloseCover :: "Kit \<Rightarrow> (CoverCal, AlpacaError option) kitM" where
  "CoverCal_CloseCover k = parkCap k ''PARK''"

definition CoverCal_HaltCover :: "Kit \<Rightarrow> (CoverCal, AlpacaError option) kitM" where
  "CoverCal_HaltCover k = do { op_clear cover_upd; WriteSwitch k covercal_table ''HaltCover'' }"

subsection \<open>The calibrator\<close>

definition CoverCal_CalibratorChanging :: "Kit \<Rightarrow> (CoverCal, bool) kitM" where
  "CoverCal_CalibratorChanging k = do {
     (ok, _) \<leftarrow> Avail;
     if \<not> ok then do { op_clear cal_upd; ret False }
     else do {
       a \<leftarrow> StateOf k ''FLAT_LIGHT_CONTROL'';
       if a = Busy then ret True
       else do {
         b \<leftarrow> StateOf k ''FLAT_LIGHT_INTENSITY'';
         if b = Busy then ret True
         else do {
           upd \<leftarrow> UpdatedOf k ''FLAT_LIGHT_CONTROL'';
           i \<leftarrow> UpdatedOf k ''FLAT_LIGHT_INTENSITY'';
           op_active cc_cal cal_upd (if upd < i then i else upd)
         }
       }
     }
   }"

datatype CalibratorStatus = CalibratorNotPresent | CalibratorIsOff | CalibratorNotReady | CalibratorReady
  | CalibratorUnknown | CalibratorError

definition CoverCal_CalibratorState :: "Kit \<Rightarrow> (CoverCal, CalibratorStatus) kitM" where
  "CoverCal_CalibratorState k = do {
     r \<leftarrow> Kit_Vector k ''FLAT_LIGHT_CONTROL'';
     (case r of Inl _ \<Rightarrow> ret CalibratorNotPresent
      | Inr v \<Rightarrow>
          if v_State v = Alert then ret CalibratorError
          else do {
            changing \<leftarrow> CoverCal_CalibratorChanging k;
            ret (if changing then CalibratorNotReady
              else if switch_on v ''FLAT_LIGHT_ON'' then CalibratorReady
              else if switch_on v ''FLAT_LIGHT_OFF'' then CalibratorIsOff
              else CalibratorUnknown)
          })
   }"

definition CoverCal_Brightness :: "Kit \<Rightarrow> (CoverCal, int) kitM" where
  "CoverCal_Brightness k = do {
     st \<leftarrow> CoverCal_CalibratorState k;
     if st \<noteq> CalibratorReady then ret 0
     else do {
       r \<leftarrow> Kit_Vector k ''FLAT_LIGHT_INTENSITY'';
       ret (case r of Inl _ \<Rightarrow> 1
         | Inr v \<Rightarrow> (case Vector_Member v ''FLAT_LIGHT_INTENSITY_VALUE'' of None \<Rightarrow> 1
             | Some m \<Rightarrow> f_int (m_Value (mv_Member m))))
     }
   }"

definition light_levels :: "Kit \<Rightarrow> (CoverCal, int) kitM" where
  "light_levels k = do { has \<leftarrow> Has k ''FLAT_LIGHT_CONTROL''; ret (if has then 1 else 0) }"

definition CoverCal_MaxBrightness :: "Kit \<Rightarrow> (CoverCal, int) kitM" where
  "CoverCal_MaxBrightness k = do {
     r \<leftarrow> Kit_Vector k ''FLAT_LIGHT_INTENSITY'';
     (case r of Inl _ \<Rightarrow> light_levels k
      | Inr v \<Rightarrow> (case Vector_Member v ''FLAT_LIGHT_INTENSITY_VALUE'' of None \<Rightarrow> light_levels k
          | Some m \<Rightarrow> if m_HasRange (mv_Member m) then ret (f_int (m_Max (mv_Member m))) else light_levels k))
   }"

definition light_switch :: "Kit \<Rightarrow> string \<Rightarrow> (CoverCal, AlpacaError option) kitM" where
  "light_switch k mem = SendSwitch k ''FLAT_LIGHT_CONTROL'' [mem] []"

text \<open>Setting the brightness where there is one, then switching the light.\<close>

definition light_up :: "Kit \<Rightarrow> int \<Rightarrow> (CoverCal, AlpacaError option) kitM" where
  "light_up k brightness = do {
     dim \<leftarrow> Has k ''FLAT_LIGHT_INTENSITY'';
     if dim then do {
       r \<leftarrow> WriteNumber k covercal_table ''Brightness'' (f_of_int brightness);
       (case r of Some er \<Rightarrow> ret (Some er) | None \<Rightarrow> light_switch k ''FLAT_LIGHT_ON'')
     }
     else light_switch k ''FLAT_LIGHT_ON''
   }"

definition CoverCal_CalibratorOn :: "Kit \<Rightarrow> int \<Rightarrow> (CoverCal, AlpacaError option) kitM" where
  "CoverCal_CalibratorOn k brightness = do {
     (ok, reason) \<leftarrow> Avail;
     if \<not> ok then ret (Some (NotConnected reason))
     else do {
       has \<leftarrow> Has k ''FLAT_LIGHT_CONTROL'';
       if \<not> has then ret (Some (NotImplemented ''CalibratorOn''))
       else started cal_upd (light_up k brightness)
     }
   }"

definition CoverCal_CalibratorOff :: "Kit \<Rightarrow> (CoverCal, AlpacaError option) kitM" where
  "CoverCal_CalibratorOff k = do {
     (ok, reason) \<leftarrow> Avail;
     if \<not> ok then ret (Some (NotConnected reason))
     else do {
       has \<leftarrow> Has k ''FLAT_LIGHT_CONTROL'';
       if \<not> has then ret (Some (NotImplemented ''CalibratorOff''))
       else started cal_upd (light_switch k ''FLAT_LIGHT_OFF'')
     }
   }"

definition covercal_consumed :: "string \<Rightarrow> bool" where
  "covercal_consumed = Consumed covercal_table []"

definition CoverCal_Validate :: "Snapshot \<Rightarrow> string \<Rightarrow> string list" where
  "CoverCal_Validate snap device = Validate covercal_table covercal_consumed snap device"

definition CoverCal_SupportedActions :: "Kit \<Rightarrow> (CoverCal, string list) kitM" where
  "CoverCal_SupportedActions k = Supported \<lparr>en_kit = k, en_consumed = covercal_consumed\<rparr>"

definition CoverCal_Action ::
  "Kit \<Rightarrow> (string \<Rightarrow> string \<Rightarrow> string \<times> AlpacaError option) \<Rightarrow> string \<Rightarrow> string
    \<Rightarrow> (CoverCal, string \<times> AlpacaError option) kitM" where
  "CoverCal_Action k base name params =
     device_action \<lparr>en_kit = k, en_consumed = covercal_consumed\<rparr> base name params"

subsection \<open>Properties\<close>

lemma brightness_mapped:
  "mapped covercal_table ''Brightness'' =
    Inr (row Func ''FLAT_LIGHT_INTENSITY'' ''FLAT_LIGHT_INTENSITY_VALUE'' ''Brightness'' ''zero unless the calibrator is Ready'')"
  by (simp add: mapped_def covercal_table_def)

definition dim_cmd :: "int \<Rightarrow> string \<Rightarrow> Cmd" where
  "dim_cmd b d = CNumber d ''FLAT_LIGHT_INTENSITY'' [(''FLAT_LIGHT_INTENSITY_VALUE'', f_of_int b)]"

definition lit_cmd :: "string \<Rightarrow> Cmd" where
  "lit_cmd d = CSwitch d ''FLAT_LIGHT_CONTROL'' [''FLAT_LIGHT_ON''] []"

text \<open>The light is switched after the brightness was set, or alone, or not at all.\<close>

definition light_commands :: "int \<Rightarrow> Cmd list \<Rightarrow> bool" where
  "light_commands b cs \<longleftrightarrow> (\<exists>d d'. cs \<in> {[], [dim_cmd b d], [lit_cmd d], [dim_cmd b d, lit_cmd d']})"

lemma light_switch_sent:
  "run_state (light_switch k ''FLAT_LIGHT_ON'') e = (r, e') \<Longrightarrow> (\<exists>d. e_sent e' = e_sent e @ [lit_cmd d]) \<and> \<not> refused r"
  by (auto simp: light_switch_def run_send lit_cmd_def not_refused_send)

definition lit_outcome :: "int \<Rightarrow> Cmd list \<Rightarrow> AlpacaError option \<Rightarrow> bool" where
  "lit_outcome b cs r \<longleftrightarrow> light_commands b cs \<and> (r = None \<longrightarrow> (\<exists>d. cs \<noteq> [] \<and> last cs = lit_cmd d)) \<and>
     (refused r \<longrightarrow> cs = [])"

lemma light_up_sent:
  assumes "run_state (light_up k b) e = (r, e')"
  shows "\<exists>cs. e_sent e' = e_sent e @ cs \<and> lit_outcome b cs r"
proof -
  obtain dim e1 where d: "run_state (Has k ''FLAT_LIGHT_INTENSITY'') e = (dim, e1)" by fastforce
  note s1 = readsD [OF reads_kit(8) d]
  show ?thesis
  proof (cases dim)
    case False
    then have "run_state (light_switch k ''FLAT_LIGHT_ON'') e1 = (r, e')" using assms d by (simp add: light_up_def)
    from light_switch_sent [OF this] s1 show ?thesis by (auto simp: lit_outcome_def light_commands_def)
  next
    case True
    obtain w e2 where w: "run_state (WriteNumber k covercal_table ''Brightness'' (f_of_int b)) e1 = (w, e2)" by fastforce
    note sent = WriteNumber_sent [OF w brightness_mapped, simplified, folded dim_cmd_def]
    show ?thesis
    proof (cases w)
      case (Some er)
      then have "r = w \<and> e' = e2" using assms d w True by (simp add: light_up_def)
      then show ?thesis using sent s1 Some by (auto simp: lit_outcome_def light_commands_def)
    next
      case None
      then have "run_state (light_switch k ''FLAT_LIGHT_ON'') e2 = (r, e')" using assms d w True by (simp add: light_up_def)
      from light_switch_sent [OF this] sent s1 None show ?thesis
        by (fastforce simp: lit_outcome_def light_commands_def)
    qed
  qed
qed

text \<open>
  Turning the calibrator on never lights it at a brightness the driver refused: whatever happens,
  the commands that went out are the brightness, then the light, or the brightness alone, or the light
  alone, or nothing; after a success the light's command is the last; and after a refused brightness
  nothing at all was sent.
\<close>

theorem CalibratorOn_order:
  "let (r, e') = run_state (CoverCal_CalibratorOn k b) e in
   \<exists>cs. e_sent e' = e_sent e @ cs \<and> light_commands b cs \<and>
     (case r of None \<Rightarrow> \<exists>d. cs \<noteq> [] \<and> last cs = lit_cmd d
      | Some er \<Rightarrow> if ErrNumber er = ErrNumInvalidValue then cs = [] else True)"
proof -
  let ?e0 = "e\<lparr>e_clock := Suc (e_clock e)\<rparr>"
  obtain r e' where run: "run_state (CoverCal_CalibratorOn k b) e = (r, e')" by fastforce
  obtain has e1 where has: "run_state (Has k ''FLAT_LIGHT_CONTROL'') ?e0 = (has, e1)" by fastforce
  note s1 = readsD [OF reads_kit(8) has]
  have "\<exists>cs. e_sent e' = e_sent e @ cs \<and> lit_outcome b cs r"
  proof (cases "w_serving (e_world e (e_clock e)) \<and> has")
    case False
    then have "e_sent e' = e_sent e \<and> r \<noteq> None"
      using run has s1 by (auto simp: CoverCal_CalibratorOn_def Avail_def split: if_splits)
    then show ?thesis by (auto simp: lit_outcome_def light_commands_def)
  next
    case True
    then have "run_state (started cal_upd (light_up k b)) e1 = (r, e')"
      using run has by (simp add: CoverCal_CalibratorOn_def Avail_def)
    then obtain e2 e3 where "run_state (light_up k b) e2 = (r, e3)" "e_sent e2 = e_sent e1" "e_sent e' = e_sent e3"
      by (rule started_cases)
    then show ?thesis using light_up_sent [of k b e2 r e3] s1 by simp
  qed
  then obtain cs where "e_sent e' = e_sent e @ cs" "lit_outcome b cs r" by blast
  then show ?thesis
    unfolding run Let_def prod.case
    by (intro exI [of _ cs]) (auto simp: lit_outcome_def refused_def split: option.split)
qed

text \<open>
  One acknowledgement ends both writes of turning the calibrator on: as soon as the driver has
  echoed the brightness, and although it has not touched the light since the command, the calibrator
  is reported as off and no longer changing.
\<close>

theorem calibrator_forgets_light:
  assumes "\<And>i. e_world e i = w" "w_serving w" "i_active (cc_cal (e_dev e))"
    "serves k w ''FLAT_LIGHT_CONTROL'' v" "v_State v = Ok" "v_Updated v \<le> i_at (cc_cal (e_dev e))"
    "\<not> switch_on v ''FLAT_LIGHT_ON''" "switch_on v ''FLAT_LIGHT_OFF''"
    "serves k w ''FLAT_LIGHT_INTENSITY'' v'" "v_State v' = Ok" "i_at (cc_cal (e_dev e)) < v_Updated v'"
  shows "fst (run_state (CoverCal_CalibratorState k) e) = CalibratorIsOff"
  using assms
  by (simp add: CoverCal_CalibratorState_def CoverCal_CalibratorChanging_def Kit_Vector_def run_kit_vector Avail_def
      run_StateOf run_UpdatedOf updated_at_def serves_def op_active_def Inflight_Active_def Let_def)

definition flat_vector :: "string \<Rightarrow> gotime \<Rightarrow> Vector" where
  "flat_vector vec t = def_vector (zero_element\<lparr>e_Name := vec, e_Device := ''C'', e_State := Ok,
     e_Members := [zero_member\<lparr>m_Name := ''FLAT_LIGHT_OFF'', m_On := True\<rparr>]\<rparr>) t"

definition flat_env :: "CoverCal Env" where
  "flat_env = \<lparr>e_world = (\<lambda>_. \<lparr>w_snap = \<lparr>s_gen = 2, s_valid = True, s_devices = [(''C'',
         [(''FLAT_LIGHT_CONTROL'', flat_vector ''FLAT_LIGHT_CONTROL'' 5),
          (''FLAT_LIGHT_INTENSITY'', flat_vector ''FLAT_LIGHT_INTENSITY'' 10)])]\<rparr>,
       w_serving = True, w_reason = [], w_time = 11, w_send = None, w_update = None, w_settle = Inr (Ok, [])\<rparr>),
     e_clock = 0, e_sent = [], e_dev = \<lparr>cc_cover = \<lparr>i_at = 0, i_active = False\<rparr>, cc_cal = \<lparr>i_at = 9, i_active = True\<rparr>\<rparr>\<rparr>"

theorem calibrator_forgets_light_witness:
  "fst (run_state (CoverCal_CalibratorState ''C'') flat_env) = CalibratorIsOff"
  by (rule calibrator_forgets_light [where w = "e_world flat_env 0" and v = "flat_vector ''FLAT_LIGHT_CONTROL'' 5"
        and v' = "flat_vector ''FLAT_LIGHT_INTENSITY'' 10"])
    (simp_all add: flat_env_def serves_def Snapshot_Vector_def props_of_def kit_name_def flat_vector_def def_vector_def
      switch_on_def Vector_Member_def index_members_def zero_element_def zero_member_def)

end
