(* ===== verification/Device_Dome.thy ===== *)
theory Device_Dome
  imports Device_Base
begin

text \<open>
  The dome (\<^verbatim>\<open>internal/devtype/dome\<close>): azimuth, shutter and park, each with an in-flight bit, and
  the direction the shutter was last sent. A slew of a parked dome waits for the unpark to settle
  first. The shutter states are the goalpaca library's constants.
\<close>

text \<open>The reasons are abbreviated; only whether one is empty matters.\<close>

definition dome_table :: Table where
  "dome_table =
    [(''Azimuth'', row Func ''ABS_DOME_POSITION'' ''DOME_ABSOLUTE_POSITION'' ''Azimuth'' ''same convention both sides; absent on a roll-off roof''),
     (''Altitude'', row Absent [] [] [] ''INDI::Dome has no altitude property''),
     (''AtHome'', row Derived [] [] [] ''always false, INDI::Dome defines no home property; CanFindHome false''),
     (''AtPark'', row Derived [] [] [] ''DOME_PARK.PARK On, vector not Busy, no unacknowledged park send''),
     (''ShutterStatus'', row Func ''DOME_SHUTTER'' [] ''ShutterStatus'' ''two-member switch + vector state, five ASCOM values''),
     (''Slaved'', row Func ''DOME_AUTOSYNC'' [] ''Slaved'' ''Slaved IS INDI's DOME_AUTOSYNC, not a bridge concept''),
     (''Slewing'', row Derived [] [] [] ''position, motion, park, or shutter Busy state, or a pending bridge command''),
     (''AbortSlew'', row Mapped ''DOME_ABORT_MOTION'' ''ABORT'' [] []),
     (''CloseShutter'', row Func [] [] ''closeShutter'' ''DOME_SHUTTER.SHUTTER_CLOSE, non-blocking initiator''),
     (''FindHome'', row Absent [] [] [] ''no INDI dome home property''),
     (''OpenShutter'', row Func [] [] ''openShutter'' ''DOME_SHUTTER.SHUTTER_OPEN, non-blocking initiator''),
     (''Park'', row Func ''DOME_PARK'' [] ''park'' ''non-blocking PARK write; subsequent slew commands unpark first''),
     (''SetPark'', row Mapped ''DOME_PARK_OPTION'' ''PARK_CURRENT'' [] []),
     (''SlewToAltitude'', row Absent [] [] [] ''as Altitude''),
     (''SlewToAzimuth'', row Func ''ABS_DOME_POSITION'' ''DOME_ABSOLUTE_POSITION'' ''slewToAzimuth'' ''range-checked against the driver's own descriptor; in-flight bit completes Slewing''),
     (''SyncToAzimuth'', row Mapped ''DOME_SYNC'' ''DOME_SYNC_VALUE'' [] ''defined only by drivers with the CAN_SYNC capability''),
     (''CanFindHome'', row Derived [] [] [] ''false, see FindHome''),
     (''CanPark'', row Derived [] [] [] ''DOME_PARK defined''),
     (''CanSetAltitude'', row Derived [] [] [] ''false, see Altitude''),
     (''CanSetAzimuth'', row Derived [] [] [] ''ABS_DOME_POSITION defined and rw''),
     (''CanSetPark'', row Derived [] [] [] ''DOME_PARK_OPTION defined''),
     (''CanSetShutter'', row Derived [] [] [] ''DOME_SHUTTER defined''),
     (''CanSlave'', row Derived [] [] [] ''DOME_AUTOSYNC defined and rw''),
     (''CanSyncAzimuth'', row Derived [] [] [] ''DOME_SYNC defined and rw'')]"

record Dome =
  do_az :: Inflight
  do_park :: Inflight
  do_shut :: Inflight
  do_opening :: bool

definition az_upd :: "Dome setter" where "az_upd f d = d\<lparr>do_az := f (do_az d)\<rparr>"
definition park_upd :: "Dome setter" where "park_upd f d = d\<lparr>do_park := f (do_park d)\<rparr>"
definition shut_upd :: "Dome setter" where "shut_upd f d = d\<lparr>do_shut := f (do_shut d)\<rparr>"

interpretation az: inflight_bit do_az az_upd by unfold_locales (simp add: az_upd_def)
interpretation park: inflight_bit do_park park_upd by unfold_locales (simp add: park_upd_def)
interpretation shut: inflight_bit do_shut shut_upd by unfold_locales (simp add: shut_upd_def)

subsection \<open>Reading\<close>

definition Dome_Connecting :: "bool \<Rightarrow> (Dome, bool) kitM" where
  "Dome_Connecting base = (if base then ret True else do { (ok, _) \<leftarrow> Avail; ret (\<not> ok) })"

definition Dome_switchOn :: "Kit \<Rightarrow> string \<Rightarrow> string \<Rightarrow> (Dome, bool) kitM" where
  "Dome_switchOn k vec elem = do {
     r \<leftarrow> Kit_Vector k vec;
     ret (case r of Inl _ \<Rightarrow> False
       | Inr v \<Rightarrow> (case Vector_Member v elem of None \<Rightarrow> False | Some m \<Rightarrow> m_On (mv_Member m)))
   }"

definition Dome_writable :: "Kit \<Rightarrow> string \<Rightarrow> (Dome, bool) kitM" where
  "Dome_writable k vec = do {
     r \<leftarrow> Kit_Vector k vec;
     ret (case r of Inl _ \<Rightarrow> False | Inr v \<Rightarrow> v_Perm v \<noteq> ReadOnly)
   }"

definition Dome_Azimuth :: "Kit \<Rightarrow> (Dome, AlpacaError + f64) kitM" where
  "Dome_Azimuth k = Number_read k dome_table ''Azimuth''"

text \<open>The disjunctions of the code evaluate from left to right and stop at the first that holds.\<close>

fun any_busy :: "Kit \<Rightarrow> string list \<Rightarrow> (Dome, bool) kitM" where
  "any_busy k [] = ret False"
| "any_busy k (vec # vecs) = do { st \<leftarrow> StateOf k vec; if st = Busy then ret True else any_busy k vecs }"

definition Dome_Slewing :: "Kit \<Rightarrow> (Dome, bool) kitM" where
  "Dome_Slewing k = do {
     (ok, _) \<leftarrow> Avail;
     if \<not> ok then do { op_clear az_upd; op_clear park_upd; op_clear shut_upd; ret False }
     else do {
       busy \<leftarrow> any_busy k [''ABS_DOME_POSITION'', ''REL_DOME_POSITION'', ''DOME_MOTION'', ''DOME_PARK'', ''DOME_SHUTTER''];
       if busy then ret True
       else do {
         u \<leftarrow> UpdatedOf k ''ABS_DOME_POSITION'';
         a \<leftarrow> op_active do_az az_upd u;
         if a then ret True
         else do {
           u \<leftarrow> UpdatedOf k ''DOME_PARK'';
           p \<leftarrow> op_active do_park park_upd u;
           if p then ret True
           else do { u \<leftarrow> UpdatedOf k ''DOME_SHUTTER''; op_active do_shut shut_upd u }
         }
       }
     }
   }"

definition Dome_Busy :: "Kit \<Rightarrow> (Dome, bool) kitM" where
  "Dome_Busy k = Dome_Slewing k"

datatype ShutterState = ShutterOpen | ShutterClosed | ShutterOpening | ShutterClosing | ShutterErr

definition Dome_ShutterStatus :: "Kit \<Rightarrow> (Dome, ShutterState \<times> AlpacaError option) kitM" where
  "Dome_ShutterStatus k = do {
     r \<leftarrow> Kit_Vector k ''DOME_SHUTTER'';
     (case r of Inl er \<Rightarrow> ret (ShutterErr, Some er)
      | Inr v \<Rightarrow>
          let opened = (case Vector_Member v ''SHUTTER_OPEN'' of None \<Rightarrow> False | Some m \<Rightarrow> m_On (mv_Member m)) in
          if v_State v = Alert then ret (ShutterErr, None)
          else do {
            active \<leftarrow> op_active do_shut shut_upd (v_Updated v);
            if active then do { d \<leftarrow> get_dev; ret (if do_opening d then ShutterOpening else ShutterClosing, None) }
            else ret (if v_State v = Busy then (if opened then ShutterOpening else ShutterClosing)
                      else if opened then ShutterOpen else ShutterClosed, None)
          })
   }"

definition Dome_AtPark :: "Kit \<Rightarrow> (Dome, bool) kitM" where
  "Dome_AtPark k = do {
     on \<leftarrow> Dome_switchOn k ''DOME_PARK'' ''PARK'';
     if \<not> on then ret False
     else do {
       st \<leftarrow> StateOf k ''DOME_PARK'';
       if st = Busy then ret False
       else do { u \<leftarrow> UpdatedOf k ''DOME_PARK''; a \<leftarrow> op_active do_park park_upd u; ret (\<not> a) }
     }
   }"

definition Dome_AtHome :: bool where "Dome_AtHome = False"

definition Dome_Slaved :: "Kit \<Rightarrow> (Dome, bool) kitM" where
  "Dome_Slaved k = Dome_switchOn k ''DOME_AUTOSYNC'' ''DOME_AUTOSYNC_ENABLE''"

definition Dome_CanFindHome :: bool where "Dome_CanFindHome = False"
definition Dome_CanPark :: "Kit \<Rightarrow> (Dome, bool) kitM" where "Dome_CanPark k = Has k ''DOME_PARK''"
definition Dome_CanSetAltitude :: bool where "Dome_CanSetAltitude = False"
definition Dome_CanSetAzimuth :: "Kit \<Rightarrow> (Dome, bool) kitM" where "Dome_CanSetAzimuth k = Dome_writable k ''ABS_DOME_POSITION''"
definition Dome_CanSetPark :: "Kit \<Rightarrow> (Dome, bool) kitM" where "Dome_CanSetPark k = Has k ''DOME_PARK_OPTION''"
definition Dome_CanSetShutter :: "Kit \<Rightarrow> (Dome, bool) kitM" where "Dome_CanSetShutter k = Has k ''DOME_SHUTTER''"
definition Dome_CanSlave :: "Kit \<Rightarrow> (Dome, bool) kitM" where "Dome_CanSlave k = Dome_writable k ''DOME_AUTOSYNC''"
definition Dome_CanSyncAzimuth :: "Kit \<Rightarrow> (Dome, bool) kitM" where "Dome_CanSyncAzimuth k = Dome_writable k ''DOME_SYNC''"

subsection \<open>Commands\<close>

text \<open>Send the unpark and wait until the driver has settled it.\<close>

definition unpark :: "Kit \<Rightarrow> (Dome, AlpacaError option) kitM" where
  "unpark k = do {
     since \<leftarrow> Now;
     op_start park_upd;
     r \<leftarrow> SendSwitch k ''DOME_PARK'' [''UNPARK''] [];
     (case r of
        Some er \<Rightarrow> do { op_clear park_upd; ret (Some er) }
      | None \<Rightarrow> do {
          dev \<leftarrow> DeviceName k;
          s \<leftarrow> WaitSettle;
          op_clear park_upd;
          (case s of
             Inl er \<Rightarrow> ret (Some (DriverError [Lit ''unpark did not complete''] (settle_error er)))
           | Inr (state, msg) \<Rightarrow>
               if state = Alert then
                 ret (Some (DriverError [Lit ''unpark refused'']
                   [Lit (if msg = [] then ''the driver refused to unpark'' else msg)]))
               else ret None)
        })
   }"

definition unparkForMotion :: "Kit \<Rightarrow> (Dome, AlpacaError option) kitM" where
  "unparkForMotion k = do {
     has \<leftarrow> Has k ''DOME_PARK'';
     if \<not> has then ret None
     else do {
       parked \<leftarrow> Dome_switchOn k ''DOME_PARK'' ''PARK'';
       if \<not> parked then ret None else unpark k
     }
   }"

definition slewToAzimuth :: "Kit \<Rightarrow> f64 \<Rightarrow> (Dome, AlpacaError option) kitM" where
  "slewToAzimuth k az = do {
     (ok, reason) \<leftarrow> Avail;
     if \<not> ok then ret (Some (NotConnected reason))
     else do {
       r \<leftarrow> unparkForMotion k;
       (case r of Some er \<Rightarrow> ret (Some er)
        | None \<Rightarrow> started az_upd (WriteNumber k dome_table ''SlewToAzimuth'' az))
     }
   }"

definition Dome_SlewToAzimuth :: "Kit \<Rightarrow> f64 \<Rightarrow> (Dome, AlpacaError option) kitM" where
  "Dome_SlewToAzimuth k az = slewToAzimuth k az"

definition Dome_SyncToAzimuth :: "Kit \<Rightarrow> f64 \<Rightarrow> (Dome, AlpacaError option) kitM" where
  "Dome_SyncToAzimuth k az = WriteNumber k dome_table ''SyncToAzimuth'' az"

definition Dome_SlewToAltitude :: "f64 \<Rightarrow> AlpacaError option" where
  "Dome_SlewToAltitude x = Some (NotImplemented ''SlewToAltitude'')"

definition Dome_Altitude :: "AlpacaError + f64" where
  "Dome_Altitude = Inl (NotImplemented ''Altitude'')"

definition Dome_AbortSlew :: "Kit \<Rightarrow> (Dome, AlpacaError option) kitM" where
  "Dome_AbortSlew k = do { op_clear az_upd; op_clear park_upd; op_clear shut_upd; WriteSwitch k dome_table ''AbortSlew'' }"

definition Dome_shutter :: "Kit \<Rightarrow> string \<Rightarrow> bool \<Rightarrow> (Dome, AlpacaError option) kitM" where
  "Dome_shutter k mem opening = do {
     (ok, reason) \<leftarrow> Avail;
     if \<not> ok then ret (Some (NotConnected reason))
     else do {
       has \<leftarrow> Has k ''DOME_SHUTTER'';
       if \<not> has then ret (Some (NotImplemented ''ShutterStatus''))
       else do {
         upd_dev (\<lambda>d. d\<lparr>do_opening := opening\<rparr>);
         started shut_upd (SendSwitch k ''DOME_SHUTTER'' [mem] [])
       }
     }
   }"

definition Dome_OpenShutter :: "Kit \<Rightarrow> (Dome, AlpacaError option) kitM" where
  "Dome_OpenShutter k = Dome_shutter k ''SHUTTER_OPEN'' True"

definition Dome_CloseShutter :: "Kit \<Rightarrow> (Dome, AlpacaError option) kitM" where
  "Dome_CloseShutter k = Dome_shutter k ''SHUTTER_CLOSE'' False"

definition Dome_Park :: "Kit \<Rightarrow> (Dome, AlpacaError option) kitM" where
  "Dome_Park k = do {
     (ok, reason) \<leftarrow> Avail;
     if \<not> ok then ret (Some (NotConnected reason))
     else do {
       has \<leftarrow> Has k ''DOME_PARK'';
       if \<not> has then ret (Some (NotImplemented ''Park''))
       else started park_upd (SendSwitch k ''DOME_PARK'' [''PARK''] [])
     }
   }"

definition Dome_SetPark :: "Kit \<Rightarrow> (Dome, AlpacaError option) kitM" where
  "Dome_SetPark k = WriteSwitch k dome_table ''SetPark''"

definition Dome_FindHome :: "AlpacaError option" where
  "Dome_FindHome = Some (NotImplemented ''FindHome'')"

definition Dome_SetSlaved :: "Kit \<Rightarrow> bool \<Rightarrow> (Dome, AlpacaError option) kitM" where
  "Dome_SetSlaved k on = do {
     has \<leftarrow> Has k ''DOME_AUTOSYNC'';
     if \<not> has then ret (if \<not> on then None else Some (NotImplemented ''Slaved''))
     else SendSwitch k ''DOME_AUTOSYNC'' [if on then ''DOME_AUTOSYNC_ENABLE'' else ''DOME_AUTOSYNC_DISABLE''] []
   }"

definition dome_consumed :: "string \<Rightarrow> bool" where
  "dome_consumed = Consumed dome_table [''REL_DOME_POSITION'', ''DOME_MOTION'']"

definition Dome_Validate :: "Snapshot \<Rightarrow> string \<Rightarrow> string list" where
  "Dome_Validate snap device = Validate dome_table dome_consumed snap device"

definition Dome_SupportedActions :: "Kit \<Rightarrow> (Dome, string list) kitM" where
  "Dome_SupportedActions k = Supported \<lparr>en_kit = k, en_consumed = dome_consumed\<rparr>"

definition Dome_Action ::
  "Kit \<Rightarrow> (string \<Rightarrow> string \<Rightarrow> string \<times> AlpacaError option) \<Rightarrow> string \<Rightarrow> string
    \<Rightarrow> (Dome, string \<times> AlpacaError option) kitM" where
  "Dome_Action k base name params =
     device_action \<lparr>en_kit = k, en_consumed = dome_consumed\<rparr> base name params"

subsection \<open>Properties\<close>

lemma slew_mapped:
  "\<exists>why. mapped dome_table ''SlewToAzimuth'' = Inr (row Func ''ABS_DOME_POSITION'' ''DOME_ABSOLUTE_POSITION'' ''slewToAzimuth'' why)"
  by (simp add: mapped_def dome_table_def)

text \<open>The dome is served as parked in a world.\<close>

definition parked_at :: "Kit \<Rightarrow> World \<Rightarrow> bool" where
  "parked_at k w \<longleftrightarrow> w_serving w \<and> s_valid (w_snap w) \<and>
     (case Snapshot_Vector (w_snap w) (kit_name k (w_snap w)) ''DOME_PARK'' of None \<Rightarrow> False
      | Some v \<Rightarrow> (case Vector_Member v ''PARK'' of None \<Rightarrow> False | Some m \<Rightarrow> m_On (mv_Member m)))"

definition unpark_cmd :: "string \<Rightarrow> Cmd" where
  "unpark_cmd d = CSwitch d ''DOME_PARK'' [''UNPARK''] []"

definition azimuth_cmd :: "f64 \<Rightarrow> string \<Rightarrow> Cmd" where
  "azimuth_cmd az d = CNumber d ''ABS_DOME_POSITION'' [(''DOME_ABSOLUTE_POSITION'', az)]"

definition seen_unparked :: "Kit \<Rightarrow> 'd Env \<Rightarrow> 'd Env \<Rightarrow> bool" where
  "seen_unparked k e e' \<longleftrightarrow> (\<exists>i. during e e' i \<and> \<not> parked_at k (e_world e i))"

definition seen_settled :: "'d Env \<Rightarrow> 'd Env \<Rightarrow> bool" where
  "seen_settled e e' \<longleftrightarrow> (\<exists>i st msg. during e e' i \<and> w_settle (e_world e i) = Inr (st, msg) \<and> st \<noteq> Alert)"

lemma seen_wider:
  assumes "e_clock e0 \<le> e_clock e" "e_clock e' \<le> e_clock e1" "e_world e0 = e_world e"
  shows "seen_unparked k e e' \<Longrightarrow> seen_unparked k e0 e1" "seen_settled e e' \<Longrightarrow> seen_settled e0 e1"
  using assms unfolding seen_unparked_def seen_settled_def during_def by (metis order_trans less_le_trans)+

lemma unpark_run:
  assumes "run_state (unpark k) e = (r, e')"
  shows "(\<exists>d. e_sent e' = e_sent e @ [unpark_cmd d]) \<and> e_world e' = e_world e \<and> e_clock e \<le> e_clock e' \<and>
    (r = None \<longrightarrow> seen_settled e e')"
proof -
  let ?settle = "w_settle (e_world e (e_clock e + 5))"
  have "seen_settled e e'" if "r = None"
    using assms that unfolding seen_settled_def
    by (intro exI [of _ "e_clock e + 5"] exI [of _ "fst (projr ?settle)"] exI [of _ "snd (projr ?settle)"])
      (auto simp: unpark_def Now_def op_start_def op_clear_def run_send DeviceName_def Snap_def WaitSettle_def during_def
        numeral_eq_Suc split: option.splits sum.splits prod.splits if_splits)
  then show ?thesis
    using assms by (auto simp: unpark_def Now_def op_start_def op_clear_def run_send DeviceName_def Snap_def WaitSettle_def
        unpark_cmd_def split: option.splits sum.splits prod.splits if_splits)
qed

lemma not_defined_seen:
  assumes "run_state (Has k ''DOME_PARK'') e = (False, e')"
  shows "seen_unparked k e e'"
  using assms unfolding seen_unparked_def
  by (intro exI [of _ "if w_serving (e_world e (e_clock e)) then Suc (e_clock e) else e_clock e"])
    (auto simp: Has_def kit_lookup_def Avail_def Snap_def during_def parked_at_def split: if_splits option.splits)

lemma not_on_seen:
  assumes "run_state (Dome_switchOn k ''DOME_PARK'' ''PARK'') e = (False, e')"
  shows "seen_unparked k e e'"
  using assms unfolding seen_unparked_def
  by (intro exI [of _ "if w_serving (e_world e (e_clock e)) then Suc (e_clock e) else e_clock e"])
    (auto simp: Dome_switchOn_def Kit_Vector_def run_kit_vector during_def parked_at_def Let_def split: if_splits option.splits)

lemma unparkForMotion_run:
  assumes "run_state (unparkForMotion k) e = (r, e')"
  shows "e_world e' = e_world e \<and> e_clock e \<le> e_clock e' \<and>
    (e_sent e' = e_sent e \<and> r = None \<and> seen_unparked k e e' \<or>
     (\<exists>d. e_sent e' = e_sent e @ [unpark_cmd d]) \<and> (r = None \<longrightarrow> seen_settled e e'))"
proof -
  obtain has e1 where has: "run_state (Has k ''DOME_PARK'') e = (has, e1)" by fastforce
  obtain on e2 where on: "run_state (Dome_switchOn k ''DOME_PARK'' ''PARK'') e1 = (on, e2)" by fastforce
  have sw: "reads (Dome_switchOn k vec elem)" for vec elem
    unfolding Dome_switchOn_def by (intro step_intros)
  note s = readsD [OF reads_kit(8) has] readsD [OF sw on]
  show ?thesis
  proof (cases "has \<and> on")
    case True
    then have "run_state (unpark k) e2 = (r, e')" using assms has on by (simp add: unparkForMotion_def)
    from unpark_run [OF this] s seen_wider(2) [of e e2 e' e'] show ?thesis by auto
  next
    case False
    then have "r = None \<and> e' = (if has then e2 else e1)"
      using assms has on by (auto simp: unparkForMotion_def split: if_splits)
    moreover have "seen_unparked k e e'"
      using False has on s calculation not_defined_seen [of k e e1] not_on_seen [of k e1 e2]
        seen_wider(1) [of e e1 e2 e2 k] by auto
    ultimately show ?thesis using s by auto
  qed
qed

text \<open>The commands a slew may add, with what must have been seen for each.\<close>

definition slew_commands :: "Kit \<Rightarrow> f64 \<Rightarrow> 'd Env \<Rightarrow> 'd Env \<Rightarrow> Cmd list \<Rightarrow> bool" where
  "slew_commands k az e e' cs \<longleftrightarrow>
     cs = [] \<or> (\<exists>d. cs = [unpark_cmd d]) \<or>
     (\<exists>d. cs = [azimuth_cmd az d]) \<and> seen_unparked k e e' \<or>
     (\<exists>d d'. cs = [unpark_cmd d, azimuth_cmd az d']) \<and> seen_settled e e'"


end
