(* ===== verification/Device_Weather.thy ===== *)
theory Device_Weather
  imports Device_Base
begin

text \<open>
  The weather station (\<^verbatim>\<open>internal/devtype/weather\<close>): sensors are members of one property, found by
  their standard name or, failing that, by a label that equals it without regard to case.
\<close>

definition sensor_row :: "string \<Rightarrow> string \<Rightarrow> string \<Rightarrow> Entry" where
  "sensor_row elem fn why = row Func ''WEATHER_PARAMETERS'' elem fn why"

definition weather_table :: Table where
  "weather_table =
    [(''AveragePeriod'', row Synthesised [] [] [] ''retained setting; readings remain instantaneous''),
     (''CloudCover'', sensor_row ''WEATHER_CLOUD_COVER'' ''CloudCover'' []),
     (''DewPoint'', sensor_row ''WEATHER_DEWPOINT'' ''DewPoint'' []),
     (''Humidity'', sensor_row ''WEATHER_HUMIDITY'' ''Humidity'' []),
     (''Pressure'', sensor_row ''WEATHER_PRESSURE'' ''Pressure'' []),
     (''RainRate'', sensor_row ''WEATHER_RAIN_HOUR'' ''RainRate'' []),
     (''SkyBrightness'', row Absent [] [] [] ''no supported lux mapping''),
     (''SkyQuality'', sensor_row ''WEATHER_SQM'' ''SkyQuality'' []),
     (''SkyTemperature'', row Absent [] [] [] ''no supported sky-temperature mapping''),
     (''StarFWHM'', row Absent [] [] [] ''no supported seeing measurement''),
     (''Temperature'', sensor_row ''WEATHER_TEMPERATURE'' ''Temperature'' []),
     (''WindDirection'', sensor_row ''WEATHER_WIND_DIRECTION'' ''WindDirection'' ''degrees both sides''),
     (''WindGust'', sensor_row ''WEATHER_WIND_GUST'' ''WindGust'' ''convert to m/s when the member label identifies the unit''),
     (''WindSpeed'', sensor_row ''WEATHER_WIND_SPEED'' ''WindSpeed'' ''convert to m/s when the member label identifies the unit''),
     (''SensorDescription'', row Synthesised [] [] [] ''source member name and label''),
     (''TimeSinceLastUpdate'', row Synthesised [] [] [] ''per-member snapshot arrival times; empty name = most recent across mapped sensors''),
     (''Refresh'', row Mapped ''WEATHER_REFRESH'' ''REFRESH'' [] [])]"

record Weather =
  we_avg :: f64

definition Weather_Connecting :: "bool \<Rightarrow> (Weather, bool) kitM" where
  "Weather_Connecting base = (if base then ret True else do { (ok, _) \<leftarrow> Avail; ret (\<not> ok) })"

subsection \<open>Sensors\<close>

definition find_sensor :: "Vector \<Rightarrow> string \<Rightarrow> MemberVal option" where
  "find_sensor v elem =
     (case Vector_Member v elem of Some m \<Rightarrow> Some m
      | None \<Rightarrow> find (\<lambda>m. ToLower (m_Label (mv_Member m)) = ToLower elem) (v_Members v))"

definition sensor :: "Kit \<Rightarrow> string \<Rightarrow> ('d, AlpacaError + MemberVal) kitM" where
  "sensor k mem =
     (case map_of weather_table mem of
        None \<Rightarrow> ret (Inl (NotImplemented mem))
      | Some e \<Rightarrow>
          if t_Elem e = [] then ret (Inl (NotImplemented mem))
          else bindE (Kit_Vector k ''WEATHER_PARAMETERS'') (\<lambda>v.
            ret (case find_sensor v (t_Elem e) of
                Some m \<Rightarrow> Inr m | None \<Rightarrow> Inl (NotImplemented mem))))"

definition weather_read :: "Kit \<Rightarrow> string \<Rightarrow> ('d, AlpacaError + f64) kitM" where
  "weather_read k mem = bindE (sensor k mem) (\<lambda>m. ret (Inr (m_Value (mv_Member m))))"

text \<open>\<^verbatim>\<open>windToMS\<close>: the constants 3.6 and 0.44704 are the nearest \<^verbatim>\<open>float64\<close> values.\<close>

definition f_const :: "rat \<Rightarrow> rat" where
  "f_const q = (case rnd q of Fin r \<Rightarrow> r | _ \<Rightarrow> 0)"

definition windToMS :: "f64 \<Rightarrow> string \<Rightarrow> f64" where
  "windToMS v label =
     (let l = ToLower label in
      if Contains l ''kph'' \<or> Contains l ''km/h'' then f_divc v (f_const (36 / 10))
      else if Contains l ''mph'' then f_mulc v (f_const (44704 / 100000))
      else v)"

definition wind :: "Kit \<Rightarrow> string \<Rightarrow> ('d, AlpacaError + f64) kitM" where
  "wind k mem = bindE (sensor k mem) (\<lambda>m. ret (Inr (windToMS (m_Value (mv_Member m)) (m_Label (mv_Member m)))))"

definition Weather_CloudCover :: "Kit \<Rightarrow> (Weather, AlpacaError + f64) kitM" where "Weather_CloudCover k = weather_read k ''CloudCover''"
definition Weather_DewPoint :: "Kit \<Rightarrow> (Weather, AlpacaError + f64) kitM" where "Weather_DewPoint k = weather_read k ''DewPoint''"
definition Weather_Humidity :: "Kit \<Rightarrow> (Weather, AlpacaError + f64) kitM" where "Weather_Humidity k = weather_read k ''Humidity''"
definition Weather_Pressure :: "Kit \<Rightarrow> (Weather, AlpacaError + f64) kitM" where "Weather_Pressure k = weather_read k ''Pressure''"
definition Weather_RainRate :: "Kit \<Rightarrow> (Weather, AlpacaError + f64) kitM" where "Weather_RainRate k = weather_read k ''RainRate''"
definition Weather_SkyQuality :: "Kit \<Rightarrow> (Weather, AlpacaError + f64) kitM" where "Weather_SkyQuality k = weather_read k ''SkyQuality''"
definition Weather_Temperature :: "Kit \<Rightarrow> (Weather, AlpacaError + f64) kitM" where "Weather_Temperature k = weather_read k ''Temperature''"
definition Weather_WindDirection :: "Kit \<Rightarrow> (Weather, AlpacaError + f64) kitM" where "Weather_WindDirection k = weather_read k ''WindDirection''"
definition Weather_SkyBrightness :: "AlpacaError + f64" where "Weather_SkyBrightness = Inl (NotImplemented ''SkyBrightness'')"
definition Weather_SkyTemperature :: "AlpacaError + f64" where "Weather_SkyTemperature = Inl (NotImplemented ''SkyTemperature'')"
definition Weather_StarFWHM :: "AlpacaError + f64" where "Weather_StarFWHM = Inl (NotImplemented ''StarFWHM'')"
definition Weather_WindGust :: "Kit \<Rightarrow> (Weather, AlpacaError + f64) kitM" where "Weather_WindGust k = wind k ''WindGust''"
definition Weather_WindSpeed :: "Kit \<Rightarrow> (Weather, AlpacaError + f64) kitM" where "Weather_WindSpeed k = wind k ''WindSpeed''"

subsection \<open>Averages, descriptions and ages\<close>

definition Weather_AveragePeriod :: "(Weather, f64) kitM" where
  "Weather_AveragePeriod = do { d \<leftarrow> get_dev; ret (we_avg d) }"

definition Weather_SetAveragePeriod :: "f64 \<Rightarrow> (Weather, AlpacaError option) kitM" where
  "Weather_SetAveragePeriod v =
     (if f_lt v (Fin 0) then ret (Some (InvalidValue [Lit ''AveragePeriod must be non-negative'']))
      else do { upd_dev (\<lambda>d. d\<lparr>we_avg := v\<rparr>); ret None })"

definition Weather_SensorDescription :: "Kit \<Rightarrow> string \<Rightarrow> (Weather, AlpacaError + string) kitM" where
  "Weather_SensorDescription k name = bindE (sensor k name) (\<lambda>mv.
     let m = mv_Member mv in
     ret (Inr (''INDI WEATHER_PARAMETERS.'' @ m_Name m @
       (if m_Label m \<noteq> [] \<and> m_Label m \<noteq> m_Name m then '' ('' @ m_Label m @ '')'' else []))))"

definition sensorMembers :: "string list" where
  "sensorMembers = map fst (filter (\<lambda>(_, e). t_Kind e = Func \<and> t_Prop e = ''WEATHER_PARAMETERS'') weather_table)"

text \<open>\<^verbatim>\<open>time.Since\<close> saturates at the ends of \<^verbatim>\<open>Duration\<close>; \<^verbatim>\<open>Seconds\<close> adds whole seconds and the rest.\<close>

definition seconds_since :: "gotime \<Rightarrow> gotime \<Rightarrow> f64" where
  "seconds_since now t =
     (let d = max (- (2 ^ 63)) (min (2 ^ 63 - 1) (now - t)); s = trunc (of_int d / 10 ^ 9) in
      f_add (f_of_int s) (f_divc (f_of_int (d - s * 10 ^ 9)) (10 ^ 9)))"

fun latest_arrival :: "Kit \<Rightarrow> string list \<Rightarrow> gotime \<Rightarrow> ('d, gotime) kitM" where
  "latest_arrival k [] latest = ret latest"
| "latest_arrival k (mem # mems) latest = do {
     r \<leftarrow> sensor k mem;
     latest_arrival k mems (case r of Inl _ \<Rightarrow> latest | Inr m \<Rightarrow> if latest < mv_Arrived m then mv_Arrived m else latest)
   }"

definition Weather_TimeSinceLastUpdate :: "Kit \<Rightarrow> string \<Rightarrow> (Weather, AlpacaError + f64) kitM" where
  "Weather_TimeSinceLastUpdate k name =
     (if name \<noteq> [] then bindE (sensor k name) (\<lambda>m. do { now \<leftarrow> Now; ret (Inr (seconds_since now (mv_Arrived m))) })
      else do {
        latest \<leftarrow> latest_arrival k sensorMembers 0;
        if latest = 0 then ret (Inr (Fin (- 1)))
        else do { now \<leftarrow> Now; ret (Inr (seconds_since now latest)) }
      })"

definition Weather_Refresh :: "Kit \<Rightarrow> (Weather, AlpacaError option) kitM" where
  "Weather_Refresh k = WriteSwitch k weather_table ''Refresh''"

definition weather_consumed :: "string \<Rightarrow> bool" where
  "weather_consumed = Consumed weather_table []"

definition Weather_Validate :: "Snapshot \<Rightarrow> string \<Rightarrow> string list" where
  "Weather_Validate snap device = Validate weather_table weather_consumed snap device"

definition Weather_SupportedActions :: "Kit \<Rightarrow> (Weather, string list) kitM" where
  "Weather_SupportedActions k = Supported \<lparr>en_kit = k, en_consumed = weather_consumed\<rparr>"

definition Weather_Action ::
  "Kit \<Rightarrow> (string \<Rightarrow> string \<Rightarrow> string \<times> AlpacaError option) \<Rightarrow> string \<Rightarrow> string
    \<Rightarrow> (Weather, string \<times> AlpacaError option) kitM" where
  "Weather_Action k base name params =
     device_action \<lparr>en_kit = k, en_consumed = weather_consumed\<rparr> base name params"

subsection \<open>Properties\<close>

lemma sensor_serves:
  assumes "run_state (sensor k mem) e = (Inr m, e')"
  obtains en v where "map_of weather_table mem = Some en" "t_Elem en \<noteq> []"
    "serves k (e_world e (Suc (e_clock e))) ''WEATHER_PARAMETERS'' v" "find_sensor v (t_Elem en) = Some m"
    "e' = e\<lparr>e_clock := Suc (Suc (e_clock e))\<rparr>" "w_serving (e_world e (e_clock e))"
proof -
  obtain en where en: "map_of weather_table mem = Some en" "t_Elem en \<noteq> []"
    using assms by (auto simp: sensor_def split: option.splits if_splits)
  obtain r e1 where r: "run_state (kit_vector k ''WEATHER_PARAMETERS'' ''WEATHER_PARAMETERS'') e = (r, e1)" by fastforce
  with assms en obtain v where v: "r = Inr v" "find_sensor v (t_Elem en) = Some m" "e1 = e'"
    by (auto simp: sensor_def Kit_Vector_def split: sum.splits option.splits)
  show ?thesis using that [OF en, of v] kit_vector_serves [OF r [unfolded v(1)]] v by simp
qed

text \<open>The arrival time a world shows for a sensor, 0 when it shows none.\<close>

definition arrival :: "Kit \<Rightarrow> World \<Rightarrow> string \<Rightarrow> gotime" where
  "arrival k w mem =
     (case map_of weather_table mem of None \<Rightarrow> 0
      | Some en \<Rightarrow>
          if t_Elem en = [] \<or> \<not> w_serving w \<or> \<not> s_valid (w_snap w) then 0
          else (case Snapshot_Vector (w_snap w) (kit_name k (w_snap w)) ''WEATHER_PARAMETERS'' of None \<Rightarrow> 0
            | Some v \<Rightarrow> (case find_sensor v (t_Elem en) of None \<Rightarrow> 0 | Some m \<Rightarrow> mv_Arrived m)))"

lemma latest_arrival_run:
  assumes "\<And>i. e_world e i = w" "0 \<le> l"
  shows "\<exists>c. run_state (latest_arrival k mems l) e = (foldl (\<lambda>l mem. max l (arrival k w mem)) l mems, e\<lparr>e_clock := c\<rparr>)"
  using assms
proof (induction mems arbitrary: l e)
  case Nil
  then show ?case by (intro exI [of _ "e_clock e"]) simp
next
  case (Cons mem mems)
  obtain r c where r: "run_state (sensor k mem) e = (r, e\<lparr>e_clock := c\<rparr>)"
    "(case r of Inl _ \<Rightarrow> l | Inr m \<Rightarrow> if l < mv_Arrived m then mv_Arrived m else l) = max l (arrival k w mem)"
  proof -
    have "\<exists>r c. run_state (sensor k mem) e = (r, e\<lparr>e_clock := c\<rparr>) \<and>
      (case r of Inl _ \<Rightarrow> l | Inr m \<Rightarrow> if l < mv_Arrived m then mv_Arrived m else l) = max l (arrival k w mem)"
      using Cons.prems
      by (auto simp: sensor_def arrival_def Kit_Vector_def run_kit_vector Let_def max_def split: option.splits if_splits sum.splits
          intro: exI [of _ "e_clock e"])
    then show ?thesis using that by blast
  qed
  have "0 \<le> max l (arrival k w mem)" using Cons.prems by simp
  with Cons.IH [of "e\<lparr>e_clock := c\<rparr>" "max l (arrival k w mem)"] Cons.prems r show ?case by auto
qed

end
