(* ===== verification/Device_Camera.thy ===== *)
theory Device_Camera
  imports Device_Base Image_Path
begin

text \<open>
  The camera (\<^verbatim>\<open>internal/devtype/camera\<close>): exposures with their in-flight bit, the frame that arrives
  beside the snapshot as a BLOB, the subframe in binned pixels, binning, cooling, the colour pattern,
  the controls found by name, readout modes and pulse guiding.

  What \<^verbatim>\<open>compress/zlib\<close> makes of a payload is the argument \<open>zlib\<close>: an error in the header of the stream,
  or the bytes it yields and the error that ends it, if any. \<open>powf\<close> is \<^verbatim>\<open>math.Pow(2, x)\<close> for an \<open>x\<close> that
  is not an integer between 0 and 1023. \<open>code\<close> gives the goalpaca library's number of a camera state.
\<close>

definition camera_table :: Table where
  "camera_table =
    [(''StartExposure'', row Func ''CCD_EXPOSURE'' ''CCD_EXPOSURE_VALUE'' ''StartExposure'' ''CCD_FRAME_TYPE first, then CCD_EXPOSURE; total retained for PercentCompleted''),
     (''StopExposure'', row Absent [] [] [] (''INDI has one abort; keeping the partial frame has no INDI equivalent '' @ EMDASH @ '' CanStopExposure is false'')),
     (''AbortExposure'', row Func ''CCD_ABORT_EXPOSURE'' ''ABORT'' ''AbortExposure'' ''discards the frame and the bridge's pending-image state''),
     (''CanAbortExposure'', row Derived [] [] [] ''CCD_ABORT_EXPOSURE defined''),
     (''CanStopExposure'', row Derived [] [] [] (''always false '' @ EMDASH @ '' see StopExposure'')),
     (''ImageReady'', row Derived [] [] [] ''CCD1 BLOB arrived and was transcoded; cleared by StartExposure/AbortExposure''),
     (''CameraState'', row Derived [] [] [] ''CCD_EXPOSURE vector state, ORed with the bridge in-flight bit for silent drivers''),
     (''PercentCompleted'', row Synthesised [] [] [] ''100 * (1 - remaining / requested duration)''),
     (''StartX'', row Func ''CCD_FRAME'' ''X'' ''StartX'' (DIVIDE @ ''/'' @ TIMES @ '' bin; complete-vector write'')),
     (''StartY'', row Func ''CCD_FRAME'' ''Y'' ''StartY'' []),
     (''NumX'', row Func ''CCD_FRAME'' ''WIDTH'' ''NumX'' []),
     (''NumY'', row Func ''CCD_FRAME'' ''HEIGHT'' ''NumY'' []),
     (''BinX'', row Func ''CCD_BINNING'' ''HOR_BIN'' ''BinX'' ''1 where undefined; complete-vector write''),
     (''BinY'', row Func ''CCD_BINNING'' ''VER_BIN'' ''BinY'' []),
     (''MaxBinX'', row Func [] [] ''MaxBinX'' ''HOR_BIN member max; 1 where undefined''),
     (''MaxBinY'', row Func [] [] ''MaxBinY'' []),
     (''CanAsymmetricBin'', row Derived [] [] [] ''HOR_BIN and VER_BIN both present in a writable CCD_BINNING''),
     (''CameraXSize'', row Mapped ''CCD_INFO'' ''CCD_MAX_X'' [] []),
     (''CameraYSize'', row Mapped ''CCD_INFO'' ''CCD_MAX_Y'' [] []),
     (''PixelSizeX'', row Mapped ''CCD_INFO'' ''CCD_PIXEL_SIZE_X'' [] []),
     (''PixelSizeY'', row Mapped ''CCD_INFO'' ''CCD_PIXEL_SIZE_Y'' [] []),
     (''MaxADU'', row Func ''CCD_INFO'' ''CCD_BITSPERPIXEL'' ''MaxADU'' (''2^bits '' @ MINUS @ '' 1, not the bit count '' @ EMDASH @ '' a pass-through is wrong by 4096'' @ TIMES)),
     (''SensorName'', row Derived [] [] [] ''CCD_INFO has no sensor name; the INDI device name is the honest stand-in''),
     (''CCDTemperature'', row Mapped ''CCD_TEMPERATURE'' ''CCD_TEMPERATURE_VALUE'' [] []),
     (''SetCCDTemperature'', row Func ''CCD_TEMPERATURE'' ''CCD_TEMPERATURE_VALUE'' ''SetCCDTemperature'' ''the setpoint is bridge-retained: reading CCD_TEMPERATURE reports the current temperature, not the target''),
     (''CanSetCCDTemperature'', row Derived [] [] [] ''CCD_TEMPERATURE defined and writable''),
     (''CoolerOn'', row Func ''CCD_COOLER'' ''COOLER_ON'' ''CoolerOn'' []),
     (''CoolerPower'', row Func ''CCD_COOLER_POWER'' ''CCD_COOLER_VALUE'' ''CoolerPower'' (''unverified on real hardware '' @ EMDASH @ '' outside the Ekos-proven surface'')),
     (''CanGetCoolerPower'', row Derived [] [] [] ''CCD_COOLER_POWER defined''),
     (''SensorType'', row Func [] [] ''SensorType'' ''CCD_CFA.CFA_TYPE; Monochrome where absent''),
     (''BayerOffsetX'', row Func ''CCD_CFA'' ''CFA_OFFSET_X'' ''BayerOffsetX'' ''0x400 on monochrome''),
     (''BayerOffsetY'', row Func ''CCD_CFA'' ''CFA_OFFSET_Y'' ''BayerOffsetY'' []),
     (''Gain'', row Func [] [] ''Gain'' []),
     (''GainMin'', row Func [] [] ''GainMin'' []),
     (''GainMax'', row Func [] [] ''GainMax'' []),
     (''Gains'', row Absent [] [] [] (''value mode '' @ EMDASH @ '' the discovered source is a number member; no scanned driver uses a switch vector'')),
     (''Offset'', row Func [] [] ''Offset'' []),
     (''OffsetMin'', row Func [] [] ''OffsetMin'' []),
     (''OffsetMax'', row Func [] [] ''OffsetMax'' []),
     (''Offsets'', row Absent [] [] [] ''value mode, as Gains''),
     (''CanGain'', row Derived [] [] [] (''a gain source resolved '' @ EMDASH @ '' fail to absent, never to Gain=0'')),
     (''CanOffset'', row Derived [] [] [] ''an offset source resolved''),
     (''ReadoutMode'', row Func [] [] ''ReadoutMode'' ''CCD_CAPTURE_FORMAT, else CCD_TRANSFER_FORMAT; index of the On member''),
     (''ReadoutModes'', row Func [] [] ''ReadoutModes'' []),
     (''ExposureMin'', row Derived [] [] [] ''CCD_EXPOSURE member min''),
     (''ExposureMax'', row Derived [] [] [] ''CCD_EXPOSURE member max''),
     (''ExposureResolution'', row Derived [] [] [] ''CCD_EXPOSURE member step''),
     (''HasShutter'', row Synthesised [] [] [] ''shutter capability is not exposed through INDI properties''),
     (''PulseGuide'', row Func [] [] ''PulseGuide'' ''TELESCOPE_TIMED_GUIDE_NS/_WE, milliseconds''),
     (''IsPulseGuiding'', row Derived [] [] [] ''either timed-guide vector Busy OR bridge in-flight''),
     (''CanPulseGuide'', row Derived [] [] [] ''TELESCOPE_TIMED_GUIDE_NS defined''),
     (''ImageFrame'', row Func [] [] ''ImageFrame'' ''the last transcoded frame; bridge state, not snapshot''),
     (''LastExposureDuration'', row Synthesised [] [] [] ''stamped at StartExposure''),
     (''LastExposureStartTime'', row Synthesised [] [] [] ''stamped at StartExposure; yyyy-mm-ddThh:mm:ss UTC''),
     (''ElectronsPerADU'', row Absent [] [] [] ''no INDI property; goalpaca's getter has no error channel, so it reads 0 (architecture  gap)''),
     (''FullWellCapacity'', row Absent [] [] [] ''no INDI property; same error-channel gap''),
     (''HeatSinkTemperature'', row Absent [] [] [] ''no INDI property''),
     (''SubExposureDuration'', row Absent [] [] [] ''no INDI property (ICameraV3 optional)''),
     (''FastReadout'', row Absent [] [] [] (''CCD_FAST_TOGGLE is frame-buffering, not readout speed '' @ EMDASH @ '' Actions'')),
     (''CanFastReadout'', row Derived [] [] [] (''always false '' @ EMDASH @ '' see FastReadout''))]"

definition camera_consumed :: "string \<Rightarrow> bool" where
  "camera_consumed = Consumed camera_table
    [''CCD_GAIN'', ''CCD_OFFSET'', ''CCD_CONTROLS'', ''CCD_CAPTURE_FORMAT'', ''CCD_TRANSFER_FORMAT'',
     ''TELESCOPE_TIMED_GUIDE_NS'', ''TELESCOPE_TIMED_GUIDE_WE'']"

record Camera =
  ca_exposure :: Inflight
  ca_guide :: Inflight
  ca_frame :: "ImageFrame option"
  ca_frameErr :: "AlpacaError option"
  ca_expTotal :: f64
  ca_expStart :: gotime
  ca_expStarted :: bool
  ca_coolTarget :: f64
  ca_coolSet :: bool

definition new_camera :: Camera where
  "new_camera = \<lparr>ca_exposure = \<lparr>i_at = 0, i_active = False\<rparr>, ca_guide = \<lparr>i_at = 0, i_active = False\<rparr>, ca_frame = None,
     ca_frameErr = None, ca_expTotal = Fin 0, ca_expStart = 0, ca_expStarted = False, ca_coolTarget = Fin 0, ca_coolSet = False\<rparr>"

definition exposure_upd :: "Camera setter" where
  "exposure_upd f d = d\<lparr>ca_exposure := f (ca_exposure d)\<rparr>"

definition guide_upd :: "Camera setter" where
  "guide_upd f d = d\<lparr>ca_guide := f (ca_guide d)\<rparr>"

interpretation ca_exp: inflight_bit ca_exposure exposure_upd
  by unfold_locales (simp add: exposure_upd_def)

interpretation ca_gd: inflight_bit ca_guide guide_upd
  by unfold_locales (simp add: guide_upd_def)

subsection \<open>Conversions\<close>

definition camera_pow2 :: "(f64 \<Rightarrow> f64) \<Rightarrow> f64 \<Rightarrow> f64" where
  "camera_pow2 powf x =
     (case x of Fin q \<Rightarrow> if q = of_int \<lfloor>q\<rfloor> \<and> 0 \<le> q \<and> q < 1024 then Fin (2 ^ nat \<lfloor>q\<rfloor>) else powf x | _ \<Rightarrow> powf x)"

definition maxADUFromBits :: "(f64 \<Rightarrow> f64) \<Rightarrow> f64 \<Rightarrow> int" where
  "maxADUFromBits powf bits =
     (if f_le bits (Fin 0) \<or> f_lt (Fin 32) bits then 0 else wrap64 (f_int (camera_pow2 powf bits) - 1))"

definition toBinned :: "f64 \<Rightarrow> int \<Rightarrow> int" where
  "toBinned unbinned bin = (let bin = (if bin < 1 then 1 else bin) in go_quot (f_int unbinned) bin)"

definition toUnbinned :: "int \<Rightarrow> int \<Rightarrow> f64" where
  "toUnbinned binned bin = (let bin = (if bin < 1 then 1 else bin) in f_of_int (wrap64 (binned * bin)))"

definition percentCompleted :: "f64 \<Rightarrow> f64 \<Rightarrow> int" where
  "percentCompleted remaining tot =
     (if f_le tot (Fin 0) then 0
      else let p = f_int (f_mul (Fin 100) (f_sub (Fin 1) (f_div remaining tot)))
        in if p < 0 then 0 else if 100 < p then 100 else p)"

subsection \<open>Reading the snapshot\<close>

definition Camera_Connecting :: "bool \<Rightarrow> (Camera, bool) kitM" where
  "Camera_Connecting base = (if base then ret True else do { (ok, _) \<leftarrow> Avail; ret (\<not> ok) })"

definition Camera_Busy :: bool where "Camera_Busy = False"

definition cam_member :: "Kit \<Rightarrow> string \<Rightarrow> string \<Rightarrow> (Camera, Member option) kitM" where
  "cam_member k vec elem = do {
     r \<leftarrow> Kit_Vector k vec;
     ret (case r of Inl _ \<Rightarrow> None | Inr v \<Rightarrow> map_option mv_Member (Vector_Member v elem))
   }"

definition cam_number :: "Kit \<Rightarrow> string \<Rightarrow> string \<Rightarrow> (Camera, f64) kitM" where
  "cam_number k vec elem = do { m \<leftarrow> cam_member k vec elem; ret (case m of Some m \<Rightarrow> m_Value m | None \<Rightarrow> Fin 0) }"

definition cam_switchOn :: "Kit \<Rightarrow> string \<Rightarrow> string \<Rightarrow> (Camera, bool) kitM" where
  "cam_switchOn k vec elem = do { m \<leftarrow> cam_member k vec elem; ret (case m of Some m \<Rightarrow> m_On m | None \<Rightarrow> False) }"

definition cam_writable :: "Kit \<Rightarrow> string \<Rightarrow> (Camera, bool) kitM" where
  "cam_writable k vec = do { r \<leftarrow> Kit_Vector k vec; ret (case r of Inl _ \<Rightarrow> False | Inr v \<Rightarrow> v_Perm v \<noteq> ReadOnly) }"

subsection \<open>Exposures\<close>

datatype CameraStatus = CameraIdle | CameraExposing | CameraError

definition forget_frame :: "Camera \<Rightarrow> Camera" where
  "forget_frame d = d\<lparr>ca_frame := None, ca_frameErr := None\<rparr>"

text \<open>The frame type, where the driver has one, and the exposure proper.\<close>

definition send_frame_type :: "Kit \<Rightarrow> bool \<Rightarrow> (Camera, AlpacaError option) kitM" where
  "send_frame_type k light = do {
     has \<leftarrow> Has k ''CCD_FRAME_TYPE'';
     if has then SendSwitch k ''CCD_FRAME_TYPE'' [if light then ''FRAME_LIGHT'' else ''FRAME_DARK''] []
     else ret None
   }"

definition send_exposure :: "Kit \<Rightarrow> f64 \<Rightarrow> (Camera, AlpacaError option) kitM" where
  "send_exposure k duration = do {
     r \<leftarrow> started exposure_upd (WriteNumber k camera_table ''StartExposure'' duration);
     (case r of
        Some er \<Rightarrow> ret (Some er)
      | None \<Rightarrow> do {
          t \<leftarrow> Now;
          upd_dev (\<lambda>d. d\<lparr>ca_expTotal := duration, ca_expStart := t, ca_expStarted := True\<rparr>);
          ret None })
   }"

definition StartExposure :: "Kit \<Rightarrow> f64 \<Rightarrow> bool \<Rightarrow> (Camera, AlpacaError option) kitM" where
  "StartExposure k duration light = do {
     (ok, reason) \<leftarrow> Avail;
     if \<not> ok then ret (Some (NotConnected reason))
     else do {
       r \<leftarrow> send_frame_type k light;
       (case r of
          Some er \<Rightarrow> ret (Some er)
        | None \<Rightarrow> do { upd_dev forget_frame; send_exposure k duration })
     }
   }"

definition CanStopExposure :: bool where "CanStopExposure = False"

definition StopExposure :: "AlpacaError option" where
  "StopExposure = Some (NotImplemented ''StopExposure'')"

definition CanAbortExposure :: "Kit \<Rightarrow> (Camera, bool) kitM" where
  "CanAbortExposure k = Has k ''CCD_ABORT_EXPOSURE''"

definition AbortExposure :: "Kit \<Rightarrow> (Camera, AlpacaError option) kitM" where
  "AbortExposure k = do {
     op_clear exposure_upd;
     upd_dev forget_frame;
     WriteSwitch k camera_table ''AbortExposure''
   }"

definition CameraState :: "Kit \<Rightarrow> (Camera, CameraStatus) kitM" where
  "CameraState k = do {
     (ok, _) \<leftarrow> Avail;
     if \<not> ok then do { op_clear exposure_upd; ret CameraIdle }
     else do {
       st \<leftarrow> StateOf k ''CCD_EXPOSURE'';
       if st = Busy then ret CameraExposing
       else if st = Alert then ret CameraError
       else do {
         u \<leftarrow> UpdatedOf k ''CCD_EXPOSURE'';
         b \<leftarrow> op_active ca_exposure exposure_upd u;
         ret (if b then CameraExposing else CameraIdle)
       }
     }
   }"

definition ImageReady :: "(Camera, bool) kitM" where
  "ImageReady = do { d \<leftarrow> get_dev; ret (ca_frame d \<noteq> None) }"

definition PercentCompleted :: "Kit \<Rightarrow> (Camera, int) kitM" where
  "PercentCompleted k = do {
     ready \<leftarrow> ImageReady;
     if ready then ret 100
     else do {
       st \<leftarrow> CameraState k;
       if st \<noteq> CameraExposing then ret 0
       else do {
         d \<leftarrow> get_dev;
         x \<leftarrow> cam_number k ''CCD_EXPOSURE'' ''CCD_EXPOSURE_VALUE'';
         ret (percentCompleted x (ca_expTotal d))
       }
     }
   }"

text \<open>\<^verbatim>\<open>Descriptor\<close> returns zeros where it finds no range.\<close>

definition exposure_range :: "Kit \<Rightarrow> (Camera, f64 \<times> f64 \<times> f64) kitM" where
  "exposure_range k = do {
     r \<leftarrow> Descriptor k camera_table ''StartExposure'';
     ret (case r of Some x \<Rightarrow> x | None \<Rightarrow> (Fin 0, Fin 0, Fin 0))
   }"

definition ExposureMin :: "Kit \<Rightarrow> (Camera, f64) kitM" where
  "ExposureMin k = do { (mn, mx, st) \<leftarrow> exposure_range k; ret mn }"

definition ExposureMax :: "Kit \<Rightarrow> (Camera, f64) kitM" where
  "ExposureMax k = do { (mn, mx, st) \<leftarrow> exposure_range k; ret mx }"

definition ExposureResolution :: "Kit \<Rightarrow> (Camera, f64) kitM" where
  "ExposureResolution k = do { (mn, mx, st) \<leftarrow> exposure_range k; ret st }"

text \<open>The left value is \<^verbatim>\<open>server.ErrValueNotSet\<close>.\<close>

definition LastExposureDuration :: "(Camera, unit + f64) kitM" where
  "LastExposureDuration = do { d \<leftarrow> get_dev; ret (if ca_expStarted d then Inr (ca_expTotal d) else Inl ()) }"

definition LastExposureStartTime :: "(Camera, unit + string) kitM" where
  "LastExposureStartTime = do { d \<leftarrow> get_dev; ret (if ca_expStarted d then Inr (format_utc (ca_expStart d)) else Inl ()) }"

definition HasShutter :: bool where "HasShutter = False"

subsection \<open>Frames\<close>

definition maxInflated :: nat where "maxInflated = 2 ^ 30"

datatype zlib_stream = BadHeader | Yields string bool \<comment> \<open>the bytes, and whether the stream ends in an error\<close>

datatype inflate_error = Corrupt | InflatedPast

definition inflate :: "(string \<Rightarrow> zlib_stream) \<Rightarrow> string \<Rightarrow> inflate_error + string" where
  "inflate zlib data =
     (case zlib data of
        BadHeader \<Rightarrow> Inl Corrupt
      | Yields out broken \<Rightarrow>
          if maxInflated < length out then Inl InflatedPast
          else if broken then Inl Corrupt
          else Inr out)"

text \<open>The part after decompression; transcoding can panic, which is \<^const>\<open>None\<close>.\<close>

definition ingest_fits :: "string \<Rightarrow> string \<Rightarrow> string \<Rightarrow> string \<Rightarrow> Camera \<Rightarrow> Camera option" where
  "ingest_fits spare low format data c =
     (if low \<noteq> [] \<and> \<not> Contains low ''fits'' then
        Some (c\<lparr>ca_frameErr := Some (DriverError [Lit ''unsupported image format'']
          [Lit ''driver sent '', FmtQ format, Lit ''; set CCD_TRANSFER_FORMAT to FITS''])\<rparr>)
      else (case Transcode spare data of
          Panics \<Rightarrow> None
        | Failed er h \<Rightarrow> Some (c\<lparr>ca_frameErr := Some (DriverError [Lit ''image transcode failed''] [FmtErr])\<rparr>)
        | Decoded fr h \<Rightarrow> Some (c\<lparr>ca_frame := Some fr, ca_frameErr := None\<rparr>)))"

definition IngestBlob :: "(string \<Rightarrow> zlib_stream) \<Rightarrow> string \<Rightarrow> string \<Rightarrow> string \<Rightarrow> string \<Rightarrow> Camera \<Rightarrow> Camera option" where
  "IngestBlob zlib spare vec format data c =
     (if vec \<noteq> ''CCD1'' then Some c
      else let low = ToLower (TrimSpace format) in
        if HasSuffix low ''.z'' then
          (case inflate zlib data of
             Inl er \<Rightarrow> Some (c\<lparr>ca_frameErr := Some (DriverError [Lit ''compressed frame did not inflate'']
               [Lit ''driver sent '', FmtQ format, Lit '' but the payload is not valid zlib ('', FmtErr, Lit ''); set CCD_COMPRESSION to Off''])\<rparr>)
           | Inr out \<Rightarrow> ingest_fits spare (take (length low - 2) low) format out c)
        else ingest_fits spare low format data c)"

definition Camera_ImageFrame :: "(Camera, AlpacaError + ImageFrame) kitM" where
  "Camera_ImageFrame = do {
     d \<leftarrow> get_dev;
     ret (case ca_frame d of Some fr \<Rightarrow> Inr fr
       | None \<Rightarrow> (case ca_frameErr d of Some er \<Rightarrow> Inl er
         | None \<Rightarrow> Inl (InvalidOperation [Lit (''no image is available '' @ EMDASH @ '' ImageReady is false'')])))
   }"

subsection \<open>Binning and the subframe\<close>

definition binOf :: "Kit \<Rightarrow> string \<Rightarrow> (Camera, int) kitM" where
  "binOf k elem = do { v \<leftarrow> cam_number k ''CCD_BINNING'' elem; ret (if f_le (Fin 1) v then f_int v else 1) }"

definition BinX :: "Kit \<Rightarrow> (Camera, int) kitM" where "BinX k = binOf k ''HOR_BIN''"
definition BinY :: "Kit \<Rightarrow> (Camera, int) kitM" where "BinY k = binOf k ''VER_BIN''"

definition frame_part :: "Kit \<Rightarrow> string \<Rightarrow> (Camera, int) kitM \<Rightarrow> (Camera, int) kitM" where
  "frame_part k elem bin = do { x \<leftarrow> cam_number k ''CCD_FRAME'' elem; b \<leftarrow> bin; ret (toBinned x b) }"

definition StartX :: "Kit \<Rightarrow> (Camera, int) kitM" where "StartX k = frame_part k ''X'' (BinX k)"
definition StartY :: "Kit \<Rightarrow> (Camera, int) kitM" where "StartY k = frame_part k ''Y'' (BinY k)"
definition NumX :: "Kit \<Rightarrow> (Camera, int) kitM" where "NumX k = frame_part k ''WIDTH'' (BinX k)"
definition NumY :: "Kit \<Rightarrow> (Camera, int) kitM" where "NumY k = frame_part k ''HEIGHT'' (BinY k)"

definition setFrame :: "Kit \<Rightarrow> string \<Rightarrow> int \<Rightarrow> int \<Rightarrow> (Camera, AlpacaError option) kitM" where
  "setFrame k elem binned bin = do {
     r \<leftarrow> Kit_Vector k ''CCD_FRAME'';
     (case r of
        Inl er \<Rightarrow> ret (Some er)
      | Inr v \<Rightarrow>
          let unbinned = toUnbinned binned bin;
              out = (case Vector_Member v elem of Some mv \<Rightarrow> out_of_range (mv_Member mv) unbinned | None \<Rightarrow> False)
          in if out then
               ret (Some (let m = MemberOrZero v elem in
                 InvalidValue [Lit elem, Lit '' '', FmtD binned, Lit '' ('', FmtG unbinned, Lit '' unbinned) is outside the driver's range '',
                   FmtG (m_Min m), Lit '' to '', FmtG (m_Max m)]))
             else SendNumber k ''CCD_FRAME'' (AList.update elem unbinned (vector_values v)))
   }"

definition SetStartX :: "Kit \<Rightarrow> int \<Rightarrow> (Camera, AlpacaError option) kitM" where
  "SetStartX k v = do { b \<leftarrow> BinX k; setFrame k ''X'' v b }"
definition SetStartY :: "Kit \<Rightarrow> int \<Rightarrow> (Camera, AlpacaError option) kitM" where
  "SetStartY k v = do { b \<leftarrow> BinY k; setFrame k ''Y'' v b }"
definition SetNumX :: "Kit \<Rightarrow> int \<Rightarrow> (Camera, AlpacaError option) kitM" where
  "SetNumX k v = do { b \<leftarrow> BinX k; setFrame k ''WIDTH'' v b }"
definition SetNumY :: "Kit \<Rightarrow> int \<Rightarrow> (Camera, AlpacaError option) kitM" where
  "SetNumY k v = do { b \<leftarrow> BinY k; setFrame k ''HEIGHT'' v b }"

definition setBin :: "Kit \<Rightarrow> string \<Rightarrow> int \<Rightarrow> (Camera, AlpacaError option) kitM" where
  "setBin k elem bin = do {
     has \<leftarrow> Has k ''CCD_BINNING'';
     if \<not> has then ret (if bin = 1 then None else Some (NotImplemented ''Bin''))
     else do {
       r \<leftarrow> Kit_Vector k ''CCD_BINNING'';
       (case r of
          Inl er \<Rightarrow> ret (Some er)
        | Inr v \<Rightarrow>
            let out = (case Vector_Member v elem of Some mv \<Rightarrow> out_of_range (mv_Member mv) (f_of_int bin) | None \<Rightarrow> False)
            in if out then
                 ret (Some (let m = MemberOrZero v elem in
                   InvalidValue [Lit ''bin '', FmtD bin, Lit '' is outside the driver's range '', FmtG (m_Min m), Lit '' to '', FmtG (m_Max m)]))
               else SendNumber k ''CCD_BINNING'' (AList.update elem (f_of_int bin) (vector_values v)))
     }
   }"

definition SetBinX :: "Kit \<Rightarrow> int \<Rightarrow> (Camera, AlpacaError option) kitM" where "SetBinX k v = setBin k ''HOR_BIN'' v"
definition SetBinY :: "Kit \<Rightarrow> int \<Rightarrow> (Camera, AlpacaError option) kitM" where "SetBinY k v = setBin k ''VER_BIN'' v"

definition maxBinOf :: "Kit \<Rightarrow> string \<Rightarrow> (Camera, int) kitM" where
  "maxBinOf k elem = do {
     m \<leftarrow> cam_member k ''CCD_BINNING'' elem;
     ret (case m of Some m \<Rightarrow> if m_HasRange m \<and> f_le (Fin 1) (m_Max m) then f_int (m_Max m) else 1 | None \<Rightarrow> 1)
   }"

definition MaxBinX :: "Kit \<Rightarrow> (Camera, int) kitM" where "MaxBinX k = maxBinOf k ''HOR_BIN''"
definition MaxBinY :: "Kit \<Rightarrow> (Camera, int) kitM" where "MaxBinY k = maxBinOf k ''VER_BIN''"

definition CanAsymmetricBin :: "Kit \<Rightarrow> (Camera, bool) kitM" where
  "CanAsymmetricBin k = do {
     r \<leftarrow> Kit_Vector k ''CCD_BINNING'';
     ret (case r of Inl _ \<Rightarrow> False
       | Inr v \<Rightarrow> v_Perm v \<noteq> ReadOnly \<and> Vector_Member v ''HOR_BIN'' \<noteq> None \<and> Vector_Member v ''VER_BIN'' \<noteq> None)
   }"

subsection \<open>The sensor\<close>

definition CameraXSize :: "Kit \<Rightarrow> (Camera, int) kitM" where
  "CameraXSize k = do { x \<leftarrow> cam_number k ''CCD_INFO'' ''CCD_MAX_X''; ret (f_int x) }"
definition CameraYSize :: "Kit \<Rightarrow> (Camera, int) kitM" where
  "CameraYSize k = do { x \<leftarrow> cam_number k ''CCD_INFO'' ''CCD_MAX_Y''; ret (f_int x) }"
definition PixelSizeX :: "Kit \<Rightarrow> (Camera, f64) kitM" where
  "PixelSizeX k = cam_number k ''CCD_INFO'' ''CCD_PIXEL_SIZE_X''"
definition PixelSizeY :: "Kit \<Rightarrow> (Camera, f64) kitM" where
  "PixelSizeY k = cam_number k ''CCD_INFO'' ''CCD_PIXEL_SIZE_Y''"
definition MaxADU :: "(f64 \<Rightarrow> f64) \<Rightarrow> Kit \<Rightarrow> (Camera, int) kitM" where
  "MaxADU powf k = do { x \<leftarrow> cam_number k ''CCD_INFO'' ''CCD_BITSPERPIXEL''; ret (maxADUFromBits powf x) }"
definition SensorName :: "Kit \<Rightarrow> (Camera, string) kitM" where "SensorName k = DeviceName k"

datatype Sensor = SensorMonochrome | SensorRGGB

definition SensorType :: "Kit \<Rightarrow> (Camera, Sensor) kitM" where
  "SensorType k = do {
     m \<leftarrow> cam_member k ''CCD_CFA'' ''CFA_TYPE'';
     ret (case m of None \<Rightarrow> SensorMonochrome
       | Some m \<Rightarrow> if ToUpper (TrimSpace (m_Text m)) \<in> {''RGGB'', ''BGGR'', ''GBRG'', ''GRBG''} then SensorRGGB else SensorMonochrome)
   }"

definition bayerOffset :: "Kit \<Rightarrow> string \<Rightarrow> (Camera, AlpacaError + int) kitM" where
  "bayerOffset k elem = do {
     t \<leftarrow> SensorType k;
     if t = SensorMonochrome then ret (Inl (NotImplemented ''BayerOffset''))
     else do {
       m \<leftarrow> cam_member k ''CCD_CFA'' elem;
       ret (case m of None \<Rightarrow> Inl (NotImplemented ''BayerOffset'')
         | Some m \<Rightarrow> (case Atoi (TrimSpace (m_Text m)) of
               None \<Rightarrow> Inl (DriverError [Lit ''unparseable CFA offset''] [Lit (m_Text m)])
             | Some n \<Rightarrow> Inr n))
     }
   }"

definition BayerOffsetX :: "Kit \<Rightarrow> (Camera, AlpacaError + int) kitM" where "BayerOffsetX k = bayerOffset k ''CFA_OFFSET_X''"
definition BayerOffsetY :: "Kit \<Rightarrow> (Camera, AlpacaError + int) kitM" where "BayerOffsetY k = bayerOffset k ''CFA_OFFSET_Y''"

subsection \<open>Cooling\<close>

definition CCDTemperature :: "Kit \<Rightarrow> (Camera, AlpacaError + f64) kitM" where
  "CCDTemperature k = Number_read k camera_table ''CCDTemperature''"

definition CanSetCCDTemperature :: "Kit \<Rightarrow> (Camera, bool) kitM" where
  "CanSetCCDTemperature k = cam_writable k ''CCD_TEMPERATURE''"

definition SetCCDTemperature :: "Kit \<Rightarrow> (Camera, AlpacaError + f64) kitM" where
  "SetCCDTemperature k = do {
     d \<leftarrow> get_dev;
     if ca_coolSet d then ret (Inr (ca_coolTarget d)) else CCDTemperature k
   }"

definition SetSetCCDTemperature :: "Kit \<Rightarrow> f64 \<Rightarrow> (Camera, AlpacaError option) kitM" where
  "SetSetCCDTemperature k v = do {
     r \<leftarrow> WriteNumber k camera_table ''SetCCDTemperature'' v;
     (case r of Some er \<Rightarrow> ret (Some er)
      | None \<Rightarrow> do { upd_dev (\<lambda>d. d\<lparr>ca_coolTarget := v, ca_coolSet := True\<rparr>); ret None })
   }"

definition CoolerOn :: "Kit \<Rightarrow> (Camera, bool) kitM" where "CoolerOn k = cam_switchOn k ''CCD_COOLER'' ''COOLER_ON''"

definition SetCoolerOn :: "Kit \<Rightarrow> bool \<Rightarrow> (Camera, AlpacaError option) kitM" where
  "SetCoolerOn k on = do {
     r \<leftarrow> Kit_Vector k ''CCD_COOLER'';
     (case r of Inl er \<Rightarrow> ret (Some er)
      | Inr _ \<Rightarrow> SendSwitch k ''CCD_COOLER'' [if on then ''COOLER_ON'' else ''COOLER_OFF''] [])
   }"

definition CanGetCoolerPower :: "Kit \<Rightarrow> (Camera, bool) kitM" where "CanGetCoolerPower k = Has k ''CCD_COOLER_POWER''"

definition CoolerPower :: "Kit \<Rightarrow> (Camera, AlpacaError + f64) kitM" where
  "CoolerPower k = bindE (Kit_Vector k ''CCD_COOLER_POWER'') (\<lambda>v.
     ret (case Vector_Member v ''CCD_COOLER_VALUE'' of
         Some mv \<Rightarrow> Inr (m_Value (mv_Member mv))
       | None \<Rightarrow> (case v_Members v of [mv] \<Rightarrow> Inr (m_Value (mv_Member mv)) | _ \<Rightarrow> Inl (NotImplemented ''CoolerPower''))))"

subsection \<open>Controls found by name\<close>

text \<open>The standard member, else the first number whose name or label matches, over the properties in the
  order in which the map yields them.\<close>

definition control_matches :: "string \<Rightarrow> Member \<Rightarrow> bool" where
  "control_matches name m \<longleftrightarrow> ToLower (m_Name m) = name \<or> ToLower (m_Label m) = name"

fun search_control :: "Snapshot \<Rightarrow> string \<Rightarrow> string \<Rightarrow> string list \<Rightarrow> (string \<times> string) option" where
  "search_control snap dev name [] = None"
| "search_control snap dev name (p # ps) =
     (case Snapshot_Vector snap dev p of
        None \<Rightarrow> search_control snap dev name ps
      | Some v \<Rightarrow>
          if v_Type v \<noteq> Number then search_control snap dev name ps
          else (case find (control_matches name) (map mv_Member (v_Members v)) of
              Some m \<Rightarrow> Some (p, m_Name m)
            | None \<Rightarrow> search_control snap dev name ps))"

definition findControl :: "Kit \<Rightarrow> string \<Rightarrow> string \<Rightarrow> string \<Rightarrow> (Camera, (string \<times> string) option) kitM" where
  "findControl k stdProp stdElem name = do {
     m \<leftarrow> cam_member k stdProp stdElem;
     if m \<noteq> None then ret (Some (stdProp, stdElem))
     else do {
       (ok, _) \<leftarrow> Avail;
       if \<not> ok then ret None
       else do { snap \<leftarrow> Snap; dev \<leftarrow> DeviceName k; ret (search_control snap dev name (Properties snap dev)) }
     }
   }"

definition gainSource :: "Kit \<Rightarrow> (Camera, (string \<times> string) option) kitM" where
  "gainSource k = findControl k ''CCD_GAIN'' ''GAIN'' ''gain''"
definition offsetSource :: "Kit \<Rightarrow> (Camera, (string \<times> string) option) kitM" where
  "offsetSource k = findControl k ''CCD_OFFSET'' ''OFFSET'' ''offset''"

definition CanGain :: "Kit \<Rightarrow> (Camera, bool) kitM" where "CanGain k = do { s \<leftarrow> gainSource k; ret (s \<noteq> None) }"
definition CanOffset :: "Kit \<Rightarrow> (Camera, bool) kitM" where "CanOffset k = do { s \<leftarrow> offsetSource k; ret (s \<noteq> None) }"

definition camera_control :: "Kit \<Rightarrow> (Camera, (string \<times> string) option) kitM \<Rightarrow> (Camera, Member) kitM" where
  "camera_control k src = do {
     s \<leftarrow> src;
     (case s of None \<Rightarrow> ret zero_member
      | Some (vec, elem) \<Rightarrow> do { m \<leftarrow> cam_member k vec elem; ret (case m of Some m \<Rightarrow> m | None \<Rightarrow> zero_member) })
   }"

definition Gain :: "Kit \<Rightarrow> (Camera, int) kitM" where
  "Gain k = do { m \<leftarrow> camera_control k (gainSource k); ret (f_int (m_Value m)) }"
definition GainMin :: "Kit \<Rightarrow> (Camera, int) kitM" where
  "GainMin k = do { m \<leftarrow> camera_control k (gainSource k); ret (f_int (m_Min m)) }"
definition GainMax :: "Kit \<Rightarrow> (Camera, int) kitM" where
  "GainMax k = do { m \<leftarrow> camera_control k (gainSource k); ret (f_int (m_Max m)) }"
definition Offset :: "Kit \<Rightarrow> (Camera, int) kitM" where
  "Offset k = do { m \<leftarrow> camera_control k (offsetSource k); ret (f_int (m_Value m)) }"
definition OffsetMin :: "Kit \<Rightarrow> (Camera, int) kitM" where
  "OffsetMin k = do { m \<leftarrow> camera_control k (offsetSource k); ret (f_int (m_Min m)) }"
definition OffsetMax :: "Kit \<Rightarrow> (Camera, int) kitM" where
  "OffsetMax k = do { m \<leftarrow> camera_control k (offsetSource k); ret (f_int (m_Max m)) }"

definition setControl :: "Kit \<Rightarrow> (Camera, (string \<times> string) option) kitM \<Rightarrow> string \<Rightarrow> int \<Rightarrow> (Camera, AlpacaError option) kitM" where
  "setControl k src mem v = do {
     s \<leftarrow> src;
     (case s of None \<Rightarrow> ret (Some (NotImplemented mem))
      | Some (vec, elem) \<Rightarrow> do {
          m \<leftarrow> cam_member k vec elem;
          (case m of
             Some m \<Rightarrow>
               if out_of_range m (f_of_int v) then
                 ret (Some (InvalidValue [Lit mem, Lit '' '', FmtD v, Lit '' is outside the driver's range '', FmtG (m_Min m), Lit '' to '', FmtG (m_Max m)]))
               else SendNumber k vec [(elem, f_of_int v)]
           | None \<Rightarrow> SendNumber k vec [(elem, f_of_int v)]) })
   }"

definition SetGain :: "Kit \<Rightarrow> int \<Rightarrow> (Camera, AlpacaError option) kitM" where "SetGain k v = setControl k (gainSource k) ''Gain'' v"
definition SetOffset :: "Kit \<Rightarrow> int \<Rightarrow> (Camera, AlpacaError option) kitM" where "SetOffset k v = setControl k (offsetSource k) ''Offset'' v"

subsection \<open>Readout modes\<close>

definition readoutVec :: "Kit \<Rightarrow> (Camera, Vector option) kitM" where
  "readoutVec k = do {
     r \<leftarrow> Kit_Vector k ''CCD_CAPTURE_FORMAT'';
     (case r of Inr v \<Rightarrow> ret (Some v)
      | Inl _ \<Rightarrow> do { r \<leftarrow> Kit_Vector k ''CCD_TRANSFER_FORMAT''; ret (case r of Inr v \<Rightarrow> Some v | Inl _ \<Rightarrow> None) })
   }"

definition ReadoutModes :: "Kit \<Rightarrow> (Camera, string list) kitM" where
  "ReadoutModes k = do {
     r \<leftarrow> readoutVec k;
     ret (case r of None \<Rightarrow> [''Default'']
       | Some v \<Rightarrow> map (\<lambda>mv. if m_Label (mv_Member mv) = [] then m_Name (mv_Member mv) else m_Label (mv_Member mv)) (v_Members v))
   }"

definition ReadoutMode :: "Kit \<Rightarrow> (Camera, int) kitM" where
  "ReadoutMode k = do {
     r \<leftarrow> readoutVec k;
     ret (case r of None \<Rightarrow> 0
       | Some v \<Rightarrow> (let i = length (takeWhile (\<lambda>mv. \<not> m_On (mv_Member mv)) (v_Members v))
           in if i < length (v_Members v) then int i else 0))
   }"

definition SetReadoutMode :: "Kit \<Rightarrow> int \<Rightarrow> (Camera, AlpacaError option) kitM" where
  "SetReadoutMode k i = do {
     r \<leftarrow> readoutVec k;
     (case r of
        None \<Rightarrow> ret (if i = 0 then None else Some (InvalidValue [Lit ''this camera has one readout mode'']))
      | Some v \<Rightarrow>
          if i < 0 \<or> int (length (v_Members v)) \<le> i then
            ret (Some (InvalidValue [Lit ''ReadoutMode '', FmtD i, Lit '' is outside 0 to '', FmtD (int (length (v_Members v)) - 1)]))
          else SendSwitch k (v_Name v) [m_Name (mv_Member (v_Members v ! nat i))] [])
   }"

definition CanFastReadout :: bool where "CanFastReadout = False"

subsection \<open>Guiding\<close>

definition CanPulseGuide :: "Kit \<Rightarrow> (Camera, bool) kitM" where "CanPulseGuide k = Has k ''TELESCOPE_TIMED_GUIDE_NS''"

definition Camera_PulseGuide :: "Kit \<Rightarrow> GuideDirection \<Rightarrow> int \<Rightarrow> (Camera, AlpacaError option) kitM" where
  "Camera_PulseGuide k dir ms =
     (case guide_member dir of (vec, mem) \<Rightarrow> do {
        r \<leftarrow> Kit_Vector k vec;
        (case r of Inl er \<Rightarrow> ret (Some er) | Inr _ \<Rightarrow> started guide_upd (SendNumber k vec [(mem, f_of_int ms)]))
      })"

definition Camera_IsPulseGuiding :: "Kit \<Rightarrow> (Camera, bool) kitM" where
  "Camera_IsPulseGuiding k = do {
     (ok, _) \<leftarrow> Avail;
     if \<not> ok then do { op_clear guide_upd; ret False }
     else do {
       a \<leftarrow> StateOf k ''TELESCOPE_TIMED_GUIDE_NS'';
       b \<leftarrow> (if a = Busy then ret Busy else StateOf k ''TELESCOPE_TIMED_GUIDE_WE'');
       if a = Busy \<or> b = Busy then ret True
       else do {
         ns \<leftarrow> UpdatedOf k ''TELESCOPE_TIMED_GUIDE_NS'';
         we \<leftarrow> UpdatedOf k ''TELESCOPE_TIMED_GUIDE_WE'';
         op_active ca_guide guide_upd (if ns < we then we else ns)
       }
     }
   }"

subsection \<open>The state list\<close>

definition exposure_status :: "Vector \<Rightarrow> (Camera, CameraStatus) kitM" where
  "exposure_status v =
     (if v_State v = Busy then ret CameraExposing
      else if v_State v = Alert then ret CameraError
      else do { b \<leftarrow> op_active ca_exposure exposure_upd (v_Updated v); ret (if b then CameraExposing else CameraIdle) })"

definition Camera_DeviceState :: "(CameraStatus \<Rightarrow> int) \<Rightarrow> Kit \<Rightarrow> (Camera, StateValue list) kitM" where
  "Camera_DeviceState code k = do {
     snap \<leftarrow> Snap;
     if \<not> s_valid snap then ret []
     else do {
       dev \<leftarrow> DeviceName k;
       d \<leftarrow> get_dev;
       let ready = (ca_frame d \<noteq> None);
       let tot = ca_expTotal d;
       exposure \<leftarrow> (case Snapshot_Vector snap dev ''CCD_EXPOSURE'' of
           None \<Rightarrow> ret []
         | Some v \<Rightarrow> do {
             st \<leftarrow> exposure_status v;
             let percent = (if ready then 100
               else if st = CameraExposing then
                 (case Vector_Member v ''CCD_EXPOSURE_VALUE'' of Some mv \<Rightarrow> percentCompleted (m_Value (mv_Member mv)) tot | None \<Rightarrow> 0)
               else 0);
             ret [VInt ''CameraState'' (code st), VBool ''ImageReady'' ready, VInt ''PercentCompleted'' percent]
           });
       let value = (\<lambda>vec elem name. case Snapshot_Vector snap dev vec of None \<Rightarrow> []
         | Some v \<Rightarrow> (case Vector_Member v elem of None \<Rightarrow> [] | Some mv \<Rightarrow> [VFloat name (m_Value (mv_Member mv))]));
       ret (exposure @ value ''CCD_TEMPERATURE'' ''CCD_TEMPERATURE_VALUE'' ''CCDTemperature'' @
         value ''CCD_COOLER_POWER'' ''CCD_COOLER_VALUE'' ''CoolerPower'')
     }
   }"

definition Camera_Validate :: "Snapshot \<Rightarrow> string \<Rightarrow> string list" where
  "Camera_Validate snap device = Validate camera_table camera_consumed snap device"

definition Camera_SupportedActions :: "Kit \<Rightarrow> (Camera, string list) kitM" where
  "Camera_SupportedActions k = Supported \<lparr>en_kit = k, en_consumed = camera_consumed\<rparr>"

definition Camera_Action ::
  "Kit \<Rightarrow> (string \<Rightarrow> string \<Rightarrow> string \<times> AlpacaError option) \<Rightarrow> string \<Rightarrow> string
    \<Rightarrow> (Camera, string \<times> AlpacaError option) kitM" where
  "Camera_Action k base name params =
     device_action \<lparr>en_kit = k, en_consumed = camera_consumed\<rparr> base name params"


subsection \<open>The state list agrees with the members\<close>

text \<open>C33: The batch of states the camera reports and its single members agree: read in one state of the
  driver, the batch holds the camera state, the readiness of the image and the percentage that the
  three members return.\<close>

theorem camera_state_agrees:
  assumes "\<And>i. e_world e i = w" "w_serving w" "serves k w ''CCD_EXPOSURE'' v" "Vector_Member v ''CCD_EXPOSURE_VALUE'' = Some mv"
  shows "take 3 (fst (run_state (Camera_DeviceState code k) e)) =
    [VInt ''CameraState'' (code (fst (run_state (CameraState k) e))),
     VBool ''ImageReady'' (fst (run_state ImageReady e)),
     VInt ''PercentCompleted'' (fst (run_state (PercentCompleted k) e))]"
proof -
  note l = serves_lookup [OF assms(3)] and r = still_reads [OF _ assms(2,3)]
  define b where "b = fst (Inflight_Active (v_Updated v) (ca_exposure (e_dev e)))"
  define st where "st = (if v_State v = Busy then CameraExposing else if v_State v = Alert then CameraError
    else if b then CameraExposing else CameraIdle)"
  have s: "\<exists>e1. run_state (CameraState k) e = (st, e1) \<and> e_world e1 = e_world e \<and> ca_expTotal (e_dev e1) = ca_expTotal (e_dev e)"
    using assms(1,2) by (auto simp: CameraState_def Avail_def r st_def b_def op_active_def exposure_upd_def split: prod.splits)
  then obtain e1 where e1: "run_state (CameraState k) e = (st, e1)" "e_world e1 = e_world e" "ca_expTotal (e_dev e1) = ca_expTotal (e_dev e)" by blast
  have x: "\<exists>e2. run_state (exposure_status v) e0 = (st, e2)" if "e_dev e0 = e_dev e" for e0 :: "Camera Env"
    using that by (auto simp: exposure_status_def st_def b_def op_active_def split: prod.splits)
  have "fst (run_state (PercentCompleted k) e) = (if ca_frame (e_dev e) \<noteq> None then 100
      else if st = CameraExposing then percentCompleted (m_Value (mv_Member mv)) (ca_expTotal (e_dev e)) else 0)"
    using e1 assms(1,4) by (simp add: PercentCompleted_def ImageReady_def cam_number_def cam_member_def r)
  moreover obtain e2 where "run_state (exposure_status v) (e\<lparr>e_clock := Suc (Suc (e_clock e))\<rparr>) = (st, e2)"
    using x [of "e\<lparr>e_clock := Suc (Suc (e_clock e))\<rparr>"] by auto
  ultimately show ?thesis
    using l assms(1,4) e1 by (simp add: Camera_DeviceState_def Snap_def DeviceName_def ImageReady_def Let_def)
qed

definition exposing_vector :: Vector where
  "exposing_vector = sample_vector ''CCD_EXPOSURE'' Busy [zero_member\<lparr>m_Name := ''CCD_EXPOSURE_VALUE'', m_Value := Fin 3\<rparr>]"

theorem camera_state_agrees_witness:
  "\<exists>e. take 3 (fst (run_state (Camera_DeviceState (\<lambda>_. 2) ''C'') e)) =
    [VInt ''CameraState'' 2, VBool ''ImageReady'' (fst (run_state ImageReady e)),
     VInt ''PercentCompleted'' (fst (run_state (PercentCompleted ''C'') e))]"
  using camera_state_agrees [OF sample_env_still, of "[(''CCD_EXPOSURE'', exposing_vector)]" "new_camera\<lparr>ca_expTotal := Fin 4\<rparr>" "''C''" exposing_vector _ "\<lambda>_. 2"]
    sample_env_serves [of "[(''CCD_EXPOSURE'', exposing_vector)]" "''CCD_EXPOSURE''" exposing_vector "new_camera\<lparr>ca_expTotal := Fin 4\<rparr>"]
    sample_vector_member [of _ _ "zero_member\<lparr>m_Name := ''CCD_EXPOSURE_VALUE'', m_Value := Fin 3\<rparr>"]
  by (auto simp: exposing_vector_def)

subsection \<open>The subframe in binned pixels\<close>

lemma toBinned_toUnbinned:
  assumes "\<bar>b * (if bin < 1 then 1 else bin)\<bar> < 2 ^ 53" shows "toBinned (toUnbinned b bin) bin = b"
proof -
  define n where "n = (if bin < 1 then 1 else bin)"
  have n: "0 < n" by (simp add: n_def)
  have "wrap64 (b * n) = b * n" using assms by (intro wrap64_id) (auto simp: n_def)
  then have "toUnbinned b bin = f_of_int (b * n)" by (simp add: toUnbinned_def n_def Let_def)
  moreover have "f_int (f_of_int (b * n)) = b * n"
  proof -
    have small: "\<bar>b * n\<bar> < 2 ^ 53" using assms by (simp add: n_def)
    then have "f_of_int (b * n) = Fin (of_int (b * n))" unfolding f_of_int_def by (rule rnd_of_int)
    moreover have "fits64 (b * n)" using small by (auto simp: fits64_def)
    ultimately show ?thesis by (simp only: f_int_of_int)
  qed
  moreover have "go_quot (b * n) n = b" using n by (simp add: go_quot_def trunc_def)
  ultimately show ?thesis by (simp add: toBinned_def n_def Let_def)
qed


lemma sent_subframe:
  assumes "run_state (setFrame k elem b bin) e = (None, e1)"
  shows "\<exists>dev vals. e_sent e1 = e_sent e @ [CNumber dev ''CCD_FRAME'' (AList.update elem (toUnbinned b bin) vals)]"
proof -
  obtain r e0 where r: "run_state (Kit_Vector k ''CCD_FRAME'') e = (r, e0)" by fastforce
  then have "e_sent e0 = e_sent e" using readsD [OF reads_kit(6)] by blast
  with assms r show ?thesis
    by (auto simp: setFrame_def Let_def run_send split: sum.splits if_splits option.splits)
qed

lemma reads_binOf: "reads (binOf k elem)"
  unfolding binOf_def cam_number_def cam_member_def by (intro step_intros)

lemma binning_stands:
  assumes "\<And>i. e_world e i = w" "\<And>i. e_world e' i = w"
  shows "fst (run_state (binOf k elem) e) = fst (run_state (binOf k elem) e')"
  using assms by (simp add: binOf_def cam_number_def cam_member_def Kit_Vector_def run_kit_vector Let_def split: prod.splits)

text \<open>C32: A subframe survives the conversion to the driver's unbinned pixels and back: after a width was
  set and the driver shows the value it was sent, with the binning in force unchanged, the width that
  is read is the width that was set, as long as its unbinned size is below two to the fifty-third.\<close>

theorem subframe_roundtrip:
  assumes "run_state (SetNumX k b) e = (None, e1)" "e_sent e1 = e_sent e @ [CNumber dev ''CCD_FRAME'' vals]"
    "\<And>i. e_world e2 i = w2" "w_serving w2" "serves k w2 ''CCD_FRAME'' v2" "Vector_Member v2 ''WIDTH'' = Some mv"
    "map_of vals ''WIDTH'' = Some (m_Value (mv_Member mv))"
    "fst (run_state (BinX k) e2) = fst (run_state (BinX k) e)" "\<bar>b * max 1 (fst (run_state (BinX k) e))\<bar> < 2 ^ 53"
  shows "fst (run_state (NumX k) e2) = b"
proof -
  obtain bin e0 where bin: "run_state (BinX k) e = (bin, e0)" by fastforce
  have "e_sent e0 = e_sent e" using bin readsD [OF reads_binOf] by (auto simp: BinX_def)
  moreover obtain dev' vals' where "e_sent e1 = e_sent e0 @ [CNumber dev' ''CCD_FRAME'' (AList.update ''WIDTH'' (toUnbinned b bin) vals')]"
    using assms(1) sent_subframe bin by (fastforce simp: SetNumX_def)
  ultimately have "m_Value (mv_Member mv) = toUnbinned b bin" using assms(2,7) by auto
  moreover have "fst (run_state (BinX k) (e2\<lparr>e_clock := c\<rparr>)) = bin" for c
    using binning_stands [of "e2\<lparr>e_clock := c\<rparr>" w2 e2] assms(3,8) bin by (simp add: BinX_def)
  moreover have "\<bar>b * (if bin < 1 then 1 else bin)\<bar> < 2 ^ 53" using assms(9) bin by (auto simp: max_def split: if_splits)
  ultimately show ?thesis
    using still_reads(3) [OF assms(3-5)] assms(6)
    by (simp add: NumX_def frame_part_def cam_number_def cam_member_def toBinned_toUnbinned case_prod_unfold)
qed


theorem subframe_roundtrip_witness:
  "\<exists>e e2. e_sent (snd (run_state (SetNumX ''C'' 100) e)) = [CNumber ''C'' ''CCD_FRAME'' [(''WIDTH'', Fin 100)]] \<and>
     fst (run_state (NumX ''C'') e2) = 100"
proof -
  let ?v = "\<lambda>n. sample_vector ''CCD_FRAME'' Ok [zero_member\<lparr>m_Name := ''WIDTH'', m_Value := Fin n\<rparr>]"
  let ?e = "\<lambda>n. sample_env [(''CCD_FRAME'', ?v n)] new_camera"
  have s: "serves ''C'' (e_world (?e n) i) ''CCD_FRAME'' (?v n)" for n i by (simp add: sample_env_serves)
  have m: "Vector_Member (?v n) ''WIDTH'' = Some \<lparr>mv_Member = zero_member\<lparr>m_Name := ''WIDTH'', m_Value := Fin n\<rparr>, mv_Arrived = 5\<rparr>" for n
    using sample_vector_member [of _ _ "zero_member\<lparr>m_Name := ''WIDTH'', m_Value := Fin n\<rparr>"] by (simp add: zero_member_def)
  have bin: "run_state (BinX ''C'') (?e n) = (1, (?e n)\<lparr>e_clock := 2\<rparr>)" for n
    by (simp add: BinX_def binOf_def cam_number_def cam_member_def Kit_Vector_def run_kit_vector sample_env_def
        Snapshot_Vector_def props_of_def kit_name_def Let_def f_le_def)
  have ok: "fst (run_state (SetNumX ''C'' 100) (?e 7)) = None" by code_simp
  have sent: "e_sent (snd (run_state (SetNumX ''C'' 100) (?e 7))) = [CNumber ''C'' ''CCD_FRAME'' [(''WIDTH'', Fin 100)]]" by code_simp
  have set: "run_state (SetNumX ''C'' 100) (?e 7) = (None, snd (run_state (SetNumX ''C'' 100) (?e 7)))"
    using ok by (metis prod.collapse)
  have "fst (run_state (NumX ''C'') (?e 100)) = 100"
    by (rule subframe_roundtrip [OF set _ sample_env_still _ s m, where vals = "[(''WIDTH'', Fin 100)]"]) (simp_all add: sent bin)
  with sent show ?thesis by blast
qed


subsection \<open>Where an image comes from\<close>

text \<open>The frame a payload makes, if it makes one.\<close>

definition blob_frame :: "(string \<Rightarrow> zlib_stream) \<Rightarrow> string \<Rightarrow> string \<Rightarrow> string \<Rightarrow> string \<Rightarrow> ImageFrame option" where
  "blob_frame zlib spare vec format data = Option.bind (IngestBlob zlib spare vec format data new_camera) ca_frame"

lemma IngestBlob_frame:
  assumes "IngestBlob zlib spare vec format data c = Some c'"
  shows "ca_frame c' = (case blob_frame zlib spare vec format data of Some fr \<Rightarrow> Some fr | None \<Rightarrow> ca_frame c)"
proof -
  have f: "ca_frame d' = (case Option.bind (ingest_fits spare low format p new_camera) ca_frame of Some fr \<Rightarrow> Some fr | None \<Rightarrow> ca_frame d)"
    if "ingest_fits spare low format p d = Some d'" for low p d d'
    using that by (auto simp: ingest_fits_def new_camera_def split: if_splits transcoded.splits)
  show ?thesis
    using assms f by (auto simp: IngestBlob_def blob_frame_def Let_def new_camera_def split: if_splits sum.splits)
qed

text \<open>A session of a camera: requests, and the BLOBs the host hands over, in any order.\<close>

datatype camera_op =
    DoStart f64 bool
  | DoAbort
  | DoIngest string string string string \<comment> \<open>property, format, payload, and what lies behind it in memory\<close>
  | DoState | DoPercent | DoGuide GuideDirection int | DoCool f64

fun camera_do :: "(string \<Rightarrow> zlib_stream) \<Rightarrow> Kit \<Rightarrow> camera_op \<Rightarrow> Camera Env \<Rightarrow> (AlpacaError option \<times> Camera Env) option" where
  "camera_do zlib k (DoStart x light) e = Some (run_state (StartExposure k x light) e)"
| "camera_do zlib k DoAbort e = Some (run_state (AbortExposure k) e)"
| "camera_do zlib k (DoIngest vec format data spare) e =
     map_option (\<lambda>d. (None, e\<lparr>e_dev := d\<rparr>)) (IngestBlob zlib spare vec format data (e_dev e))"
| "camera_do zlib k DoState e = Some (None, snd (run_state (CameraState k) e))"
| "camera_do zlib k DoPercent e = Some (None, snd (run_state (PercentCompleted k) e))"
| "camera_do zlib k (DoGuide dir ms) e = Some (run_state (Camera_PulseGuide k dir ms) e)"
| "camera_do zlib k (DoCool x) e = Some (run_state (SetSetCCDTemperature k x) e)"

text \<open>The trace pairs each step with its result; a panic ends the session without one.\<close>

inductive camera_session :: "(string \<Rightarrow> zlib_stream) \<Rightarrow> Kit \<Rightarrow> Camera Env \<Rightarrow> (camera_op \<times> AlpacaError option) list \<Rightarrow> Camera Env \<Rightarrow> bool"
  for zlib k e where
  begins: "e_dev e = new_camera \<Longrightarrow> camera_session zlib k e [] e"
| does: "\<lbrakk>camera_session zlib k e tr e1; camera_do zlib k op e1 = Some (r, e2)\<rbrakk> \<Longrightarrow> camera_session zlib k e (tr @ [(op, r)]) e2"

text \<open>What takes an image away: an abort, and a started exposure.\<close>

fun discards :: "camera_op \<times> AlpacaError option \<Rightarrow> bool" where
  "discards (DoStart x light, r) = (r = None)"
| "discards (DoAbort, r) = True"
| "discards _ = False"

fun makes :: "(string \<Rightarrow> zlib_stream) \<Rightarrow> camera_op \<times> AlpacaError option \<Rightarrow> ImageFrame option" where
  "makes zlib (DoIngest vec format data spare, r) = blob_frame zlib spare vec format data"
| "makes zlib _ = None"

lemma frame_kept:
  assumes "reads m" "run_state m e = (x, e')" shows "ca_frame (e_dev e') = ca_frame (e_dev e)"
  using readsD [OF assms] by simp

definition keeps_frame :: "(Camera, 'a) kitM \<Rightarrow> bool" where
  "keeps_frame m \<longleftrightarrow> (\<forall>e. ca_frame (e_dev (snd (run_state m e))) = ca_frame (e_dev e))"

named_theorems frame_intros \<open>steps that leave the image alone\<close>

lemma keeps_frame_bind [frame_intros]: "keeps_frame m \<Longrightarrow> (\<And>x. keeps_frame (f x)) \<Longrightarrow> keeps_frame (m \<bind> f)"
  unfolding keeps_frame_def by (auto split: prod.splits) (metis snd_conv)

lemma keeps_frame_sends: "sends m \<Longrightarrow> keeps_frame m"
  unfolding keeps_frame_def sends_def Let_def by metis

lemma keeps_frame_prims [frame_intros]:
  "keeps_frame (ret x)" "keeps_frame get_dev" "(\<And>d. ca_frame (f d) = ca_frame d) \<Longrightarrow> keeps_frame (upd_dev f)"
  by (simp_all add: keeps_frame_def)

lemma keeps_frame_kit [frame_intros]:
  "keeps_frame Avail" "keeps_frame Now" "keeps_frame (StateOf k vec)" "keeps_frame (UpdatedOf k vec)" "keeps_frame (Kit_Vector k vec)"
  "keeps_frame (SendNumber k vec v)" "keeps_frame (WriteNumber k tbl mem x)" "keeps_frame (SendSwitch k vec on off)"
  "keeps_frame (WriteSwitch k tbl mem)" "keeps_frame (Has k vec)"
  by (intro keeps_frame_sends reads_sends step_intros sends_kit; fail)+

lemma keeps_frame_ops [frame_intros]:
  assumes "\<And>f d. ca_frame (upd f d) = ca_frame d"
  shows "keeps_frame (op_start upd)" "keeps_frame (op_clear upd)" "keeps_frame (op_active get upd u)"
    "keeps_frame send \<Longrightarrow> keeps_frame (started upd send)"
proof -
  show s: "keeps_frame (op_start upd)" "keeps_frame (op_clear upd)"
    unfolding op_start_def op_clear_def using assms by (intro frame_intros; simp)+
  show "keeps_frame (op_active get upd u)"
    unfolding op_active_def using assms by (auto intro!: frame_intros split: prod.splits)
  show "keeps_frame send \<Longrightarrow> keeps_frame (started upd send)"
    unfolding started_def using s by (auto intro!: frame_intros split: option.splits)
qed

lemma upd_keep_frame [simp]: "ca_frame (exposure_upd f d) = ca_frame d" "ca_frame (guide_upd f d) = ca_frame d"
  by (simp_all add: exposure_upd_def guide_upd_def)

lemma keeps_frame_members:
  "keeps_frame (CameraState k)" "keeps_frame (PercentCompleted k)" "keeps_frame (Camera_PulseGuide k dir ms)"
  "keeps_frame (SetSetCCDTemperature k x)"
proof -
  show c: "keeps_frame (CameraState k)" for k
    unfolding CameraState_def by (auto intro!: frame_intros split: prod.splits)
  show "keeps_frame (PercentCompleted k)"
    unfolding PercentCompleted_def ImageReady_def cam_number_def cam_member_def by (auto intro!: frame_intros c split: option.splits)
  show "keeps_frame (Camera_PulseGuide k dir ms)"
    unfolding Camera_PulseGuide_def by (auto intro!: frame_intros split: prod.splits sum.splits)
  show "keeps_frame (SetSetCCDTemperature k x)"
    unfolding SetSetCCDTemperature_def by (auto intro!: frame_intros split: option.splits)
qed


lemma keepsD: "keeps_frame m \<Longrightarrow> run_state m e = (x, e') \<Longrightarrow> ca_frame (e_dev e') = ca_frame (e_dev e)"
  by (metis keeps_frame_def snd_conv)

lemma start_frame:
  assumes "run_state (StartExposure k x light) e = (r, e')"
  shows "ca_frame (e_dev e') = None \<or> r \<noteq> None \<and> ca_frame (e_dev e') = ca_frame (e_dev e)"
proof -
  have kt: "keeps_frame (send_frame_type k light)" unfolding send_frame_type_def by (auto intro!: frame_intros)
  have kr: "keeps_frame (send_exposure k x)" unfolding send_exposure_def by (auto intro!: frame_intros split: option.splits)
  obtain t e1 where t: "run_state (send_frame_type k light) (e\<lparr>e_clock := Suc (e_clock e)\<rparr>) = (t, e1)" by fastforce
  obtain r' e2 where r': "run_state (send_exposure k x) (e1\<lparr>e_dev := forget_frame (e_dev e1)\<rparr>) = (r', e2)" by fastforce
  have "ca_frame (e_dev e1) = ca_frame (e_dev e)" "ca_frame (e_dev e2) = None"
    using keepsD [OF kt t] keepsD [OF kr r'] by (simp_all add: forget_frame_def)
  then show ?thesis
    using assms t r' by (auto simp: StartExposure_def Avail_def split: if_splits option.splits)
qed

lemma abort_frame: "ca_frame (e_dev (snd (run_state (AbortExposure k) e))) = None"
proof -
  have "keeps_frame (WriteSwitch k camera_table ''AbortExposure'')" by (rule keeps_frame_kit)
  then show ?thesis by (simp add: AbortExposure_def op_clear_def keeps_frame_def forget_frame_def)
qed

lemma camera_do_frame:
  assumes "camera_do zlib k op e = Some (r, e')" "ca_frame (e_dev e') = Some fr"
  shows "makes zlib (op, r) = Some fr \<or>
    makes zlib (op, r) = None \<and> \<not> discards (op, r) \<and> ca_frame (e_dev e) = Some fr"
proof (cases op)
  case (DoStart x light)
  then show ?thesis using assms start_frame [of k x light e r e'] by auto
next
  case DoAbort
  then show ?thesis using assms abort_frame [of k e] by auto
next
  case (DoIngest vec format data spare)
  then show ?thesis using assms IngestBlob_frame by (fastforce split: option.splits)
next
  case DoState
  then show ?thesis using assms keeps_frame_members(1) [of k] by (auto simp: keeps_frame_def)
next
  case DoPercent
  then show ?thesis using assms keeps_frame_members(2) [of k] by (auto simp: keeps_frame_def)
next
  case (DoGuide dir ms)
  then show ?thesis using assms keepsD [OF keeps_frame_members(3)] by simp
next
  case (DoCool x)
  then show ?thesis using assms keepsD [OF keeps_frame_members(4)] by simp
qed



text \<open>A refused exposure loses the image there is: the frame type is sent and the image dropped before
  the duration is checked, so that a duration outside the range the driver declared is refused with a
  command sent and the image gone.\<close>

theorem refused_exposure_loses_image:
  assumes "\<And>i. e_world e i = w" "w_serving w" "w_send w = None" "serves k w ''CCD_FRAME_TYPE'' ft"
    "serves k w ''CCD_EXPOSURE'' v" "Vector_Member v ''CCD_EXPOSURE_VALUE'' = Some mv" "out_of_range (mv_Member mv) x"
  shows "\<exists>er e'. run_state (StartExposure k x light) e = (Some er, e') \<and> ErrNumber er = ErrNumInvalidValue \<and>
    e_sent e' = e_sent e @ [CSwitch (kit_name k (w_snap w)) ''CCD_FRAME_TYPE'' [if light then ''FRAME_LIGHT'' else ''FRAME_DARK''] []] \<and>
    fst (run_state ImageReady e') = False"
  using assms
  by (simp add: StartExposure_def send_frame_type_def send_exposure_def Avail_def Has_def kit_lookup_def Snap_def serves_def run_send started_run WriteNumber_def
      mapped_def camera_table_def run_kit_vector Let_def range_error_def InvalidValue_def ImageReady_def forget_frame_def exposure_upd_def)


theorem refused_exposure_loses_image_witness:
  "\<exists>e er e'. run_state (StartExposure ''C'' (Fin 50) True) e = (Some er, e') \<and> ErrNumber er = ErrNumInvalidValue \<and> length (e_sent e') = 1"
proof -
  let ?m = "zero_member\<lparr>m_Name := ''CCD_EXPOSURE_VALUE'', m_HasRange := True, m_Max := Fin 10\<rparr>"
  let ?vs = "[(''CCD_FRAME_TYPE'', sample_vector ''CCD_FRAME_TYPE'' Ok []), (''CCD_EXPOSURE'', sample_vector ''CCD_EXPOSURE'' Ok [?m])]"
  let ?e = "sample_env ?vs new_camera"
  have s: "serves ''C'' (e_world ?e i) ''CCD_FRAME_TYPE'' (sample_vector ''CCD_FRAME_TYPE'' Ok [])"
    "serves ''C'' (e_world ?e i) ''CCD_EXPOSURE'' (sample_vector ''CCD_EXPOSURE'' Ok [?m])" for i
    by (simp_all add: sample_env_serves)
  have "w_send (e_world ?e 0) = None" by (simp add: sample_env_def)
  from refused_exposure_loses_image [OF sample_env_still _ this s, of "\<lparr>mv_Member = ?m, mv_Arrived = 5\<rparr>" "Fin 50" True]
  show ?thesis using sample_vector_member [of "''CCD_EXPOSURE''" Ok ?m] by (fastforce simp: out_of_range_def zero_member_def)
qed

end
