(* ===== verification/Device_Telescope.thy ===== *)
theory Device_Telescope
  imports Device_Base
begin

text \<open>
  The telescope (\<^verbatim>\<open>internal/devtype/telescope\<close>): slews, syncs, park, home, tracking, guiding, manual
  motion, the site and the clock. It keeps the tel_targets, the settle time, which axes it set moving, and
  four in-flight bits: slew, guide, park and home.

  Goalpaca's enumerations are datatypes with the names the source uses; an argument that is none of
  the named values is \<open>OtherAxis\<close> or \<open>OtherDrive\<close>. \<^verbatim>\<open>base\<close> stands for what \<^verbatim>\<open>server.BaseTelescope\<close> answers.
  Sleeping lets time pass: it is one observation of the world. The wait after a sync polls until a
  deadline; as the clock of the world is arbitrary, the loop takes fuel, and \<open>sync_returns\<close> below shows
  that enough fuel ends it once the clock passes the deadline.
\<close>

subsection \<open>The table\<close>

text \<open>Characters outside ASCII.\<close>

abbreviation PLUSMINUS :: string where "PLUSMINUS \<equiv> [CHR 0xC2, CHR 0xB1]"
abbreviation DEGREE :: string where "DEGREE \<equiv> [CHR 0xC2, CHR 0xB0]"
abbreviation SQUARED :: string where "SQUARED \<equiv> [CHR 0xC2, CHR 0xB2]"
abbreviation SMALL_PI :: string where "SMALL_PI \<equiv> [CHR 0xCF, CHR 0x80]"
abbreviation ENDASH :: string where "ENDASH \<equiv> [CHR 0xE2, CHR 0x80, CHR 0x93]"
abbreviation RARROW :: string where "RARROW \<equiv> [CHR 0xE2, CHR 0x86, CHR 0x92]"
abbreviation LRARROW :: string where "LRARROW \<equiv> [CHR 0xE2, CHR 0x86, CHR 0x94]"

definition telescope_table :: Table where
  "telescope_table =
    [(''RightAscension'', row Mapped ''EQUATORIAL_EOD_COORD'' ''RA'' [] []),
     (''Declination'', row Mapped ''EQUATORIAL_EOD_COORD'' ''DEC'' [] []),
     (''Altitude'', row Mapped ''HORIZONTAL_COORD'' ''ALT'' [] []),
     (''Azimuth'', row Mapped ''HORIZONTAL_COORD'' ''AZ'' [] []),
     (''TargetRightAscension'', row Synthesised [] [] [] (''bridge-held; INDI TARGET_EOD_COORD is driver-internal '' @ EMDASH @ '' goalpaca enforces read-before-set'')),
     (''TargetDeclination'', row Synthesised [] [] [] ''bridge-held, as TargetRightAscension''),
     (''EquatorialSystem'', row Derived [] [] [] ''EQUATORIAL_EOD_COORD is JNow/topocentric by definition; report equTopocentric, never convert''),
     (''SlewToCoordinates'', row Func [] [] ''slewSync'' ''mode TRACK, then EQUATORIAL_EOD_COORD write, then fenced settle (blocking form)''),
     (''SlewToCoordinatesAsync'', row Func [] [] ''slewAsync'' ''mode TRACK, then coordinates; Slewing is the completion''),
     (''SlewToTarget'', row Func [] [] ''SlewToTarget'' ''retained tel_targets use the TRACK-mode slew sequence''),
     (''SlewToTargetAsync'', row Func [] [] ''SlewToTargetAsync'' []),
     (''SlewToAltAz'', row Func [] [] ''SlewToAltAz'' ''HORIZONTAL_COORD write where IP_RW; gated by CanSlewAltAz''),
     (''SlewToAltAzAsync'', row Func [] [] ''slewAltAzAsync'' []),
     (''SyncToCoordinates'', row Func [] [] ''syncCoords'' ''mode SYNC, then coordinates''),
     (''SyncToTarget'', row Func [] [] ''SyncToTarget'' []),
     (''SyncToAltAz'', row Absent [] [] [] ''no INDI alt/az sync path; CanSyncAltAz is false''),
     (''Slewing'', row Derived [] [] [] ''coordinate, park, or home Busy state, or a pending bridge motion command''),
     (''AbortSlew'', row Mapped ''TELESCOPE_ABORT_MOTION'' ''ABORT'' [] []),
     (''DestinationSideOfPier'', row Absent [] [] [] ''no mapping for the mount-specific meridian-flip model''),
     (''AtPark'', row Derived [] [] [] ''TELESCOPE_PARK.PARK On, vector not Busy, no unacknowledged park/unpark send''),
     (''Park'', row Func [] [] ''park'' ''PARK switch, non-blocking (ITelescopeV4 initiator; goalpaca server/telescope.go)''),
     (''Unpark'', row Func [] [] ''park'' []),
     (''SetPark'', row Mapped ''TELESCOPE_PARK_OPTION'' ''PARK_CURRENT'' [] []),
     (''AtHome'', row Derived [] [] [] ''TELESCOPE_HOME state Ok with no unacknowledged FindHome send; false where undefined''),
     (''FindHome'', row Func [] [] ''findHome'' ''TELESCOPE_HOME where defined (member names vary; first switch member), non-blocking''),
     (''Tracking'', row Derived [] [] [] ''TELESCOPE_TRACK_STATE.TRACK_ON; SetTracking writes TRACK_ON/TRACK_OFF''),
     (''TrackingRate'', row Func [] [] ''TrackingRate'' (''TELESCOPE_TRACK_MODE switches '' @ LRARROW @ '' DriveRate; TRACK_CUSTOM has no ASCOM value'')),
     (''TrackingRates'', row Derived [] [] [] ''the sidereal/lunar/solar members TELESCOPE_TRACK_MODE actually offers''),
     (''RightAscensionRate'', row Func [] [] ''RightAscensionRate'' (''TELESCOPE_TRACK_RATE.TRACK_RATE_RA, absolute arcsec/SI-s '' @ LRARROW @ '' offset seconds-of-RA per sidereal second'')),
     (''DeclinationRate'', row Func [] [] ''DeclinationRate'' ''TRACK_RATE_DE; offset and absolute coincide at 0''),
     (''PulseGuide'', row Func [] [] ''PulseGuide'' ''TELESCOPE_TIMED_GUIDE_NS/_WE, milliseconds''),
     (''IsPulseGuiding'', row Derived [] [] [] ''either timed-guide vector Busy OR bridge in-flight''),
     (''GuideRateRightAscension'', row Mapped ''GUIDE_RATE'' ''GUIDE_RATE_WE'' [] (TIMES @ ''sidereal both sides; discovered-standard (not imposed by INDI::Telescope)'')),
     (''GuideRateDeclination'', row Mapped ''GUIDE_RATE'' ''GUIDE_RATE_NS'' [] []),
     (''MoveAxis'', row Func [] [] ''MoveAxis'' ''direction switches use the current INDI slew rate; zero sends explicit Off''),
     (''AxisRates'', row Derived [] [] [] (''one degenerate range per movable axis '' @ EMDASH @ '' INDI's TELESCOPE_SLEW_RATE is discrete and unit-less'')),
     (''CanMoveAxis'', row Derived [] [] [] ''presence of TELESCOPE_MOTION_NS/_WE per axis; tertiary always false''),
     (''SiteLatitude'', row Func ''GEOGRAPHIC_COORD'' ''LAT'' ''SetSiteLatitude'' ''complete-vector write''),
     (''SiteLongitude'', row Func ''GEOGRAPHIC_COORD'' ''LONG'' ''SiteLongitude'' (''0'' @ ENDASH @ ''360'' @ DEGREE @ ''E '' @ LRARROW @ '' '' @ PLUSMINUS @ ''180'' @ DEGREE @ ''; complete-vector write'')),
     (''SiteElevation'', row Func ''GEOGRAPHIC_COORD'' ''ELEV'' ''SetSiteElevation'' ''complete-vector write''),
     (''UTCDate'', row Func [] [] ''UTCDate'' ''TIME_UTC.UTC or the host clock; writes include OFFSET''),
     (''SiderealTime'', row Synthesised [] [] [] ''LST from site longitude + clock; INDI does not publish it''),
     (''AlignmentMode'', row Derived [] [] [] ''TELESCOPE_MOUNT_TYPE; defaults to GermanPolar when absent''),
     (''SideOfPier'', row Derived [] [] [] (''TELESCOPE_PIER_SIDE: EAST/WEST/neither '' @ RARROW @ '' PierEast/PierWest/PierUnknown(-1), a direct three-value map'')),
     (''ApertureDiameter'', row Func ''TELESCOPE_INFO'' ''TELESCOPE_APERTURE'' ''ApertureDiameter'' (''mm '' @ RARROW @ '' m'')),
     (''ApertureArea'', row Synthesised [] [] [] (SMALL_PI @ ''r'' @ SQUARED @ '' from ApertureDiameter'')),
     (''FocalLength'', row Func ''TELESCOPE_INFO'' ''TELESCOPE_FOCAL_LENGTH'' ''FocalLength'' (''mm '' @ RARROW @ '' m'')),
     (''DoesRefraction'', row Absent [] [] [] ''INDI has no refraction-model flag''),
     (''SlewSettleTime'', row Synthesised [] [] [] (''bridge-held, default 0 '' @ EMDASH @ '' ASCOM lets the driver store it'')),
     (''CanFindHome'', row Derived [] [] [] ''TELESCOPE_HOME defined''),
     (''CanPark'', row Derived [] [] [] ''TELESCOPE_PARK defined''),
     (''CanUnpark'', row Derived [] [] [] ''TELESCOPE_PARK defined''),
     (''CanSetPark'', row Derived [] [] [] ''TELESCOPE_PARK_OPTION defined''),
     (''CanPulseGuide'', row Derived [] [] [] ''TELESCOPE_TIMED_GUIDE_NS defined''),
     (''CanSetGuideRates'', row Derived [] [] [] ''GUIDE_RATE defined and rw''),
     (''CanSetPierSide'', row Derived [] [] [] (''TELESCOPE_PIER_SIDE rw '' @ EMDASH @ '' ro on most mounts; never force a flip'')),
     (''CanSetRightAscensionRate'', row Derived [] [] [] ''TELESCOPE_TRACK_RATE rw''),
     (''CanSetDeclinationRate'', row Derived [] [] [] ''TELESCOPE_TRACK_RATE rw''),
     (''CanSetTracking'', row Derived [] [] [] ''TELESCOPE_TRACK_STATE rw''),
     (''CanSlew'', row Derived [] [] [] ''EQUATORIAL_EOD_COORD rw''),
     (''CanSlewAsync'', row Derived [] [] [] (''as CanSlew '' @ EMDASH @ '' INDI slews are inherently async'')),
     (''CanSlewAltAz'', row Derived [] [] [] ''HORIZONTAL_COORD rw (ro on most)''),
     (''CanSlewAltAzAsync'', row Derived [] [] [] ''as CanSlewAltAz''),
     (''CanSync'', row Derived [] [] [] ''ON_COORD_SET offers SYNC''),
     (''CanSyncAltAz'', row Derived [] [] [] (''no INDI alt/az sync '' @ EMDASH @ '' false''))]"

definition telescope_consumed :: "string \<Rightarrow> bool" where
  "telescope_consumed = Consumed telescope_table
    [''ON_COORD_SET'', ''TELESCOPE_PARK'', ''TELESCOPE_HOME'', ''TELESCOPE_TRACK_MODE'', ''TELESCOPE_TRACK_RATE'',
     ''TELESCOPE_TRACK_STATE'', ''TELESCOPE_TIMED_GUIDE_NS'', ''TELESCOPE_TIMED_GUIDE_WE'', ''TELESCOPE_MOTION_NS'',
     ''TELESCOPE_MOTION_WE'', ''TIME_UTC'', ''TELESCOPE_PIER_SIDE'', ''TELESCOPE_MOUNT_TYPE'']"

subsection \<open>Conversions\<close>

text \<open>The constants are exact and become \<^verbatim>\<open>float64\<close> where they are used.\<close>

definition stellarDaySec :: rat where "stellarDaySec = 86164098903691 / 10 ^ 9"

definition trackrateSidereal :: f64 where "trackrateSidereal = rnd (360 * 3600 / stellarDaySec)"

definition siPerSiderealSec :: f64 where "siPerSiderealSec = rnd (stellarDaySec / 86400)"

definition longitudeToASCOM :: "f64 \<Rightarrow> f64" where
  "longitudeToASCOM l = (if f_lt (Fin 180) l then f_sub l (Fin 360) else l)"

definition longitudeToINDI :: "f64 \<Rightarrow> f64" where
  "longitudeToINDI l = (if f_lt l (Fin 0) then f_add l (Fin 360) else l)"

definition raRateToASCOM :: "f64 \<Rightarrow> f64" where
  "raRateToASCOM indiArcsecPerSec = f_mul (f_div (f_sub indiArcsecPerSec trackrateSidereal) (Fin 15)) siPerSiderealSec"

definition raRateToINDI :: "f64 \<Rightarrow> f64" where
  "raRateToINDI ascom = f_add (f_mul (f_div ascom siPerSiderealSec) (Fin 15)) trackrateSidereal"

definition decRateToASCOM :: "f64 \<Rightarrow> f64" where "decRateToASCOM indi = indi"
definition decRateToINDI :: "f64 \<Rightarrow> f64" where "decRateToINDI ascom = ascom"

text \<open>\<^verbatim>\<open>Unix\<close> counts the seconds since 1970.\<close>

definition siderealTime :: "f64 \<Rightarrow> gotime \<Rightarrow> f64" where
  "siderealTime longitudeDeg now =
     (let jd = f_add (f_div (f_of_int (seconds now - 62135596800)) (Fin 86400)) (Fin (4881175 / 2));
          d = f_sub jd (Fin 2451545);
          gmst = f_add (rnd (18697374558 / 10 ^ 9)) (f_mul (rnd (2406570982441908 / 10 ^ 14)) d);
          lst = f_modc (f_add gmst (f_div longitudeDeg (Fin 15))) 24
      in if f_lt lst (Fin 0) then f_add lst (Fin 24) else lst)"

definition utcLayouts :: "suffix list" where
  \<comment> \<open>the layouts differ in what follows the seconds only\<close>
  "utcLayouts = [MillisZ, PlainZ, Zoned, Bare]"

fun first_parse :: "suffix list \<Rightarrow> string \<Rightarrow> gotime option" where
  "first_parse [] s = None"
| "first_parse (l # ls) s = (case parse_time l s of Some t \<Rightarrow> Some t | None \<Rightarrow> first_parse ls s)"

definition parseUTC :: "string \<Rightarrow> gotime option" where
  "parseUTC s = first_parse utcLayouts s"

definition utcToASCOM :: "string \<Rightarrow> string option" where
  "utcToASCOM indi = map_option format_utc_ms (parseUTC indi)"

definition utcToINDI :: "string \<Rightarrow> string option" where
  "utcToINDI ascom = map_option format_utc (parseUTC ascom)"

definition mmToM :: "f64 \<Rightarrow> f64" where "mmToM mm = f_div mm (Fin 1000)"

definition math_Pi :: f64 where
  "math_Pi = rnd (314159265358979323846264338327950288419716939937510582097494459 / 10 ^ 62)"

definition apertureArea :: "f64 \<Rightarrow> f64" where
  "apertureArea diaM = f_mul (f_mul math_Pi (f_div diaM (Fin 2))) (f_div diaM (Fin 2))"

fun f_abs :: "f64 \<Rightarrow> f64" where
  "f_abs (Fin a) = Fin \<bar>a\<bar>"
| "f_abs (FInf s) = FInf False"
| "f_abs NaN = NaN"

subsection \<open>The device\<close>

record Telescope =
  te_targetRA :: f64
  te_targetRASet :: bool
  te_targetDec :: f64
  te_targetDecSet :: bool
  te_settleTime :: int
  te_axisMoving :: "bool \<times> bool"
  te_slew :: Inflight
  te_guide :: Inflight
  te_parkOp :: Inflight
  te_home :: Inflight

definition new_telescope :: Telescope where
  "new_telescope = (let i = \<lparr>i_at = 0, i_active = False\<rparr> in
     \<lparr>te_targetRA = Fin 0, te_targetRASet = False, te_targetDec = Fin 0, te_targetDecSet = False, te_settleTime = 0,
      te_axisMoving = (False, False), te_slew = i, te_guide = i, te_parkOp = i, te_home = i\<rparr>)"

definition slew_upd :: "Telescope setter" where "slew_upd f d = d\<lparr>te_slew := f (te_slew d)\<rparr>"
definition te_guide_upd :: "Telescope setter" where "te_guide_upd f d = d\<lparr>te_guide := f (te_guide d)\<rparr>"
definition parkOp_upd :: "Telescope setter" where "parkOp_upd f d = d\<lparr>te_parkOp := f (te_parkOp d)\<rparr>"
definition home_upd :: "Telescope setter" where "home_upd f d = d\<lparr>te_home := f (te_home d)\<rparr>"

interpretation te_sl: inflight_bit te_slew slew_upd by unfold_locales (simp add: slew_upd_def)
interpretation te_gd: inflight_bit te_guide te_guide_upd by unfold_locales (simp add: te_guide_upd_def)
interpretation te_pk: inflight_bit te_parkOp parkOp_upd by unfold_locales (simp add: parkOp_upd_def)
interpretation te_hm: inflight_bit te_home home_upd by unfold_locales (simp add: home_upd_def)

definition Telescope_Connecting :: "bool \<Rightarrow> (Telescope, bool) kitM" where
  "Telescope_Connecting base = (if base then ret True else do { (ok, _) \<leftarrow> Avail; ret (\<not> ok) })"

definition tel_member :: "Kit \<Rightarrow> string \<Rightarrow> string \<Rightarrow> (Telescope, Member option) kitM" where
  "tel_member k vec elem = do {
     r \<leftarrow> Kit_Vector k vec;
     ret (case r of Inl _ \<Rightarrow> None | Inr v \<Rightarrow> map_option mv_Member (Vector_Member v elem))
   }"

definition tel_number :: "Kit \<Rightarrow> string \<Rightarrow> string \<Rightarrow> (Telescope, f64) kitM" where
  "tel_number k vec elem = do { m \<leftarrow> tel_member k vec elem; ret (case m of Some m \<Rightarrow> m_Value m | None \<Rightarrow> Fin 0) }"

definition tel_switchOn :: "Kit \<Rightarrow> string \<Rightarrow> string \<Rightarrow> (Telescope, bool) kitM" where
  "tel_switchOn k vec elem = do { m \<leftarrow> tel_member k vec elem; ret (case m of Some m \<Rightarrow> m_On m | None \<Rightarrow> False) }"

definition tel_writable :: "Kit \<Rightarrow> string \<Rightarrow> (Telescope, bool) kitM" where
  "tel_writable k vec = do { r \<leftarrow> Kit_Vector k vec; ret (case r of Inl _ \<Rightarrow> False | Inr v \<Rightarrow> v_Perm v \<noteq> ReadOnly) }"

text \<open>Sequencing of steps that may fail, and a step taken on a condition.\<close>

definition and_then :: "(Telescope, AlpacaError option) kitM \<Rightarrow> (Telescope, AlpacaError option) kitM \<Rightarrow> (Telescope, AlpacaError option) kitM" where
  "and_then m n = do { r \<leftarrow> m; (case r of Some er \<Rightarrow> ret (Some er) | None \<Rightarrow> n) }"

definition setCoordMode :: "Kit \<Rightarrow> string \<Rightarrow> (Telescope, AlpacaError option) kitM" where
  "setCoordMode k mode = do {
     has \<leftarrow> Has k ''ON_COORD_SET'';
     if \<not> has then ret None else SendSwitch k ''ON_COORD_SET'' [mode] []
   }"

definition RightAscension :: "Kit \<Rightarrow> (Telescope, f64) kitM" where "RightAscension k = tel_number k ''EQUATORIAL_EOD_COORD'' ''RA''"
definition Declination :: "Kit \<Rightarrow> (Telescope, f64) kitM" where "Declination k = tel_number k ''EQUATORIAL_EOD_COORD'' ''DEC''"
definition Altitude :: "Kit \<Rightarrow> (Telescope, f64) kitM" where "Altitude k = tel_number k ''HORIZONTAL_COORD'' ''ALT''"
definition Azimuth :: "Kit \<Rightarrow> (Telescope, f64) kitM" where "Azimuth k = tel_number k ''HORIZONTAL_COORD'' ''AZ''"

datatype EquatorialCoordinateType = EquTopocentric

definition EquatorialSystem :: EquatorialCoordinateType where "EquatorialSystem = EquTopocentric"

subsection \<open>Slews\<close>

definition TargetRightAscension :: "(Telescope, AlpacaError + f64) kitM" where
  "TargetRightAscension = do {
     d \<leftarrow> get_dev;
     ret (if \<not> te_targetRASet d then Inl (InvalidOperation [Lit ''TargetRightAscension has not been set'']) else Inr (te_targetRA d))
   }"

definition SetTargetRightAscension :: "f64 \<Rightarrow> (Telescope, AlpacaError option) kitM" where
  "SetTargetRightAscension x = do { upd_dev (\<lambda>d. d\<lparr>te_targetRA := x, te_targetRASet := True\<rparr>); ret None }"

definition TargetDeclination :: "(Telescope, AlpacaError + f64) kitM" where
  "TargetDeclination = do {
     d \<leftarrow> get_dev;
     ret (if \<not> te_targetDecSet d then Inl (InvalidOperation [Lit ''TargetDeclination has not been set'']) else Inr (te_targetDec d))
   }"

definition SetTargetDeclination :: "f64 \<Rightarrow> (Telescope, AlpacaError option) kitM" where
  "SetTargetDeclination x = do { upd_dev (\<lambda>d. d\<lparr>te_targetDec := x, te_targetDecSet := True\<rparr>); ret None }"

definition slewAsync :: "Kit \<Rightarrow> f64 \<Rightarrow> f64 \<Rightarrow> (Telescope, AlpacaError option) kitM" where
  "slewAsync k ra de = do {
     (ok, reason) \<leftarrow> Avail;
     if \<not> ok then ret (Some (NotConnected reason))
     else and_then (setCoordMode k ''TRACK'')
       (started slew_upd (SendNumber k ''EQUATORIAL_EOD_COORD'' [(''RA'', ra), (''DEC'', de)]))
   }"

text \<open>Waiting for the end of a slew, and how its outcome is reported.\<close>

definition await_slew :: "Kit \<Rightarrow> (Telescope, AlpacaError option) kitM" where
  "await_slew k = do {
     dev \<leftarrow> DeviceName k;
     s \<leftarrow> WaitSettle;
     ret (case s of
         Inl er \<Rightarrow> Some (DriverError [Lit ''slew did not settle''] (settle_error er))
       | Inr (state, msg) \<Rightarrow> if state = Alert then Some (DriverError [Lit ''slew failed''] (if msg = [] then [] else [Lit msg])) else None)
   }"

definition settleSlew :: "Kit \<Rightarrow> (Telescope, AlpacaError option) kitM" where
  "settleSlew k = and_then (await_slew k) (do {
     d \<leftarrow> get_dev;
     if 0 < te_settleTime d then do { _ \<leftarrow> observe; ret None } else ret None
   })"

definition slewSync :: "Kit \<Rightarrow> f64 \<Rightarrow> f64 \<Rightarrow> (Telescope, AlpacaError option) kitM" where
  "slewSync k ra de = do { since \<leftarrow> Now; and_then (slewAsync k ra de) (settleSlew k) }"

definition SlewToCoordinatesAsync :: "Kit \<Rightarrow> f64 \<Rightarrow> f64 \<Rightarrow> (Telescope, AlpacaError option) kitM" where
  "SlewToCoordinatesAsync k ra de = do { _ \<leftarrow> SetTargetRightAscension ra; _ \<leftarrow> SetTargetDeclination de; slewAsync k ra de }"

definition SlewToCoordinates :: "Kit \<Rightarrow> f64 \<Rightarrow> f64 \<Rightarrow> (Telescope, AlpacaError option) kitM" where
  "SlewToCoordinates k ra de = do { _ \<leftarrow> SetTargetRightAscension ra; _ \<leftarrow> SetTargetDeclination de; slewSync k ra de }"

definition tel_targets :: "(Telescope, AlpacaError + f64 \<times> f64) kitM" where
  "tel_targets = bindE TargetRightAscension (\<lambda>ra. bindE TargetDeclination (\<lambda>de. ret (Inr (ra, de))))"

definition SlewToTargetAsync :: "Kit \<Rightarrow> (Telescope, AlpacaError option) kitM" where
  "SlewToTargetAsync k = do { r \<leftarrow> tel_targets; (case r of Inl er \<Rightarrow> ret (Some er) | Inr (ra, de) \<Rightarrow> slewAsync k ra de) }"

definition SlewToTarget :: "Kit \<Rightarrow> (Telescope, AlpacaError option) kitM" where
  "SlewToTarget k = do { r \<leftarrow> tel_targets; (case r of Inl er \<Rightarrow> ret (Some er) | Inr (ra, de) \<Rightarrow> slewSync k ra de) }"

definition slewAltAzAsync :: "Kit \<Rightarrow> f64 \<Rightarrow> f64 \<Rightarrow> (Telescope, AlpacaError option) kitM" where
  "slewAltAzAsync k az alt = do {
     w \<leftarrow> tel_writable k ''HORIZONTAL_COORD'';
     if \<not> w then ret (Some (NotImplemented ''SlewToAltAz''))
     else started slew_upd (SendNumber k ''HORIZONTAL_COORD'' [(''AZ'', az), (''ALT'', alt)])
   }"

definition SlewToAltAzAsync :: "Kit \<Rightarrow> f64 \<Rightarrow> f64 \<Rightarrow> (Telescope, AlpacaError option) kitM" where
  "SlewToAltAzAsync k az alt = slewAltAzAsync k az alt"

definition SlewToAltAz :: "Kit \<Rightarrow> f64 \<Rightarrow> f64 \<Rightarrow> (Telescope, AlpacaError option) kitM" where
  "SlewToAltAz k az alt = do { since \<leftarrow> Now; and_then (slewAltAzAsync k az alt) (await_slew k) }"

subsection \<open>Syncs\<close>

text \<open>The wait for the coordinates: \<^const>\<open>None\<close> when the fuel ran out, otherwise the error if the vector
  went Alert.\<close>

primrec sync_wait :: "nat \<Rightarrow> Kit \<Rightarrow> f64 \<Rightarrow> f64 \<Rightarrow> gotime \<Rightarrow> (Telescope, AlpacaError option option) kitM" where
  "sync_wait 0 k ra de deadline = ret None"
| "sync_wait (Suc fuel) k ra de deadline = do {
     t \<leftarrow> Now;
     if \<not> t < deadline then ret (Some None)
     else do {
       st \<leftarrow> StateOf k ''EQUATORIAL_EOD_COORD'';
       if st = Alert then ret (Some (Some (DriverError [Lit ''sync refused''] [Lit ''EQUATORIAL_EOD_COORD went Alert after the sync''])))
       else do {
         r \<leftarrow> RightAscension k;
         near \<leftarrow> (if f_lt (f_abs (f_sub r ra)) (rnd (5 / 100))
                 then do { d \<leftarrow> Declination k; ret (f_lt (f_abs (f_sub d de)) (rnd (25 / 100))) }
                 else ret False);
         if near then ret (Some None) else do { _ \<leftarrow> observe; sync_wait fuel k ra de deadline }
       }
     }
   }"

text \<open>The alignment subsystem is enabled first where the driver has it.\<close>

definition enable_alignment :: "Kit \<Rightarrow> (Telescope, AlpacaError option) kitM" where
  "enable_alignment k = do {
     has \<leftarrow> Has k ''ALIGNMENT_SUBSYSTEM_ACTIVE'';
     on \<leftarrow> (if has then tel_switchOn k ''ALIGNMENT_SUBSYSTEM_ACTIVE'' ''ALIGNMENT SUBSYSTEM ACTIVE'' else ret True);
     if has \<and> \<not> on then SendSwitch k ''ALIGNMENT_SUBSYSTEM_ACTIVE'' [''ALIGNMENT SUBSYSTEM ACTIVE''] [] else ret None
   }"

definition send_sync :: "Kit \<Rightarrow> f64 \<Rightarrow> f64 \<Rightarrow> (Telescope, AlpacaError option) kitM" where
  "send_sync k ra de = and_then (enable_alignment k) (and_then (setCoordMode k ''SYNC'')
     (SendNumber k ''EQUATORIAL_EOD_COORD'' [(''RA'', ra), (''DEC'', de)]))"

definition syncCoords :: "nat \<Rightarrow> Kit \<Rightarrow> f64 \<Rightarrow> f64 \<Rightarrow> (Telescope, AlpacaError option option) kitM" where
  "syncCoords fuel k ra de = do {
     r \<leftarrow> send_sync k ra de;
     (case r of
        Some er \<Rightarrow> ret (Some (Some er))
      | None \<Rightarrow> do {
          t \<leftarrow> Now;
          w \<leftarrow> sync_wait fuel k ra de (t + 5 * 10 ^ 9);
          (case w of
             None \<Rightarrow> ret None
           | Some (Some er) \<Rightarrow> ret (Some (Some er))
           | Some None \<Rightarrow> do { r \<leftarrow> setCoordMode k ''TRACK''; ret (Some r) })
        })
   }"

definition SyncToCoordinates :: "nat \<Rightarrow> Kit \<Rightarrow> f64 \<Rightarrow> f64 \<Rightarrow> (Telescope, AlpacaError option option) kitM" where
  "SyncToCoordinates fuel k ra de = syncCoords fuel k ra de"

definition SyncToTarget :: "nat \<Rightarrow> Kit \<Rightarrow> (Telescope, AlpacaError option option) kitM" where
  "SyncToTarget fuel k = do { r \<leftarrow> tel_targets; (case r of Inl er \<Rightarrow> ret (Some (Some er)) | Inr (ra, de) \<Rightarrow> syncCoords fuel k ra de) }"

definition SyncToAltAz :: "f64 \<Rightarrow> f64 \<Rightarrow> AlpacaError option" where
  "SyncToAltAz az alt = Some (NotImplemented ''SyncToAltAz'')"

subsection \<open>Motion in progress\<close>

text \<open>The disjunctions of the code evaluate from left to right and stop at the first that holds.\<close>

fun any_of :: "(Telescope, bool) kitM list \<Rightarrow> (Telescope, bool) kitM" where
  "any_of [] = ret False"
| "any_of (m # ms) = do { b \<leftarrow> m; if b then ret True else any_of ms }"

definition busy :: "Kit \<Rightarrow> string \<Rightarrow> (Telescope, bool) kitM" where
  "busy k vec = do { st \<leftarrow> StateOf k vec; ret (st = Busy) }"

definition bit_active :: "(Telescope \<Rightarrow> Inflight) \<Rightarrow> Telescope setter \<Rightarrow> Kit \<Rightarrow> string \<Rightarrow> (Telescope, bool) kitM" where
  "bit_active get upd k vec = do { u \<leftarrow> UpdatedOf k vec; op_active get upd u }"

definition forget_motion :: "(Telescope, unit) kitM" where
  "forget_motion = do {
     upd_dev (\<lambda>d. d\<lparr>te_axisMoving := (False, False)\<rparr>);
     op_clear slew_upd; op_clear parkOp_upd; op_clear home_upd
   }"

definition Slewing :: "Kit \<Rightarrow> (Telescope, bool) kitM" where
  "Slewing k = do {
     (ok, _) \<leftarrow> Avail;
     if \<not> ok then do { forget_motion; ret False }
     else any_of [busy k ''EQUATORIAL_EOD_COORD'', busy k ''HORIZONTAL_COORD'', busy k ''TELESCOPE_PARK'', busy k ''TELESCOPE_HOME'',
       do { d \<leftarrow> get_dev; ret (fst (te_axisMoving d) \<or> snd (te_axisMoving d)) },
       bit_active te_slew slew_upd k ''EQUATORIAL_EOD_COORD'', bit_active te_parkOp parkOp_upd k ''TELESCOPE_PARK'',
       bit_active te_home home_upd k ''TELESCOPE_HOME'']
   }"

definition Telescope_Busy :: "Kit \<Rightarrow> (Telescope, bool) kitM" where "Telescope_Busy k = Slewing k"

definition AbortSlew :: "Kit \<Rightarrow> (Telescope, AlpacaError option) kitM" where
  "AbortSlew k = do { forget_motion; WriteSwitch k telescope_table ''AbortSlew'' }"

datatype PierSide = PierEast | PierWest | PierUnknown

definition DestinationSideOfPier :: "f64 \<Rightarrow> f64 \<Rightarrow> PierSide \<times> AlpacaError option" where
  "DestinationSideOfPier ra de = (PierUnknown, Some (NotImplemented ''DestinationSideOfPier''))"

subsection \<open>Park and home\<close>

definition AtPark :: "Kit \<Rightarrow> (Telescope, bool) kitM" where
  "AtPark k = do {
     on \<leftarrow> tel_switchOn k ''TELESCOPE_PARK'' ''PARK'';
     if \<not> on then ret False
     else do {
       b \<leftarrow> busy k ''TELESCOPE_PARK'';
       if b then ret False else do { a \<leftarrow> bit_active te_parkOp parkOp_upd k ''TELESCOPE_PARK''; ret (\<not> a) }
     }
   }"

definition tel_park :: "Kit \<Rightarrow> bool \<Rightarrow> (Telescope, AlpacaError option) kitM" where
  "tel_park k unpark = do {
     (ok, reason) \<leftarrow> Avail;
     if \<not> ok then ret (Some (NotConnected reason))
     else started parkOp_upd (SendSwitch k ''TELESCOPE_PARK'' [if unpark then ''UNPARK'' else ''PARK''] [])
   }"

definition Park :: "Kit \<Rightarrow> (Telescope, AlpacaError option) kitM" where "Park k = tel_park k False"
definition Unpark :: "Kit \<Rightarrow> (Telescope, AlpacaError option) kitM" where "Unpark k = tel_park k True"

definition SetPark :: "Kit \<Rightarrow> (Telescope, AlpacaError option) kitM" where
  "SetPark k = WriteSwitch k telescope_table ''SetPark''"

definition AtHome :: "Kit \<Rightarrow> (Telescope, bool) kitM" where
  "AtHome k = do {
     has \<leftarrow> Has k ''TELESCOPE_HOME'';
     if \<not> has then ret False
     else do {
       st \<leftarrow> StateOf k ''TELESCOPE_HOME'';
       if st \<noteq> Ok then ret False else do { a \<leftarrow> bit_active te_home home_upd k ''TELESCOPE_HOME''; ret (\<not> a) }
     }
   }"

definition findHome :: "Kit \<Rightarrow> (Telescope, AlpacaError option) kitM" where
  "findHome k = do {
     r \<leftarrow> Kit_Vector k ''TELESCOPE_HOME'';
     (case r of
        Inl er \<Rightarrow> ret (Some er)
      | Inr v \<Rightarrow> (case v_Members v of
            [] \<Rightarrow> ret (Some (NotImplemented ''FindHome''))
          | mv # _ \<Rightarrow> started home_upd (SendSwitch k ''TELESCOPE_HOME'' [m_Name (mv_Member mv)] [])))
   }"

definition FindHome :: "Kit \<Rightarrow> (Telescope, AlpacaError option) kitM" where "FindHome k = findHome k"

subsection \<open>Tracking\<close>

definition Tracking :: "Kit \<Rightarrow> (Telescope, bool) kitM" where
  "Tracking k = tel_switchOn k ''TELESCOPE_TRACK_STATE'' ''TRACK_ON''"

text \<open>A switch is sent and its echo awaited; a missing echo is logged and otherwise ignored.\<close>

definition send_echoed :: "Kit \<Rightarrow> string \<Rightarrow> string \<Rightarrow> (Telescope, AlpacaError option) kitM" where
  "send_echoed k vec mem = do {
     r \<leftarrow> Kit_Vector k vec;
     (case r of
        Inl er \<Rightarrow> ret (Some er)
      | Inr _ \<Rightarrow> do {
          since \<leftarrow> Now;
          and_then (SendSwitch k vec [mem] []) (do { dev \<leftarrow> DeviceName k; _ \<leftarrow> WaitUpdate; ret None })
        })
   }"

definition SetTracking :: "Kit \<Rightarrow> bool \<Rightarrow> (Telescope, AlpacaError option) kitM" where
  "SetTracking k on = send_echoed k ''TELESCOPE_TRACK_STATE'' (if \<not> on then ''TRACK_OFF'' else ''TRACK_ON'')"

datatype DriveRate = DriveSidereal | DriveSolar | DriveLunar | OtherDrive int

definition driveByMember :: "DriveRate gomap" where
  "driveByMember = [(''TRACK_SIDEREAL'', DriveSidereal), (''TRACK_SOLAR'', DriveSolar), (''TRACK_LUNAR'', DriveLunar)]"

definition TrackingRate :: "Kit \<Rightarrow> (Telescope, DriveRate) kitM" where
  "TrackingRate k = do {
     r \<leftarrow> Kit_Vector k ''TELESCOPE_TRACK_MODE'';
     ret (case r of
         Inl _ \<Rightarrow> DriveSidereal
       | Inr v \<Rightarrow> (case List.map_filter (\<lambda>mv. if m_On (mv_Member mv) then map_of driveByMember (m_Name (mv_Member mv)) else None) (v_Members v) of
             [] \<Rightarrow> DriveSidereal | rate # _ \<Rightarrow> rate))
   }"

text \<open>No two members stand for one rate, so the order the map is visited in does not matter.\<close>

definition SetTrackingRate :: "Kit \<Rightarrow> DriveRate \<Rightarrow> (Telescope, AlpacaError option) kitM" where
  "SetTrackingRate k rate =
     (case List.find (\<lambda>(mem, dr). dr = rate) driveByMember of
        Some (mem, _) \<Rightarrow> send_echoed k ''TELESCOPE_TRACK_MODE'' mem
      | None \<Rightarrow> ret (Some (InvalidValue [Lit ''this mount offers no such tracking rate''])))"

definition TrackingRates :: "Kit \<Rightarrow> (Telescope, DriveRate list) kitM" where
  "TrackingRates k = do {
     r \<leftarrow> Kit_Vector k ''TELESCOPE_TRACK_MODE'';
     let out = (case r of
         Inl _ \<Rightarrow> []
       | Inr v \<Rightarrow> List.map_filter (\<lambda>mv. map_of driveByMember (m_Name (mv_Member mv))) (v_Members v));
     ret (if out = [] then [DriveSidereal] else out)
   }"

definition RightAscensionRate :: "Kit \<Rightarrow> (Telescope, f64) kitM" where
  "RightAscensionRate k = do {
     m \<leftarrow> tel_member k ''TELESCOPE_TRACK_RATE'' ''TRACK_RATE_RA'';
     ret (case m of Some m \<Rightarrow> raRateToASCOM (m_Value m) | None \<Rightarrow> Fin 0)
   }"

definition SetRightAscensionRate :: "Kit \<Rightarrow> f64 \<Rightarrow> (Telescope, AlpacaError option) kitM" where
  "SetRightAscensionRate k x = do {
     w \<leftarrow> tel_writable k ''TELESCOPE_TRACK_RATE'';
     if \<not> w then ret (Some (NotImplemented ''RightAscensionRate''))
     else SendNumber k ''TELESCOPE_TRACK_RATE'' [(''TRACK_RATE_RA'', raRateToINDI x)]
   }"

definition DeclinationRate :: "Kit \<Rightarrow> (Telescope, f64) kitM" where
  "DeclinationRate k = do {
     m \<leftarrow> tel_member k ''TELESCOPE_TRACK_RATE'' ''TRACK_RATE_DE'';
     ret (case m of Some m \<Rightarrow> decRateToASCOM (m_Value m) | None \<Rightarrow> Fin 0)
   }"

definition SetDeclinationRate :: "Kit \<Rightarrow> f64 \<Rightarrow> (Telescope, AlpacaError option) kitM" where
  "SetDeclinationRate k x = do {
     w \<leftarrow> tel_writable k ''TELESCOPE_TRACK_RATE'';
     if \<not> w then ret (Some (NotImplemented ''DeclinationRate''))
     else SendNumber k ''TELESCOPE_TRACK_RATE'' [(''TRACK_RATE_DE'', decRateToINDI x)]
   }"

subsection \<open>Guiding and manual motion\<close>

definition Telescope_PulseGuide :: "Kit \<Rightarrow> GuideDirection \<Rightarrow> int \<Rightarrow> (Telescope, AlpacaError option) kitM" where
  "Telescope_PulseGuide k dir ms =
     (case guide_member dir of (vec, mem) \<Rightarrow> do {
        r \<leftarrow> Kit_Vector k vec;
        (case r of Inl er \<Rightarrow> ret (Some er) | Inr _ \<Rightarrow> started te_guide_upd (SendNumber k vec [(mem, f_of_int ms)]))
      })"

definition Telescope_IsPulseGuiding :: "Kit \<Rightarrow> (Telescope, bool) kitM" where
  "Telescope_IsPulseGuiding k = do {
     (ok, _) \<leftarrow> Avail;
     if \<not> ok then do { op_clear te_guide_upd; ret False }
     else do {
       b \<leftarrow> any_of [busy k ''TELESCOPE_TIMED_GUIDE_NS'', busy k ''TELESCOPE_TIMED_GUIDE_WE''];
       if b then ret True
       else do {
         ns \<leftarrow> UpdatedOf k ''TELESCOPE_TIMED_GUIDE_NS'';
         we \<leftarrow> UpdatedOf k ''TELESCOPE_TIMED_GUIDE_WE'';
         op_active te_guide te_guide_upd (if ns < we then we else ns)
       }
     }
   }"

definition GuideRateRightAscension :: "Kit \<Rightarrow> (Telescope, f64) kitM" where
  "GuideRateRightAscension k = tel_number k ''GUIDE_RATE'' ''GUIDE_RATE_WE''"

definition SetGuideRateRightAscension :: "Kit \<Rightarrow> f64 \<Rightarrow> (Telescope, AlpacaError option) kitM" where
  "SetGuideRateRightAscension k x = WriteNumber k telescope_table ''GuideRateRightAscension'' x"

definition GuideRateDeclination :: "Kit \<Rightarrow> (Telescope, f64) kitM" where
  "GuideRateDeclination k = tel_number k ''GUIDE_RATE'' ''GUIDE_RATE_NS''"

definition SetGuideRateDeclination :: "Kit \<Rightarrow> f64 \<Rightarrow> (Telescope, AlpacaError option) kitM" where
  "SetGuideRateDeclination k x = WriteNumber k telescope_table ''GuideRateDeclination'' x"

datatype TelescopeAxis = AxisPrimary | AxisSecondary | OtherAxis int

fun axisProps :: "TelescopeAxis \<Rightarrow> (string \<times> string \<times> string) option" where
  "axisProps AxisPrimary = Some (''TELESCOPE_MOTION_WE'', ''MOTION_EAST'', ''MOTION_WEST'')"
| "axisProps AxisSecondary = Some (''TELESCOPE_MOTION_NS'', ''MOTION_NORTH'', ''MOTION_SOUTH'')"
| "axisProps (OtherAxis n) = None"

definition CanMoveAxis :: "Kit \<Rightarrow> TelescopeAxis \<Rightarrow> (Telescope, bool) kitM" where
  "CanMoveAxis k axis = (case axisProps axis of None \<Rightarrow> ret False | Some (vec, _, _) \<Rightarrow> Has k vec)"

definition AxisRates :: "Kit \<Rightarrow> TelescopeAxis \<Rightarrow> (Telescope, (f64 \<times> f64) list) kitM" where
  "AxisRates k axis = do { can \<leftarrow> CanMoveAxis k axis; ret (if \<not> can then [] else [(Fin 0, Fin 5)]) }"

definition set_moving :: "TelescopeAxis \<Rightarrow> bool \<Rightarrow> Telescope \<Rightarrow> Telescope" where
  "set_moving axis b d = (case te_axisMoving d of (p, s) \<Rightarrow>
     d\<lparr>te_axisMoving := (if axis = AxisSecondary then (p, b) else (b, s))\<rparr>)"

definition MoveAxis :: "Kit \<Rightarrow> TelescopeAxis \<Rightarrow> f64 \<Rightarrow> (Telescope, AlpacaError option) kitM" where
  "MoveAxis k axis rate =
     (case axisProps axis of
        None \<Rightarrow> ret (Some (NotImplemented ''MoveAxis''))
      | Some (vec, pos, neg) \<Rightarrow> do {
          has \<leftarrow> Has k vec;
          if \<not> has then ret (Some (NotImplemented ''MoveAxis''))
          else if f_eq rate (Fin 0) then do { upd_dev (set_moving axis False); SendSwitch k vec [] [pos, neg] }
          else do { upd_dev (set_moving axis True); SendSwitch k vec [if f_lt rate (Fin 0) then neg else pos] [] }
        })"

subsection \<open>Site and clock\<close>

text \<open>A new place invalidates the alignment database.\<close>

definition clear_alignment :: "Kit \<Rightarrow> (Telescope, AlpacaError option) kitM" where
  "clear_alignment k =
     and_then (SendSwitch k ''ALIGNMENT_POINTSET_ACTION'' [''CLEAR''] [])
       (and_then (SendSwitch k ''ALIGNMENT_POINTSET_COMMIT'' [''ALIGNMENT_POINTSET_COMMIT''] [])
         (SendSwitch k ''ALIGNMENT_POINTSET_ACTION'' [''APPEND''] []))"

definition site_changed :: "Kit \<Rightarrow> string \<Rightarrow> (Telescope, AlpacaError option) kitM" where
  "site_changed k elem = do {
     has \<leftarrow> (if elem \<noteq> ''ELEV'' then Has k ''ALIGNMENT_POINTSET_ACTION'' else ret False);
     if has then clear_alignment k else ret None
   }"

definition setSite :: "Kit \<Rightarrow> string \<Rightarrow> f64 \<Rightarrow> (Telescope, AlpacaError option) kitM" where
  "setSite k elem x = do {
     r \<leftarrow> Kit_Vector k ''GEOGRAPHIC_COORD'';
     (case r of
        Inl er \<Rightarrow> ret (Some er)
      | Inr vec \<Rightarrow>
          let m = Vector_Member vec elem in
          if m \<noteq> None \<and> out_of_range (mv_Member (the m)) x then ret (Some (range_error elem x (mv_Member (the m))))
          else and_then (SendNumber k ''GEOGRAPHIC_COORD'' (AList.update elem x (vector_values vec))) (site_changed k elem))
   }"

definition SiteLatitude :: "Kit \<Rightarrow> (Telescope, f64) kitM" where "SiteLatitude k = tel_number k ''GEOGRAPHIC_COORD'' ''LAT''"

definition SetSiteLatitude :: "Kit \<Rightarrow> f64 \<Rightarrow> (Telescope, AlpacaError option) kitM" where
  "SetSiteLatitude k x = setSite k ''LAT'' x"

definition SiteLongitude :: "Kit \<Rightarrow> (Telescope, f64) kitM" where
  "SiteLongitude k = do {
     m \<leftarrow> tel_member k ''GEOGRAPHIC_COORD'' ''LONG'';
     ret (case m of Some m \<Rightarrow> longitudeToASCOM (m_Value m) | None \<Rightarrow> Fin 0)
   }"

definition SetSiteLongitude :: "Kit \<Rightarrow> f64 \<Rightarrow> (Telescope, AlpacaError option) kitM" where
  "SetSiteLongitude k x =
     (if f_lt x (Fin (-180)) \<or> f_lt (Fin 180) x
      then ret (Some (InvalidValue [Lit ''SiteLongitude '', FmtG x, Lit ('' is outside '' @ PLUSMINUS @ ''180'')]))
      else setSite k ''LONG'' (longitudeToINDI x))"

definition SiteElevation :: "Kit \<Rightarrow> (Telescope, f64) kitM" where "SiteElevation k = tel_number k ''GEOGRAPHIC_COORD'' ''ELEV''"

definition SetSiteElevation :: "Kit \<Rightarrow> f64 \<Rightarrow> (Telescope, AlpacaError option) kitM" where
  "SetSiteElevation k x = setSite k ''ELEV'' x"

definition UTCDate :: "Kit \<Rightarrow> (Telescope, string) kitM" where
  "UTCDate k = do {
     m \<leftarrow> tel_member k ''TIME_UTC'' ''UTC'';
     (case Option.bind m (\<lambda>m. utcToASCOM (m_Text m)) of
        Some s \<Rightarrow> ret s
      | None \<Rightarrow> do { t \<leftarrow> Now; ret (format_utc_ms t) })
   }"

definition SetUTCDate :: "Kit \<Rightarrow> string \<Rightarrow> (Telescope, AlpacaError option) kitM" where
  "SetUTCDate k s =
     (case utcToINDI s of
        None \<Rightarrow> ret (Some (InvalidValue [Lit (''UTCDate '' @ s @ '' is not a valid ISO-8601 UTC timestamp'')]))
      | Some indi \<Rightarrow> do {
          has \<leftarrow> Has k ''TIME_UTC'';
          if \<not> has then ret (Some (NotImplemented ''UTCDate''))
          else do {
            r \<leftarrow> Kit_Vector k ''TIME_UTC'';
            (case r of
               Inl er \<Rightarrow> ret (Some er)
             | Inr v \<Rightarrow>
                 let off = (case Vector_Member v ''OFFSET'' of
                     Some mv \<Rightarrow> if m_Text (mv_Member mv) \<noteq> [] then m_Text (mv_Member mv) else ''0'' | None \<Rightarrow> ''0'')
                 in SendText k ''TIME_UTC'' [(''UTC'', indi), (''OFFSET'', off)])
          }
        })"

definition SiderealTime :: "Kit \<Rightarrow> (Telescope, f64) kitM" where
  "SiderealTime k = do { lon \<leftarrow> SiteLongitude k; t \<leftarrow> Now; ret (siderealTime lon t) }"

subsection \<open>The mount\<close>

datatype MountAlignment = AlignAltAz | AlignPolar | AlignGermanPolar

definition mount_alignment :: "MemberVal \<Rightarrow> MountAlignment option" where
  "mount_alignment mv =
     (let n = m_Name (mv_Member mv) in
      if \<not> m_On (mv_Member mv) then None
      else if n = ''ALTAZ'' then Some AlignAltAz
      else if n = ''EQ_FORK'' then Some AlignPolar
      else if n = ''EQ_GEM'' then Some AlignGermanPolar
      else None)"

definition AlignmentMode :: "Kit \<Rightarrow> (Telescope, MountAlignment) kitM" where
  "AlignmentMode k = do {
     r \<leftarrow> Kit_Vector k ''TELESCOPE_MOUNT_TYPE'';
     ret (case r of
         Inl _ \<Rightarrow> AlignGermanPolar
       | Inr v \<Rightarrow> (case List.map_filter mount_alignment (v_Members v) of [] \<Rightarrow> AlignGermanPolar | a # _ \<Rightarrow> a))
   }"

definition SideOfPier :: "Kit \<Rightarrow> (Telescope, PierSide) kitM" where
  "SideOfPier k = do {
     east \<leftarrow> tel_switchOn k ''TELESCOPE_PIER_SIDE'' ''PIER_EAST'';
     if east then ret PierEast
     else do { west \<leftarrow> tel_switchOn k ''TELESCOPE_PIER_SIDE'' ''PIER_WEST''; ret (if west then PierWest else PierUnknown) }
   }"

definition SetSideOfPier :: "Kit \<Rightarrow> PierSide \<Rightarrow> (Telescope, AlpacaError option) kitM" where
  "SetSideOfPier k s = do {
     w \<leftarrow> tel_writable k ''TELESCOPE_PIER_SIDE'';
     if \<not> w then ret (Some (NotImplemented ''SideOfPier''))
     else SendSwitch k ''TELESCOPE_PIER_SIDE'' [if s = PierWest then ''PIER_WEST'' else ''PIER_EAST''] []
   }"

definition ApertureDiameter :: "Kit \<Rightarrow> (Telescope, f64) kitM" where
  "ApertureDiameter k = do { x \<leftarrow> tel_number k ''TELESCOPE_INFO'' ''TELESCOPE_APERTURE''; ret (mmToM x) }"

definition ApertureArea :: "Kit \<Rightarrow> (Telescope, f64) kitM" where
  "ApertureArea k = do { x \<leftarrow> ApertureDiameter k; ret (apertureArea x) }"

definition FocalLength :: "Kit \<Rightarrow> (Telescope, f64) kitM" where
  "FocalLength k = do { x \<leftarrow> tel_number k ''TELESCOPE_INFO'' ''TELESCOPE_FOCAL_LENGTH''; ret (mmToM x) }"

definition DoesRefraction :: bool where "DoesRefraction = False"

definition SetDoesRefraction :: "bool \<Rightarrow> AlpacaError option" where
  "SetDoesRefraction b = Some (NotImplemented ''DoesRefraction'')"

definition SlewSettleTime :: "(Telescope, int) kitM" where
  "SlewSettleTime = do { d \<leftarrow> get_dev; ret (te_settleTime d) }"

definition SetSlewSettleTime :: "int \<Rightarrow> (Telescope, AlpacaError option) kitM" where
  "SetSlewSettleTime n =
     (if n < 0 then ret (Some (InvalidValue [Lit ''SlewSettleTime must be non-negative'']))
      else do { upd_dev (\<lambda>d. d\<lparr>te_settleTime := n\<rparr>); ret None })"

definition CanFindHome :: "Kit \<Rightarrow> (Telescope, bool) kitM" where "CanFindHome k = Has k ''TELESCOPE_HOME''"
definition CanPark :: "Kit \<Rightarrow> (Telescope, bool) kitM" where "CanPark k = Has k ''TELESCOPE_PARK''"
definition CanUnpark :: "Kit \<Rightarrow> (Telescope, bool) kitM" where "CanUnpark k = Has k ''TELESCOPE_PARK''"
definition CanSetPark :: "Kit \<Rightarrow> (Telescope, bool) kitM" where "CanSetPark k = Has k ''TELESCOPE_PARK_OPTION''"
definition Telescope_CanPulseGuide :: "Kit \<Rightarrow> (Telescope, bool) kitM" where "Telescope_CanPulseGuide k = Has k ''TELESCOPE_TIMED_GUIDE_NS''"
definition CanSetGuideRates :: "Kit \<Rightarrow> (Telescope, bool) kitM" where "CanSetGuideRates k = tel_writable k ''GUIDE_RATE''"
definition CanSetPierSide :: "Kit \<Rightarrow> (Telescope, bool) kitM" where "CanSetPierSide k = tel_writable k ''TELESCOPE_PIER_SIDE''"
definition CanSetRightAscensionRate :: "Kit \<Rightarrow> (Telescope, bool) kitM" where "CanSetRightAscensionRate k = tel_writable k ''TELESCOPE_TRACK_RATE''"
definition CanSetDeclinationRate :: "Kit \<Rightarrow> (Telescope, bool) kitM" where "CanSetDeclinationRate k = tel_writable k ''TELESCOPE_TRACK_RATE''"
definition CanSetTracking :: "Kit \<Rightarrow> (Telescope, bool) kitM" where "CanSetTracking k = tel_writable k ''TELESCOPE_TRACK_STATE''"
definition CanSlew :: "Kit \<Rightarrow> (Telescope, bool) kitM" where "CanSlew k = tel_writable k ''EQUATORIAL_EOD_COORD''"
definition CanSlewAsync :: "Kit \<Rightarrow> (Telescope, bool) kitM" where "CanSlewAsync k = tel_writable k ''EQUATORIAL_EOD_COORD''"
definition CanSlewAltAz :: "Kit \<Rightarrow> (Telescope, bool) kitM" where "CanSlewAltAz k = tel_writable k ''HORIZONTAL_COORD''"
definition CanSlewAltAzAsync :: "Kit \<Rightarrow> (Telescope, bool) kitM" where "CanSlewAltAzAsync k = tel_writable k ''HORIZONTAL_COORD''"

definition CanSync :: "Kit \<Rightarrow> (Telescope, bool) kitM" where
  "CanSync k = do {
     r \<leftarrow> Kit_Vector k ''ON_COORD_SET'';
     ret (case r of Inl _ \<Rightarrow> False | Inr v \<Rightarrow> Vector_Member v ''SYNC'' \<noteq> None)
   }"

definition CanSyncAltAz :: bool where "CanSyncAltAz = False"

subsection \<open>The state list\<close>

text \<open>A member of a vector of one snapshot, as an entry.\<close>

definition state_value :: "Snapshot \<Rightarrow> string \<Rightarrow> string \<Rightarrow> string \<Rightarrow> string \<Rightarrow> StateValue list" where
  "state_value snap dev vec elem name =
     (case Snapshot_Vector snap dev vec of None \<Rightarrow> []
      | Some v \<Rightarrow> (case Vector_Member v elem of None \<Rightarrow> [] | Some mv \<Rightarrow> [VFloat name (m_Value (mv_Member mv))]))"

text \<open>A disjunct of the slewing state taken from the snapshot: Busy, or the bit not acknowledged.\<close>

definition still :: "bool \<Rightarrow> (Telescope \<Rightarrow> Inflight) \<Rightarrow> Telescope setter \<Rightarrow> Vector option \<Rightarrow> (Telescope, bool) kitM" where
  "still sofar get upd v =
     (case v of None \<Rightarrow> ret sofar
      | Some v \<Rightarrow> if sofar \<or> v_State v = Busy then ret True else op_active get upd (v_Updated v))"

definition state_slewing :: "Snapshot \<Rightarrow> string \<Rightarrow> (Telescope, StateValue list) kitM" where
  "state_slewing snap dev =
     (case Snapshot_Vector snap dev ''EQUATORIAL_EOD_COORD'' of
        None \<Rightarrow> ret []
      | Some v \<Rightarrow> do {
          d \<leftarrow> get_dev;
          a \<leftarrow> still (fst (te_axisMoving d) \<or> snd (te_axisMoving d)) te_slew slew_upd (Some v);
          b \<leftarrow> still a te_parkOp parkOp_upd (Snapshot_Vector snap dev ''TELESCOPE_PARK'');
          c \<leftarrow> still b te_home home_upd (Snapshot_Vector snap dev ''TELESCOPE_HOME'');
          ret (state_value snap dev ''EQUATORIAL_EOD_COORD'' ''RA'' ''RightAscension'' @
            state_value snap dev ''EQUATORIAL_EOD_COORD'' ''DEC'' ''Declination'' @ [VBool ''Slewing'' c])
        })"

definition state_parked :: "Snapshot \<Rightarrow> string \<Rightarrow> (Telescope, StateValue list) kitM" where
  "state_parked snap dev =
     (case Snapshot_Vector snap dev ''TELESCOPE_PARK'' of
        None \<Rightarrow> ret []
      | Some v \<Rightarrow> (case Vector_Member v ''PARK'' of
            None \<Rightarrow> ret []
          | Some mv \<Rightarrow>
              if \<not> m_On (mv_Member mv) \<or> v_State v = Busy then ret [VBool ''AtPark'' False]
              else do { a \<leftarrow> op_active te_parkOp parkOp_upd (v_Updated v); ret [VBool ''AtPark'' (\<not> a)] }))"

definition Telescope_DeviceState :: "Kit \<Rightarrow> (Telescope, StateValue list) kitM" where
  "Telescope_DeviceState k = do {
     snap \<leftarrow> Snap;
     if \<not> s_valid snap then ret []
     else do {
       dev \<leftarrow> DeviceName k;
       slewing \<leftarrow> state_slewing snap dev;
       parked \<leftarrow> state_parked snap dev;
       let tracking = (case Snapshot_Vector snap dev ''TELESCOPE_TRACK_STATE'' of None \<Rightarrow> []
         | Some v \<Rightarrow> (case Vector_Member v ''TRACK_ON'' of None \<Rightarrow> [] | Some mv \<Rightarrow> [VBool ''Tracking'' (m_On (mv_Member mv))]));
       ret (slewing @ state_value snap dev ''HORIZONTAL_COORD'' ''ALT'' ''Altitude'' @
         state_value snap dev ''HORIZONTAL_COORD'' ''AZ'' ''Azimuth'' @ tracking @ parked)
     }
   }"

definition Telescope_Validate :: "Snapshot \<Rightarrow> string \<Rightarrow> string list" where
  "Telescope_Validate snap device = Validate telescope_table telescope_consumed snap device"

definition Telescope_SupportedActions :: "Kit \<Rightarrow> (Telescope, string list) kitM" where
  "Telescope_SupportedActions k = Supported \<lparr>en_kit = k, en_consumed = telescope_consumed\<rparr>"

definition Telescope_Action ::
  "Kit \<Rightarrow> (string \<Rightarrow> string \<Rightarrow> string \<times> AlpacaError option) \<Rightarrow> string \<Rightarrow> string
    \<Rightarrow> (Telescope, string \<times> AlpacaError option) kitM" where
  "Telescope_Action k base name params =
     device_action \<lparr>en_kit = k, en_consumed = telescope_consumed\<rparr> base name params"

end
