(* ===== verification/Telescope_Facts.thy ===== *)
theory Telescope_Facts
  imports Device_Telescope
begin

text \<open>
  What the telescope promises: slews and syncs, the states it reports, the site and the clock.
\<close>

subsection \<open>Steps\<close>

lemma reads_tel [step_intros]:
  "reads (tel_member k vec elem)" "reads (tel_number k vec elem)" "reads (tel_switchOn k vec elem)" "reads (tel_writable k vec)"
  "reads (RightAscension k)" "reads (Declination k)" "reads (busy k vec)"
  unfolding tel_member_def tel_number_def tel_switchOn_def tel_writable_def RightAscension_def Declination_def busy_def
  by (intro step_intros)+

lemma run_and_then:
  "run_state (and_then m n) e = (case run_state m e of (Some er, e1) \<Rightarrow> (Some er, e1) | (None, e1) \<Rightarrow> run_state n e1)"
  by (simp add: and_then_def split: prod.splits option.splits)

text \<open>The world offers a property: the child is served and the snapshot has it.\<close>

definition offers :: "Kit \<Rightarrow> World \<Rightarrow> string \<Rightarrow> bool" where
  "offers k w vec \<longleftrightarrow> w_serving w \<and> Snapshot_Vector (w_snap w) (kit_name k (w_snap w)) vec \<noteq> None"

lemma Has_False:
  assumes "run_state (Has k vec) e = (False, e')"
  shows "\<exists>i. during e e' i \<and> \<not> offers k (e_world e i) vec"
proof (cases "w_serving (e_world e (e_clock e))")
  case True
  then show ?thesis using assms
    by (intro exI [of _ "Suc (e_clock e)"]) (auto simp: Has_def kit_lookup_def Avail_def Snap_def offers_def during_def)
next
  case False
  then show ?thesis using assms
    by (intro exI [of _ "e_clock e"]) (auto simp: Has_def kit_lookup_def Avail_def offers_def during_def)
qed

text \<open>A request of a mode: sent, or the driver was seen without modes.\<close>

abbreviation mode_cmd :: "string \<Rightarrow> string \<Rightarrow> Cmd" where
  "mode_cmd dev mode \<equiv> CSwitch dev ''ON_COORD_SET'' [mode] []"

abbreviation coords_cmd :: "string \<Rightarrow> f64 \<Rightarrow> f64 \<Rightarrow> Cmd" where
  "coords_cmd dev ra de \<equiv> CNumber dev ''EQUATORIAL_EOD_COORD'' [(''RA'', ra), (''DEC'', de)]"

lemma setCoordMode_run:
  assumes "run_state (setCoordMode k mode) e = (r, e')"
  shows "e_world e' = e_world e \<and> e_dev e' = e_dev e \<and> e_clock e < e_clock e' \<and>
    ((\<exists>dev. e_sent e' = e_sent e @ [mode_cmd dev mode]) \<or>
     r = None \<and> e_sent e' = e_sent e \<and> (\<exists>i. during e e' i \<and> \<not> offers k (e_world e i) ''ON_COORD_SET''))"
proof -
  obtain h e1 where h: "run_state (Has k ''ON_COORD_SET'') e = (h, e1)" by fastforce
  then have q: "e_sent e1 = e_sent e \<and> e_world e1 = e_world e \<and> e_dev e1 = e_dev e \<and> e_clock e \<le> e_clock e1"
    using readsD [OF reads_kit(8)] by blast
  show ?thesis
  proof (cases h)
    case True
    then show ?thesis using h assms q by (auto simp: setCoordMode_def run_send)
  next
    case False
    then have "r = None \<and> e' = e1" using h assms by (simp add: setCoordMode_def)
    moreover obtain i where "during e e1 i" "\<not> offers k (e_world e i) ''ON_COORD_SET''"
      using Has_False [of k "''ON_COORD_SET''" e e1] h False by auto
    ultimately show ?thesis using q by (auto simp: during_def)
  qed
qed

subsection \<open>Slews\<close>

text \<open>C34: A mount is never sent the coordinates of a slew in the mode of a sync: the coordinates that were
  asked for, if they are sent at all, directly follow the request of mode TRACK, unless the driver was
  seen without modes during the call; and a slew that succeeds sent them.\<close>

theorem slew_in_track_mode:
  assumes "run_state (slewAsync k ra de) e = (r, e')"
  shows "\<exists>cs. e_sent e' = e_sent e @ cs \<and> (r = None \<longrightarrow> cs \<noteq> []) \<and>
    (cs = [] \<or> (\<exists>dev. cs = [mode_cmd dev ''TRACK''] \<and> r \<noteq> None) \<or> (\<exists>dev dev'. cs = [mode_cmd dev ''TRACK'', coords_cmd dev' ra de]) \<or>
     (\<exists>dev i. cs = [coords_cmd dev ra de] \<and> during e e' i \<and> \<not> offers k (e_world e i) ''ON_COORD_SET''))"
proof (cases "w_serving (e_world e (e_clock e))")
  case False
  then show ?thesis using assms by (auto simp: slewAsync_def Avail_def)
next
  case True
  define e0 where "e0 = e\<lparr>e_clock := Suc (e_clock e)\<rparr>"
  obtain r1 e1 where m: "run_state (setCoordMode k ''TRACK'') e0 = (r1, e1)" by fastforce
  note mode = setCoordMode_run [OF m]
  show ?thesis
  proof (cases r1)
    case (Some er)
    then show ?thesis using assms True m mode by (auto simp: slewAsync_def Avail_def run_and_then e0_def)
  next
    case None
    then have s: "run_state (started slew_upd (SendNumber k ''EQUATORIAL_EOD_COORD'' [(''RA'', ra), (''DEC'', de)])) e1 = (r, e')"
      using assms True m by (simp add: slewAsync_def Avail_def run_and_then e0_def)
    obtain dev where "e_sent e' = e_sent e1 @ [coords_cmd dev ra de]" "e_clock e1 < e_clock e'"
      by (rule started_cases [OF s]) (auto simp: run_send)
    with mode show ?thesis by (fastforce simp: e0_def during_def)
  qed
qed

text \<open>A disjunction that is false was false at every disjunct.\<close>

lemma any_of_False:
  assumes "run_state (any_of (m # ms)) e = (False, e')"
  obtains e1 where "run_state m e = (False, e1)" "run_state (any_of ms) e1 = (False, e')"
  using assms by (auto split: if_splits prod.splits)

lemma any_of_after_reads:
  assumes "list_all reads ms" "run_state (any_of (ms @ ns)) e = (False, e')"
  shows "\<exists>e1. e_dev e1 = e_dev e \<and> e_world e1 = e_world e \<and> e_clock e \<le> e_clock e1 \<and> run_state (any_of ns) e1 = (False, e')"
  using assms
proof (induction ms arbitrary: e)
  case (Cons m ms)
  from Cons.prems(2) obtain e1 where m: "run_state m e = (False, e1)" and ms: "run_state (any_of (ms @ ns)) e1 = (False, e')"
    by (metis append_Cons any_of_False)
  have "reads m" using Cons.prems(1) by simp
  from readsD [OF this m] Cons.IH [OF _ ms] Cons.prems(1) show ?case by fastforce
qed auto

text \<open>A bit that is found finished: the child was lost, or the vector was updated after the start.\<close>

lemma bit_active_False:
  assumes "run_state (bit_active get upd k vec) e = (False, e')" "i_active (get (e_dev e))"
  shows "\<exists>i. during e e' i \<and> (\<not> w_serving (e_world e i) \<or> i_at (get (e_dev e)) < updated_at k (e_world e i) vec)"
proof (cases "w_serving (e_world e (e_clock e))")
  case True
  then show ?thesis using assms
    by (intro exI [of _ "Suc (e_clock e)"])
      (auto simp: bit_active_def run_UpdatedOf op_active_def Inflight_Active_def during_def split: if_splits)
next
  case False
  then show ?thesis using assms
    by (intro exI [of _ "e_clock e"]) (auto simp: bit_active_def run_UpdatedOf op_active_def Inflight_Active_def during_def split: if_splits)
qed

lemma bit_active_clock: "run_state (bit_active get upd k vec) e = (b, e') \<Longrightarrow> e_clock e \<le> e_clock e' \<and> e_world e' = e_world e"
  by (auto simp: bit_active_def run_UpdatedOf op_active_def split: if_splits prod.splits)

text \<open>C37: A slew that was started is reported as slewing until it is acknowledged: if a later poll, before
  anything else touched the bit of the slew, says that the mount does not slew, then at some instant of
  that poll the child was not serving, or the driver had updated the coordinates after the slew was
  started.\<close>

theorem slew_reported:
  assumes "run_state (slewAsync k ra de) e = (None, e1)" "te_slew (e_dev e2) = te_slew (e_dev e1)"
    "run_state (Slewing k) e2 = (False, e3)"
  shows "\<exists>i j. during e e1 j \<and> during e2 e3 i \<and> (\<not> w_serving (e_world e2 i) \<or>
    w_time (e_world e j) < updated_at k (e_world e2 i) ''EQUATORIAL_EOD_COORD'')"
proof -
  obtain e0 e0' where st: "run_state (started slew_upd (SendNumber k ''EQUATORIAL_EOD_COORD'' [(''RA'', ra), (''DEC'', de)])) e0 = (None, e1)"
    and m: "run_state (setCoordMode k ''TRACK'') e0' = (None, e0)" and e0': "e0' = e\<lparr>e_clock := Suc (e_clock e)\<rparr>"
    using assms(1) by (auto simp: slewAsync_def Avail_def run_and_then split: if_splits option.splits prod.splits)
  note mode = setCoordMode_run [OF m]
  have bit: "i_active (te_slew (e_dev e2))" "i_at (te_slew (e_dev e2)) = w_time (e_world e (e_clock e0))"
    using te_sl.started_marks [OF st sends_kit(2)] assms(2) mode e0' by simp_all
  have "e_clock e0 < e_clock e1" by (rule started_None [OF st]) (auto simp: run_send)
  then have j: "during e e1 (e_clock e0)" using mode e0' by (simp add: during_def)
  have r: "reads (do { d \<leftarrow> get_dev; ret (fst (te_axisMoving d) \<or> snd (te_axisMoving d)) })" by (intro step_intros)
  show ?thesis
  proof (cases "w_serving (e_world e2 (e_clock e2))")
    case False
    then show ?thesis using j bit assms(3)
      by (intro exI [of _ "e_clock e2"] exI [of _ "e_clock e0"])
        (auto simp: Slewing_def Avail_def forget_motion_def op_clear_def during_def)
  next
    case True
    define f0 where "f0 = e2\<lparr>e_clock := Suc (e_clock e2)\<rparr>"
    let ?bits = "[bit_active te_slew slew_upd k ''EQUATORIAL_EOD_COORD'', bit_active te_parkOp parkOp_upd k ''TELESCOPE_PARK'',
       bit_active te_home home_upd k ''TELESCOPE_HOME'']"
    let ?shown = "[busy k ''EQUATORIAL_EOD_COORD'', busy k ''HORIZONTAL_COORD'', busy k ''TELESCOPE_PARK'', busy k ''TELESCOPE_HOME'',
       do { d \<leftarrow> get_dev; ret (fst (te_axisMoving d) \<or> snd (te_axisMoving d)) }]"
    have "list_all reads ?shown" using r reads_tel(7) by simp
    moreover have "run_state (any_of (?shown @ ?bits)) f0 = (False, e3)"
      using assms(3) True by (simp add: Slewing_def Avail_def f0_def)
    ultimately obtain f5 where f5: "e_dev f5 = e_dev e2" "e_world f5 = e_world e2" "e_clock e2 \<le> e_clock f5"
      and a: "run_state (any_of ?bits) f5 = (False, e3)"
      using any_of_after_reads by (fastforce simp: f0_def simp del: any_of.simps)
    from a obtain f6 where b6: "run_state (bit_active te_slew slew_upd k ''EQUATORIAL_EOD_COORD'') f5 = (False, f6)"
      and a6: "run_state (any_of [bit_active te_parkOp parkOp_upd k ''TELESCOPE_PARK'', bit_active te_home home_upd k ''TELESCOPE_HOME'']) f6 = (False, e3)"
      by (rule any_of_False)
    from a6 obtain f7 where f7: "run_state (bit_active te_parkOp parkOp_upd k ''TELESCOPE_PARK'') f6 = (False, f7)"
      and a7: "run_state (any_of [bit_active te_home home_upd k ''TELESCOPE_HOME'']) f7 = (False, e3)"
      by (rule any_of_False)
    from a7 obtain f8 where f8: "run_state (bit_active te_home home_upd k ''TELESCOPE_HOME'') f7 = (False, f8)"
      and "run_state (any_of []) f8 = (False, e3)"
      by (rule any_of_False)
    then have "e_clock f6 \<le> e_clock e3" using bit_active_clock [OF f7] bit_active_clock [OF f8] by simp
    moreover obtain i where "during f5 f6 i" "\<not> w_serving (e_world e2 i) \<or> w_time (e_world e (e_clock e0)) < updated_at k (e_world e2 i) ''EQUATORIAL_EOD_COORD''"
      using bit_active_False [OF b6] bit f5 by auto
    ultimately show ?thesis using f5(3) j by (intro exI [of _ i] exI [of _ "e_clock e0"]) (simp add: during_def)
  qed
qed

subsection \<open>Syncs\<close>

lemma sends_and_then: "sends m \<Longrightarrow> sends n \<Longrightarrow> sends (and_then m n)"
  unfolding and_then_def by (intro sends_bind) (auto intro: reads_sends step_intros split: option.splits)

lemma sends_tel:
  "sends (setCoordMode k mode)" "sends (enable_alignment k)" "sends (send_sync k ra de)"
proof -
  show m: "sends (setCoordMode k mode)" for mode
    unfolding setCoordMode_def by (intro sends_bind reads_sends [OF reads_kit(8)]) (auto intro: reads_sends step_intros)
  show a: "sends (enable_alignment k)"
    unfolding enable_alignment_def
    by (intro sends_bind reads_sends [OF reads_kit(8)]) (auto intro!: reads_sends [OF reads_tel(3)] sends_kit intro: reads_sends step_intros)
  show "sends (send_sync k ra de)"
    unfolding send_sync_def by (intro sends_and_then m a sends_kit)
qed

lemma reads_sync_wait: "reads (sync_wait fuel k ra de deadline)"
  by (induction fuel) (auto intro!: step_intros)

lemma enable_alignment_sent:
  assumes "run_state (enable_alignment k) e = (r, e')"
  shows "\<exists>cs. e_sent e' = e_sent e @ cs \<and> (cs = [] \<or> (\<exists>d. cs = [CSwitch d ''ALIGNMENT_SUBSYSTEM_ACTIVE'' [''ALIGNMENT SUBSYSTEM ACTIVE''] []]))"
proof -
  obtain h e1 where h: "run_state (Has k ''ALIGNMENT_SUBSYSTEM_ACTIVE'') e = (h, e1)" by fastforce
  obtain b e2 where b: "run_state (tel_switchOn k ''ALIGNMENT_SUBSYSTEM_ACTIVE'' ''ALIGNMENT SUBSYSTEM ACTIVE'') e1 = (b, e2)" by fastforce
  show ?thesis
    using assms h b readsD [OF reads_kit(8) h] readsD [OF reads_tel(3) b]
    by (cases h; cases b) (auto simp: enable_alignment_def run_send)
qed

lemma sync_wait_stops:
  assumes "\<And>i. n \<le> i \<Longrightarrow> deadline \<le> w_time (e_world e i)" "n - e_clock e < fuel"
  shows "fst (run_state (sync_wait fuel k ra de deadline) e) \<noteq> None"
  using assms
proof (induction fuel arbitrary: e)
  case (Suc fuel)
  obtain st e2 where st: "run_state (StateOf k ''EQUATORIAL_EOD_COORD'') (e\<lparr>e_clock := Suc (e_clock e)\<rparr>) = (st, e2)" by fastforce
  obtain x e3 where x: "run_state (RightAscension k) e2 = (x, e3)" by fastforce
  let ?near = "if f_lt (f_abs (f_sub x ra)) (rnd (5 / 100))
     then do { d \<leftarrow> Declination k; ret (f_lt (f_abs (f_sub d de)) (rnd (25 / 100))) } else ret False"
  obtain b e4 where b: "run_state ?near e3 = (b, e4)" by fastforce
  have "reads ?near" by (auto intro!: step_intros)
  with readsD [OF reads_kit(10) st] readsD [OF reads_tel(5) x] readsD [OF _ b]
  have e4: "e_world e4 = e_world e" "Suc (e_clock e) \<le> e_clock e4" by auto
  have "fst (run_state (sync_wait fuel k ra de deadline) (e4\<lparr>e_clock := Suc (e_clock e4)\<rparr>)) \<noteq> None"
    if "\<not> deadline \<le> w_time (e_world e (e_clock e))"
  proof (rule Suc.IH)
    have "e_clock e < n" using Suc.prems(1) that not_le by blast
    then show "n - e_clock (e4\<lparr>e_clock := Suc (e_clock e4)\<rparr>) < fuel" using Suc.prems(2) e4(2) by simp
  qed (use Suc.prems(1) e4 in simp)
  then show ?case using st x b by (auto simp: Now_def not_less)
qed simp



text \<open>An old Alert is taken for the answer to a sync: if the coordinates were in state Alert before the
  sync, it is reported as refused although the driver had no time to answer, the coordinates were sent,
  and the mount is left in mode SYNC.\<close>

theorem stale_alert_refuses_sync:
  assumes "\<And>i. e_world e i = w" "w_serving w" "w_send w = None" "serves k w ''ON_COORD_SET'' m"
    "serves k w ''EQUATORIAL_EOD_COORD'' v" "v_State v = Alert" "v_Updated v < w_time w"
    "Snapshot_Vector (w_snap w) (kit_name k (w_snap w)) ''ALIGNMENT_SUBSYSTEM_ACTIVE'' = None" "0 < fuel"
  shows "\<exists>er e'. run_state (SyncToCoordinates fuel k ra de) e = (Some (Some er), e') \<and> ErrNumber er = ErrNumDriverBase \<and>
    (let dev = kit_name k (w_snap w) in e_sent e' = e_sent e @ [mode_cmd dev ''SYNC'', coords_cmd dev ra de])"
proof -
  obtain n where n: "fuel = Suc n" using assms(9) gr0_implies_Suc by blast
  note l = serves_lookup [OF assms(4)] serves_lookup [OF assms(5)]
  show ?thesis
    using assms(1-3,6,8) l
    by (simp add: n SyncToCoordinates_def syncCoords_def send_sync_def enable_alignment_def setCoordMode_def run_and_then Has_def
        kit_lookup_def Avail_def Snap_def run_send Now_def run_StateOf DriverError_def Let_def)
qed

subsection \<open>Motion that is reported\<close>

text \<open>A manual motion that was refused is reported as slewing: the axis counts as moving although the
  command that should have set it moving failed, until an abort, a stop or the loss of the child.\<close>

theorem refused_motion_slews:
  assumes "run_state (MoveAxis k axis rate) e = (Some er, e1)" "er \<noteq> NotImplemented ''MoveAxis''" "\<not> f_eq rate (Fin 0)"
    "w_serving (e_world e1 (e_clock e1))"
  shows "fst (run_state (Slewing k) e1) = True"
proof -
  obtain vec pos neg where p: "axisProps axis = Some (vec, pos, neg)"
    using assms(1,2) by (cases axis) (auto simp: MoveAxis_def)
  obtain h e0 where h: "run_state (Has k vec) e = (h, e0)" by fastforce
  then have "te_axisMoving (e_dev e1) = te_axisMoving (set_moving axis True (e_dev e0))"
    using assms(1-3) p by (auto simp: MoveAxis_def run_send split: if_splits)
  then have moving: "fst (te_axisMoving (e_dev e1)) \<or> snd (te_axisMoving (e_dev e1))"
    by (auto simp: set_moving_def split: prod.splits)
  show ?thesis
  proof (rule ccontr)
    assume "fst (run_state (Slewing k) e1) \<noteq> True"
    then obtain e3 where f: "run_state (Slewing k) e1 = (False, e3)" by (metis (full_types) prod.collapse)
    let ?shown = "[busy k ''EQUATORIAL_EOD_COORD'', busy k ''HORIZONTAL_COORD'', busy k ''TELESCOPE_PARK'', busy k ''TELESCOPE_HOME'']"
    let ?axis = "do { d \<leftarrow> get_dev; ret (fst (te_axisMoving d) \<or> snd (te_axisMoving d)) }"
    let ?bits = "[bit_active te_slew slew_upd k ''EQUATORIAL_EOD_COORD'', bit_active te_parkOp parkOp_upd k ''TELESCOPE_PARK'',
       bit_active te_home home_upd k ''TELESCOPE_HOME'']"
    have "list_all reads ?shown" using reads_tel(7) by simp
    moreover have "run_state (any_of (?shown @ ?axis # ?bits)) (e1\<lparr>e_clock := Suc (e_clock e1)\<rparr>) = (False, e3)"
      using f assms(4) by (simp add: Slewing_def Avail_def)
    ultimately obtain f5 where "e_dev f5 = e_dev e1" "run_state (any_of (?axis # ?bits)) f5 = (False, e3)"
      using any_of_after_reads by (fastforce simp del: any_of.simps)
    then show False using moving by simp
  qed
qed

text \<open>The batch of states and the member \<^verbatim>\<open>Slewing\<close> disagree during a slew in altitude and azimuth: while
  the driver shows the horizontal coordinates Busy and everything else at rest, the member answers that
  the mount slews and the batch that it does not.\<close>

theorem batch_misses_altaz_slew:
  assumes "\<And>i. e_world e i = w" "w_serving w" "serves k w ''HORIZONTAL_COORD'' h" "v_State h = Busy"
    "serves k w ''EQUATORIAL_EOD_COORD'' v" "v_State v = Ok" "\<not> i_active (te_slew (e_dev e))" "te_axisMoving (e_dev e) = (False, False)"
    "\<And>vec. vec \<in> {''TELESCOPE_PARK'', ''TELESCOPE_HOME''} \<Longrightarrow> Snapshot_Vector (w_snap w) (kit_name k (w_snap w)) vec = None"
  shows "fst (run_state (Slewing k) e) = True \<and> VBool ''Slewing'' False \<in> set (fst (run_state (Telescope_DeviceState k) e))"
proof -
  note l = serves_lookup [OF assms(3)] serves_lookup [OF assms(5)]
  have "fst (run_state (Slewing k) e) = True"
    using assms(1,2,4,6) l by (simp add: Slewing_def Avail_def busy_def run_StateOf)
  moreover have "VBool ''Slewing'' False \<in> set (fst (run_state (Telescope_DeviceState k) e))"
    using assms(1,2,6-9) l
    by (simp add: Telescope_DeviceState_def Snap_def DeviceName_def state_slewing_def still_def op_active_def Inflight_Active_def
        state_parked_def Let_def)
  ultimately show ?thesis by simp
qed

subsection \<open>Site and clock\<close>

text \<open>The values a vector write collects: those of the last member of each name.\<close>

lemma map_of_fold_update:
  "map_of (fold (\<lambda>x. AList.update (f x) (g x)) xs acc) = map_of acc ++ map_of (rev (map (\<lambda>x. (f x, g x)) xs))"
  by (induction xs arbitrary: acc) (simp_all add: gomap_of_update map_add_upd_left [symmetric] fun_eq_iff map_add_def split: option.splits)

definition current_values :: "Vector \<Rightarrow> string \<Rightarrow> f64 option" where
  "current_values v = map_of (rev (map (\<lambda>mv. (m_Name (mv_Member mv), m_Value (mv_Member mv))) (v_Members v)))"

lemma vector_values_map: "map_of (vector_values v) = current_values v"
  unfolding vector_values_def current_values_def
  using map_of_fold_update [of "\<lambda>mv. m_Name (mv_Member mv)" "\<lambda>mv. m_Value (mv_Member mv)" "v_Members v" "[]"] by simp

lemma site_changed_sent:
  assumes "run_state (site_changed k elem) e = (r, e')"
  shows "\<exists>cs. e_sent e' = e_sent e @ cs \<and> (\<forall>c\<in>set cs. \<exists>dev vec on off. c = CSwitch dev vec on off) \<and> e_clock e \<le> e_clock e'"
proof -
  let ?has = "if elem \<noteq> ''ELEV'' then Has k ''ALIGNMENT_POINTSET_ACTION'' else ret False"
  obtain h e1 where h: "run_state ?has e = (h, e1)" by fastforce
  have "reads ?has" by (auto intro!: step_intros)
  from readsD [OF this h] have e1: "e_sent e1 = e_sent e" "e_clock e \<le> e_clock e1" by simp_all
  show ?thesis
  proof (cases h)
    case True
    then have "run_state (clear_alignment k) e1 = (r, e')" using assms h by (simp add: site_changed_def)
    then show ?thesis using e1 by (auto simp: clear_alignment_def run_and_then run_send split: option.splits)
  next
    case False
    then show ?thesis using assms h e1 by (auto simp: site_changed_def)
  qed
qed

text \<open>C38: A place is only ever written as a whole: what is sent first is one number command with the value of
  every member the driver was seen with during the call, the one that was set aside, which lies within
  the driver's range; the rest are the switches that clear the alignment. Or nothing is sent and an
  error returned.\<close>

theorem site_written_whole:
  assumes "run_state (setSite k elem x) e = (r, e')"
  shows "e_sent e' = e_sent e \<and> r \<noteq> None \<or>
    (\<exists>v i dev vals cs. during e e' i \<and> serves k (e_world e i) ''GEOGRAPHIC_COORD'' v \<and>
      e_sent e' = e_sent e @ CNumber dev ''GEOGRAPHIC_COORD'' vals # cs \<and> map_of vals = (current_values v)(elem \<mapsto> x) \<and>
      (\<forall>c\<in>set cs. \<exists>dev vec on off. c = CSwitch dev vec on off) \<and>
      (case Vector_Member v elem of None \<Rightarrow> True | Some mv \<Rightarrow> \<not> out_of_range (mv_Member mv) x))"
proof -
  obtain rv e1 where rv: "run_state (Kit_Vector k ''GEOGRAPHIC_COORD'') e = (rv, e1)" by fastforce
  then have q: "e_sent e1 = e_sent e \<and> e_world e1 = e_world e" using readsD [OF reads_kit(6)] by blast
  show ?thesis
  proof (cases rv)
    case (Inl er)
    then show ?thesis using assms rv q by (auto simp: setSite_def)
  next
    case (Inr v)
    note served = kit_vector_serves [OF rv [unfolded Kit_Vector_def Inr]]
    show ?thesis
    proof (cases "\<exists>mv. Vector_Member v elem = Some mv \<and> out_of_range (mv_Member mv) x")
      case True
      then show ?thesis using assms rv Inr q by (auto simp: setSite_def)
    next
      case False
      let ?vals = "AList.update elem x (vector_values v)"
      obtain r2 e2 where n: "run_state (SendNumber k ''GEOGRAPHIC_COORD'' ?vals) e1 = (r2, e2)" by fastforce
      then obtain dev where n': "e_sent e2 = e_sent e1 @ [CNumber dev ''GEOGRAPHIC_COORD'' ?vals]" "e_clock e1 < e_clock e2"
        by (auto simp: run_send)
      have "run_state (and_then (SendNumber k ''GEOGRAPHIC_COORD'' ?vals) (site_changed k elem)) e1 = (r, e')"
        using assms rv Inr False by (auto simp: setSite_def Let_def split: if_splits)
      then have "e' = e2 \<or> run_state (site_changed k elem) e2 = (r, e')" using n by (auto simp: run_and_then split: option.splits)
      then obtain cs where "e_sent e' = e_sent e2 @ cs" "\<forall>c\<in>set cs. \<exists>dev vec on off. c = CSwitch dev vec on off" "e_clock e2 \<le> e_clock e'"
      proof
        assume "e' = e2"
        then show thesis using that [of "[]"] by simp
      next
        assume "run_state (site_changed k elem) e2 = (r, e')"
        from site_changed_sent [OF this] show thesis using that by blast
      qed
      then show ?thesis
        using served n' q False
        by (intro disjI2 exI [of _ v] exI [of _ "Suc (e_clock e)"] exI [of _ dev] exI [of _ ?vals] exI [of _ cs])
          (auto simp: during_def gomap_of_update vector_values_map split: option.splits)
    qed
  qed
qed

text \<open>The times a layout prints are those it parses.\<close>

lemma parseUTC_printed:
  assumes "0 \<le> year_of t" "year_of t < 10000" shows "parseUTC (format_utc t) = Some (t - t mod 10 ^ 9)"
  using parse_printed_seconds [OF assms]
  by (simp add: parseUTC_def utcLayouts_def seconds_def minus_mod_eq_div_mult)

text \<open>C39: A date that was set is the date that is read, to the second: once the driver shows the text it was
  sent, the member answers the instant that was set, printed in the ASCOM form, whatever layout and zone
  it was set in, as long as its year in UTC has four digits.\<close>

theorem UTCDate_roundtrip:
  assumes "run_state (SetUTCDate k s) e = (r, e1)" "e_sent e1 = e_sent e @ [CText dev ''TIME_UTC'' vals]"
    "parseUTC s = Some t" "0 \<le> year_of t" "year_of t < 10000"
    "\<And>i. e_world e2 i = w2" "w_serving w2" "serves k w2 ''TIME_UTC'' v" "Vector_Member v ''UTC'' = Some mv"
    "map_of vals ''UTC'' = Some (m_Text (mv_Member mv))"
  shows "fst (run_state (UTCDate k) e2) = format_utc_ms (t - t mod 10 ^ 9)"
proof -
  obtain h e3 where h: "run_state (Has k ''TIME_UTC'') e = (h, e3)" by fastforce
  obtain rv e4 where rv: "run_state (Kit_Vector k ''TIME_UTC'') e3 = (rv, e4)" by fastforce
  have "e_sent e3 = e_sent e \<and> e_sent e4 = e_sent e" using readsD [OF reads_kit(8) h] readsD [OF reads_kit(6) rv] by simp
  then have "map_of vals ''UTC'' = Some (format_utc t)"
    using assms(1-3) h rv by (auto simp: SetUTCDate_def utcToINDI_def run_send Let_def split: if_splits sum.splits)
  then have "m_Text (mv_Member mv) = format_utc t" using assms(10) by simp
  then have "utcToASCOM (m_Text (mv_Member mv)) = Some (format_utc_ms (t - t mod 10 ^ 9))"
    using parseUTC_printed [OF assms(4,5)] by (simp add: utcToASCOM_def)
  then show ?thesis
    using still_reads(3) [OF assms(6-8)] assms(9) by (simp add: UTCDate_def tel_member_def)
qed

text \<open>A sum of dyadic numbers that needs no rounding.\<close>

lemma rnd_dyadic:
  assumes "q = of_int m / 2 ^ j" "\<bar>q\<bar> < 2 ^ n" "n + j = 53" shows "rnd q = Fin q"
proof -
  have pos: "rnd p = Fin p" if p: "0 < p" "p < 2 ^ n" "p = of_int k / 2 ^ j" for p :: rat and k :: int
  proof -
    define u where "u = ulp_exp p"
    have u: "u \<le> - int j" using ulp_exp_le [OF p(1,2)] assms(3) by (simp add: u_def)
    have "of_int (k * 2 ^ nat (- int j - u)) * (2 :: rat) powi u = of_int k * (2 powi (- int j - u) * 2 powi u)"
      using u by (simp add: power_int_def)
    also have "\<dots> = of_int k * 2 powi (- int j)" by (simp flip: power_int_add)
    also have "\<dots> = p" using p(3) by (simp add: power_int_minus field_simps)
    finally have "p = of_int (k * 2 ^ nat (- int j - u)) * 2 powi ulp_exp p" by (simp add: u_def)
    moreover have "p < f64_limit"
    proof -
      have "(2 :: rat) ^ n \<le> 2 ^ 53" using assms(3) by (intro power_increasing) simp_all
      then show ?thesis using p(2) by (simp add: f64_limit_def)
    qed
    ultimately have "is_f64 p" using is_f64_iff [OF p(1)] by blast
    then show ?thesis by (simp add: is_f64_def)
  qed
  consider "q = 0" | "0 < q" | "q < 0" by linarith
  then show ?thesis
  proof cases
    case 2
    then have "q < 2 ^ n" using assms(2) by linarith
    with 2 show ?thesis by (rule pos) (rule assms(1))
  next
    case 3
    then have "0 < - q" "- q < 2 ^ n" using assms(2) by linarith+
    moreover have "- q = of_int (- m) / 2 ^ j" using assms(1) by simp
    ultimately have "rnd (- q) = Fin (- q)" by (rule pos)
    then show ?thesis using rnd_minus [of "- q"] by simp
  qed simp
qed

text \<open>A longitude survives the change of convention: every longitude above -180 and up to 180 degrees that
  is a multiple of two to the minus forty-fourth of a degree is read as it was set.\<close>

theorem longitude_roundtrip:
  assumes "q = of_int m / 2 ^ 44" "- 180 < q" "q \<le> 180"
  shows "longitudeToASCOM (longitudeToINDI (Fin q)) = Fin q"
proof (cases "q < 0")
  case True
  have "q + 360 = of_int (m + 360 * 2 ^ 44) / 2 ^ 44" by (simp add: assms(1) field_simps)
  then have "rnd (q + 360) = Fin (q + 360)" using assms True by (intro rnd_dyadic [of _ "m + 360 * 2 ^ 44" 44 9]) auto
  moreover have "rnd q = Fin q" using assms by (intro rnd_dyadic [of _ m 44 9]) auto
  ultimately show ?thesis using True assms(2) by (simp add: longitudeToINDI_def longitudeToASCOM_def f_sub_def)
next
  case False
  then show ?thesis using assms by (simp add: longitudeToINDI_def longitudeToASCOM_def)
qed

subsection \<open>The properties at work\<close>

text \<open>A mount with modes, its coordinates in a given state, and what else is given.\<close>

definition mount_env :: "State \<Rightarrow> Vector gomap \<Rightarrow> Telescope Env" where
  "mount_env st vs = sample_env ([(''ON_COORD_SET'', sample_vector ''ON_COORD_SET'' Ok []),
     (''EQUATORIAL_EOD_COORD'', sample_vector ''EQUATORIAL_EOD_COORD'' st [])] @ vs) new_telescope"

lemma mount_env_simps [simp]: "w_serving (e_world (mount_env st vs) i)" "e_sent (mount_env st vs) = []"
  by (simp_all add: mount_env_def)

theorem slew_in_track_mode_witness:
  "e_sent (snd (run_state (slewAsync ''C'' (Fin 1) (Fin 2)) (mount_env Ok []))) = [mode_cmd ''C'' ''TRACK'', coords_cmd ''C'' (Fin 1) (Fin 2)] \<and>
   (\<exists>cs. e_sent (snd (run_state (slewAsync ''C'' (Fin 1) (Fin 2)) (mount_env Ok []))) = [] @ cs)"
proof
  show "e_sent (snd (run_state (slewAsync ''C'' (Fin 1) (Fin 2)) (mount_env Ok []))) = [mode_cmd ''C'' ''TRACK'', coords_cmd ''C'' (Fin 1) (Fin 2)]"
    by code_simp
  show "\<exists>cs. e_sent (snd (run_state (slewAsync ''C'' (Fin 1) (Fin 2)) (mount_env Ok []))) = [] @ cs"
    using slew_in_track_mode [of "''C''" "Fin 1" "Fin 2" "mount_env Ok []"] by (auto simp: mount_env_def sample_env_def split: prod.splits)
qed


theorem stale_alert_refuses_sync_witness:
  "\<exists>er e'. run_state (SyncToCoordinates 1 ''C'' (Fin 1) (Fin 2)) (mount_env Alert []) = (Some (Some er), e') \<and>
    e_sent e' = [mode_cmd ''C'' ''SYNC'', coords_cmd ''C'' (Fin 1) (Fin 2)]"
proof -
  let ?e = "mount_env Alert []"
  have still: "e_world ?e i = e_world ?e 0" for i by (simp add: mount_env_def sample_env_def)
  have s: "serves ''C'' (e_world ?e 0) ''ON_COORD_SET'' (sample_vector ''ON_COORD_SET'' Ok [])"
    "serves ''C'' (e_world ?e 0) ''EQUATORIAL_EOD_COORD'' (sample_vector ''EQUATORIAL_EOD_COORD'' Alert [])"
    unfolding mount_env_def by (rule sample_env_serves, simp)+
  have n: "kit_name ''C'' (w_snap (e_world ?e 0)) = ''C''" by (simp add: kit_name_def)
  have "Snapshot_Vector (w_snap (e_world ?e 0)) ''C'' ''ALIGNMENT_SUBSYSTEM_ACTIVE'' = None"
    by (simp add: mount_env_def sample_env_def Snapshot_Vector_def props_of_def)
  from stale_alert_refuses_sync [OF still _ _ s, of 1 "Fin 1" "Fin 2"] this n show ?thesis
    by (auto simp: mount_env_def sample_env_def sample_vector_def def_vector_def zero_element_def Let_def)
qed


theorem refused_motion_slews_witness:
  "\<exists>e1. fst (run_state (Slewing ''C'') e1) = True \<and> te_axisMoving (e_dev e1) = (True, False)"
proof -
  let ?vs = "[(''TELESCOPE_MOTION_WE'', sample_vector ''TELESCOPE_MOTION_WE'' Ok [])]"
  let ?e = "(mount_env Ok ?vs)\<lparr>e_world := \<lambda>_. (e_world (mount_env Ok ?vs) 0)\<lparr>w_send := Some (OtherErr ''broken pipe'')\<rparr>\<rparr>"
  let ?r = "run_state (MoveAxis ''C'' AxisPrimary (Fin 1)) ?e"
  let ?er = "DriverError [Lit ''write to driver failed''] [Lit ''broken pipe'']"
  have er: "fst ?r = Some ?er" and m: "te_axisMoving (e_dev (snd ?r)) = (True, False)"
    and sv: "w_serving (e_world (snd ?r) (e_clock (snd ?r)))" by code_simp+
  have r: "?r = (Some ?er, snd ?r)" using er by (metis prod.collapse)
  have ne: "?er \<noteq> NotImplemented ''MoveAxis''" "\<not> f_eq (Fin 1) (Fin 0)"
    by (simp_all add: DriverError_def NotImplemented_def f_eq_def)
  have "fst (run_state (Slewing ''C'') (snd ?r)) = True" by (rule refused_motion_slews [OF r ne sv])
  with m show ?thesis by blast
qed

theorem batch_misses_altaz_slew_witness:
  "\<exists>e. fst (run_state (Slewing ''C'') e) = True \<and> VBool ''Slewing'' False \<in> set (fst (run_state (Telescope_DeviceState ''C'') e))"
proof -
  let ?h = "sample_vector ''HORIZONTAL_COORD'' Busy []" and ?v = "sample_vector ''EQUATORIAL_EOD_COORD'' Ok []"
  let ?e = "mount_env Ok [(''HORIZONTAL_COORD'', ?h)]"
  have still: "e_world ?e i = e_world ?e 0" for i by (simp add: mount_env_def sample_env_def)
  have h: "serves ''C'' (e_world ?e 0) ''HORIZONTAL_COORD'' ?h" and v: "serves ''C'' (e_world ?e 0) ''EQUATORIAL_EOD_COORD'' ?v"
    unfolding mount_env_def by (rule sample_env_serves, simp)+
  show ?thesis
    by (rule exI [of _ ?e], rule batch_misses_altaz_slew [OF still _ h _ v])
      (auto simp: mount_env_def sample_env_def sample_vector_def def_vector_def zero_element_def new_telescope_def Snapshot_Vector_def props_of_def kit_name_def Let_def)
qed

theorem slew_reported_witness:
  "\<exists>e1 e3. run_state (slewAsync ''C'' (Fin 1) (Fin 2)) (mount_env Ok []) = (None, e1) \<and>
    run_state (Slewing ''C'') (e1\<lparr>e_world := \<lambda>_. (e_world e1 0)\<lparr>w_serving := False\<rparr>\<rparr>) = (False, e3) \<and>
    (\<exists>i. during (e1\<lparr>e_world := \<lambda>_. (e_world e1 0)\<lparr>w_serving := False\<rparr>\<rparr>) e3 i)"
proof -
  let ?r = "run_state (slewAsync ''C'' (Fin 1) (Fin 2)) (mount_env Ok [])"
  have "fst ?r = None" by code_simp
  then have r: "?r = (None, snd ?r)" by (metis prod.collapse)
  let ?e2 = "(snd ?r)\<lparr>e_world := \<lambda>_. (e_world (snd ?r) 0)\<lparr>w_serving := False\<rparr>\<rparr>"
  have "fst (run_state (Slewing ''C'') ?e2) = False" by (simp add: Slewing_def Avail_def case_prod_unfold)
  then have s: "run_state (Slewing ''C'') ?e2 = (False, snd (run_state (Slewing ''C'') ?e2))" by (metis prod.collapse)
  from slew_reported [OF r _ s] show ?thesis using r s by fastforce
qed

theorem site_written_whole_witness:
  "\<exists>dev vals. e_sent (snd (run_state (SetSiteLatitude ''C'' (Fin 3))
      (mount_env Ok [(''GEOGRAPHIC_COORD'', sample_vector ''GEOGRAPHIC_COORD'' Ok [zero_member\<lparr>m_Name := ''LONG'', m_Value := Fin 9\<rparr>])]))) =
    [CNumber dev ''GEOGRAPHIC_COORD'' vals] \<and> map_of vals ''LAT'' = Some (Fin 3)"
proof -
  let ?e = "mount_env Ok [(''GEOGRAPHIC_COORD'', sample_vector ''GEOGRAPHIC_COORD'' Ok [zero_member\<lparr>m_Name := ''LONG'', m_Value := Fin 9\<rparr>])]"
  let ?r = "run_state (setSite ''C'' ''LAT'' (Fin 3)) ?e"
  have n: "length (e_sent (snd ?r)) = 1" by code_simp
  have "e_sent ?e = []" by (simp add: mount_env_def)
  with site_written_whole [of "''C''" "''LAT''" "Fin 3" ?e "fst ?r" "snd ?r"] n show ?thesis
    by (auto simp: SetSiteLatitude_def)
qed

theorem UTCDate_roundtrip_witness:
  "\<exists>e e2. e_sent (snd (run_state (SetUTCDate ''C'' ''2026-03-01T00:30:00+01:00'') e)) =
      [CText ''C'' ''TIME_UTC'' [(''UTC'', ''2026-02-28T23:30:00''), (''OFFSET'', ''0'')]] \<and>
    fst (run_state (UTCDate ''C'') e2) = ''2026-02-28T23:30:00.000Z''"
proof -
  let ?v = "sample_vector ''TIME_UTC'' Ok [zero_member\<lparr>m_Name := ''UTC'', m_Text := ''2026-02-28T23:30:00''\<rparr>]"
  let ?e = "mount_env Ok [(''TIME_UTC'', ?v)]" and ?s = "''2026-03-01T00:30:00+01:00''"
  let ?r = "run_state (SetUTCDate ''C'' ?s) ?e"
  let ?t = "63907918200000000000 :: int"
  have p: "parseUTC ?s = Some ?t" and y: "year_of ?t = 2026" by code_simp+
  have fmt: "format_utc ?t = ''2026-02-28T23:30:00''"
    by (simp add: format_utc_def seconds_def civil_def Let_def month_lengths_def leap_def padded_def padded_year_def
        dec.simps char_of_def; simp add: numeral_2_eq_2 bit_0)
  then have ms: "format_utc_ms (?t - ?t mod 10 ^ 9) = ''2026-02-28T23:30:00.000Z''"
    by (simp add: format_utc_ms_def padded_def dec.simps char_of_def; simp add: numeral_2_eq_2 bit_0)
  have sent: "e_sent (snd ?r) = [CText ''C'' ''TIME_UTC'' [(''UTC'', ''2026-02-28T23:30:00''), (''OFFSET'', ''0'')]]"
    by (simp add: SetUTCDate_def utcToINDI_def p fmt mount_env_def sample_env_def Has_def kit_lookup_def Avail_def Snap_def
        Snapshot_Vector_def props_of_def kit_name_def Kit_Vector_def run_kit_vector Let_def run_send sample_vector_def def_vector_def
        Vector_Member_def index_members_def zero_element_def zero_member_def)
  have still: "e_world ?e i = e_world ?e 0" for i by (simp add: mount_env_def sample_env_def)
  have s: "serves ''C'' (e_world ?e 0) ''TIME_UTC'' ?v" unfolding mount_env_def by (rule sample_env_serves) simp
  have m: "Vector_Member ?v ''UTC'' = Some \<lparr>mv_Member = zero_member\<lparr>m_Name := ''UTC'', m_Text := ''2026-02-28T23:30:00''\<rparr>, mv_Arrived = 5\<rparr>"
    using sample_vector_member [of _ _ "zero_member\<lparr>m_Name := ''UTC'', m_Text := ''2026-02-28T23:30:00''\<rparr>"] by (simp add: zero_member_def)
  have "fst (run_state (UTCDate ''C'') ?e) = format_utc_ms (?t - ?t mod 10 ^ 9)"
    by (rule UTCDate_roundtrip [of _ ?s ?e "fst ?r" "snd ?r" "''C''" "[(''UTC'', ''2026-02-28T23:30:00''), (''OFFSET'', ''0'')]", OF _ _ p _ _ still _ s m])
      (simp_all add: y sent)
  with sent ms show ?thesis by metis
qed

theorem longitude_roundtrip_witness: "longitudeToASCOM (longitudeToINDI (Fin (- 71))) = Fin (- 71)"
  by (rule longitude_roundtrip [of _ "- 71 * 2 ^ 44"]) simp_all

end
