(* ===== verification/Snapshot_Typed.thy ===== *)
theory Snapshot_Typed
  imports Wire_Limits Snapshot_Store
begin

text \<open>
  The parser and the snapshot store together: what a driver can make a reader of a snapshot see.
\<close>

definition vector_typed :: "Vector \<Rightarrow> bool" where
  "vector_typed v \<longleftrightarrow>
     list_all (\<lambda>s. length s \<le> maxToken) [v_Device v, v_Name v, v_Label v, v_Group v, v_Timestamp v, v_Message v] \<and>
     length (v_Members v) \<le> maxMembers \<and> list_all (\<lambda>mv. member_bounded (mv_Member mv)) (v_Members v)"

definition map_typed :: "vmap \<Rightarrow> bool" where
  "map_typed m \<longleftrightarrow> (\<forall>k v. m k = Some v \<longrightarrow> vector_typed v)"

lemma def_vector_typed: "element_bounded el \<Longrightarrow> vector_typed (def_vector el now)"
  by (auto simp: element_bounded_def vector_typed_def def_vector_def list_all_iff member_bounded_def member_ok_def)

lemma set_member_typed:
  "member_bounded m \<Longrightarrow> member_bounded (mv_Member mv) \<Longrightarrow> member_bounded (mv_Member (set_member now m mv))"
  by (auto simp: set_member_def Let_def member_bounded_def member_ok_def)

lemma set_members_typed:
  assumes "list_all member_bounded ms" "list_all (\<lambda>mv. member_bounded (mv_Member mv)) mvs"
  shows "list_all (\<lambda>mv. member_bounded (mv_Member mv)) (fst (set_members now idx ms (mvs, n))) \<and>
    length (fst (set_members now idx ms (mvs, n))) = length mvs"
  using assms
proof (induction ms arbitrary: mvs n)
  case (Cons m ms)
  show ?case
  proof (cases "map_of idx (m_Name m)")
    case (Some i)
    have "list_all (\<lambda>mv. member_bounded (mv_Member mv)) (mvs[i := set_member now m (mvs ! i)])"
    proof (cases "i < length mvs")
      case True
      then have "member_bounded (mv_Member (set_member now m (mvs ! i)))"
        using Cons.prems by (intro set_member_typed) (simp_all add: list_all_iff)
      then show ?thesis using Cons.prems(2) by (auto simp: list_all_iff dest!: set_update_subset_insert [THEN subsetD])
    qed (use Cons.prems in \<open>simp add: list_update_beyond\<close>)
    with Cons Some show ?thesis by simp
  qed (use Cons in simp)
qed simp

lemma set_vector_typed: "element_bounded el \<Longrightarrow> vector_typed v \<Longrightarrow> vector_typed (set_vector el now v)"
  using set_members_typed [of "e_Members el" "v_Members v" now "v_byName v" 0]
  by (simp add: vector_typed_def set_vector_def element_bounded_def)

lemma spec_apply_typed: "element_bounded el \<Longrightarrow> map_typed m \<Longrightarrow> map_typed (spec_apply el now m)"
  by (auto simp: map_typed_def spec_apply_def Let_def def_vector_typed set_vector_typed split: Kind.splits if_splits prod.splits)

text \<open>An element some parser returned, from any input.\<close>

definition parsed :: "Element \<Rightarrow> bool" where
  "parsed el \<longleftrightarrow> (\<exists>diag sink u ds s r. po_res (next_loop diag sink u ds s) = Inr (el, r))"

lemma store_step_typed:
  assumes "map_typed (abs_store st)" "\<And>el now. op = OpApply el now \<Longrightarrow> parsed el"
  shows "map_typed (abs_store (store_step op st))"
proof (cases op)
  case (OpApply el now)
  then have "element_bounded el" using assms(2) parser_bounded by (auto simp: parsed_def)
  then show ?thesis using assms(1) OpApply by (simp add: Apply_abs spec_apply_typed)
qed (simp_all add: map_typed_def abs_store_def Invalidate_def Reset_def Snapshot_Vector_def props_of_def)

text \<open>C40: Whatever bytes a driver sends, a reader of a snapshot only ever sees well-typed vectors: every
  number, limit and step of a member is a \<^verbatim>\<open>float64\<close>, every BLOB size an \<^verbatim>\<open>int64\<close>, no vector has more than
  4096 members and no text is longer than one MiB, for every sequence of parsed elements, invalidations and resets.\<close>

theorem snapshot_typed:
  assumes "\<And>el now. OpApply el now \<in> set ops \<Longrightarrow> parsed el"
    "Snapshot_Vector (st_cur (fold store_step ops NewStore)) d n = Some v"
  shows "vector_typed v"
proof -
  have "map_typed (abs_store (fold store_step os st))"
    if "map_typed (abs_store st)" "\<And>el now. OpApply el now \<in> set os \<Longrightarrow> parsed el" for os st
    using that
  proof (induction os arbitrary: st)
    case (Cons op os)
    then have "map_typed (abs_store (store_step op st))" by (intro store_step_typed) auto
    moreover have "parsed el" if "OpApply el now \<in> set os" for el now using Cons.prems(2) [of el now] that by simp
    ultimately have "map_typed (abs_store (fold store_step os (store_step op st)))" by (rule Cons.IH)
    then show ?case by simp
  qed simp
  moreover have "map_typed (abs_store NewStore)"
    by (simp add: map_typed_def abs_store_def NewStore_def Snapshot_Vector_def props_of_def)
  ultimately have "map_typed (abs_store (fold store_step ops NewStore))" using assms(1) by blast
  then show ?thesis using assms(2) by (auto simp: map_typed_def abs_store_def)
qed

theorem snapshot_typed_witness:
  "\<exists>el v. Snapshot_Vector (st_cur (fold store_step [OpApply el 5] NewStore)) ''D'' ''P'' = Some v \<and> vector_typed v"
proof -
  let ?el = "zero_element\<lparr>e_Kind := KindDef, e_Type := Text, e_Device := ''D'', e_Name := ''P''\<rparr>"
  obtain w where w: "encodeElement ?el [] = Inr w" by (simp add: encodeElement_def)
  have "element_view (\<lambda>_. False) [] ?el = ?el" "element_wf [] ?el"
    by (simp_all add: element_view_def element_wf_def zero_element_def maxToken_def)
  then have "po_res (next_loop False (\<lambda>_. False) 0 [] (w @ [])) = Inr (?el, [NL])"
    using next_loop_encodeElement [OF _ w, where r = "[]"] by simp
  then have "parsed ?el" unfolding parsed_def by blast
  moreover have v: "Snapshot_Vector (st_cur (fold store_step [OpApply ?el 5] NewStore)) ''D'' ''P'' = Some (def_vector ?el 5)"
    by (simp add: Apply_def applyDef_def NewStore_def lookup_publish Let_def zero_element_def props_of_def maxProperties_def)
  ultimately have "vector_typed (def_vector ?el 5)" by (intro snapshot_typed [OF _ v]) simp
  with v show ?thesis by blast
qed

end
