(* ===== verification/Spec2Isabelle.thy ===== *)
theory Spec2Isabelle
  imports Indi_Serve Supervisor_Run Supervisor_Wait Image_Path Device_Switch Device_Rotator Device_FilterWheel Device_Focuser Device_Safety Device_CoverCal Device_Dome Device_Weather Device_Camera Telescope_Facts Snapshot_Typed
begin

text \<open>
  A model of indihurd, a daemon that runs INDI drivers and serves them over Alpaca.
\<close>

end
